theory Spec2Isabelle
  imports Main "HOL-Library.Word"
begin

section \<open>dump\_rtprio: a shallow embedding of \<^verbatim>\<open>src/dump_rtprio.cpp\<close>\<close>

text \<open>
  The program scans process identifiers, queries the kernel for the scheduling attributes
  of each one and prints one CSV line per identifier that is still there when all queries
  are done. Every kernel interface it calls is a field of the record \<open>os\<close>: the answer
  the kernel gives to that call for that identifier. Each interface is called at most once
  per identifier, so a function from identifiers to answers covers every interleaving with
  processes that exit or appear while the scan runs.
\<close>

subsection \<open>Ways the program can stop early\<close>

text \<open>
  \<^item> \<open>Exit_fatal\<close>: \<^verbatim>\<open>LOG(FATAL, ...)\<close> and \<^verbatim>\<open>PLOG(FATAL, ...)\<close> print
    a diagnostic and call \<^verbatim>\<open>std::exit(1)\<close>.
  \<^item> \<open>Uncaught_exception\<close>: \<^verbatim>\<open>CHECK_EQ\<close>, \<^verbatim>\<open>PCHECK\<close>, \<^verbatim>\<open>std::stoi\<close>
    and the \<^verbatim>\<open>std::string\<close> constructor throw; nothing catches, so the program
    is terminated.
  \<^item> \<open>Undefined_behaviour\<close>: an access outside a \<^verbatim>\<open>string_view\<close> or a read of
    a buffer that was never written.
\<close>

datatype failure = Exit_fatal | Uncaught_exception | Undefined_behaviour

subsection \<open>Program state\<close>

datatype reader =
  Find_cpu_mask | Find_sched_param | Find_scheduler | Find_exe | Find_nice_value
  | Read_stat | Read_status

text \<open>
  \<open>errno\<close> is the C library's error indicator, \<open>not_there\<close> the flag of \<^verbatim>\<open>main\<close>
  that every reader receives by pointer, \<open>stdout\<close> the strings written by
  \<^verbatim>\<open>std::printf\<close> (one per call), and \<open>trace\<close> the readers entered so far, with
  the identifier each was called for.
\<close>

record state =
  errno :: int
  not_there :: bool
  stdout :: "string list"
  trace :: "(reader \<times> int) list"

type_synonym 'a prog = "state \<Rightarrow> (failure + 'a) \<times> state"

definition ok :: "'a \<Rightarrow> 'a prog" where
  "ok a s = (Inr a, s)"

definition abort :: "failure \<Rightarrow> 'a prog" where
  "abort e s = (Inl e, s)"

definition seq :: "'a prog \<Rightarrow> ('a \<Rightarrow> 'b prog) \<Rightarrow> 'b prog" where
  "seq m f s = (case m s of (Inl e, s') \<Rightarrow> (Inl e, s') | (Inr a, s') \<Rightarrow> f a s')"

definition set_errno :: "int option \<Rightarrow> unit prog" where
  "set_errno e s = (Inr (), s\<lparr>errno := (case e of None \<Rightarrow> errno s | Some v \<Rightarrow> v)\<rparr>)"

definition get_errno :: "int prog" where
  "get_errno s = (Inr (errno s), s)"

definition set_not_there :: "bool \<Rightarrow> unit prog" where
  "set_not_there b s = (Inr (), s\<lparr>not_there := b\<rparr>)"

definition get_not_there :: "bool prog" where
  "get_not_there s = (Inr (not_there s), s)"

definition enter :: "reader \<Rightarrow> int \<Rightarrow> unit prog" where
  "enter r process s = (Inr (), s\<lparr>trace := trace s @ [(r, process)]\<rparr>)"

definition put :: "string \<Rightarrow> unit prog" where
  "put str s = (Inr (), s\<lparr>stdout := stdout s @ [str]\<rparr>)"

subsection \<open>The checking and logging helpers\<close>

definition CHECK_EQ :: "'a \<Rightarrow> 'a \<Rightarrow> unit prog" where
  "CHECK_EQ val1 val2 = (if val1 \<noteq> val2 then abort Uncaught_exception else ok ())"

definition PCHECK :: "int \<Rightarrow> unit prog" where
  "PCHECK val = (if val \<noteq> 0 then abort Uncaught_exception else ok ())"

text \<open>
  Every call of \<^verbatim>\<open>LOG\<close> and \<^verbatim>\<open>PLOG\<close> in the program passes \<^verbatim>\<open>FATAL\<close>, for
  which \<^verbatim>\<open>LOG\<close> ends in \<^verbatim>\<open>std::exit(1)\<close> and never returns to its caller.
\<close>

definition LOG_FATAL :: "'a prog" where
  "LOG_FATAL = abort Exit_fatal"

definition PLOG_FATAL :: "'a prog" where
  "PLOG_FATAL = LOG_FATAL"

subsection \<open>Constants of the system headers\<close>

text \<open>The values of Linux (\<^verbatim>\<open>errno-base.h\<close>, \<^verbatim>\<open>bits/sched.h\<close>).\<close>

definition ENOENT :: int where "ENOENT = 2"
definition ESRCH :: int where "ESRCH = 3"

definition SCHED_OTHER :: "32 word" where "SCHED_OTHER = 0"
definition SCHED_FIFO :: "32 word" where "SCHED_FIFO = 1"
definition SCHED_RR :: "32 word" where "SCHED_RR = 2"
definition SCHED_BATCH :: "32 word" where "SCHED_BATCH = 3"
definition SCHED_IDLE :: "32 word" where "SCHED_IDLE = 5"
definition SCHED_DEADLINE :: "32 word" where "SCHED_DEADLINE = 6"

definition policy_string :: "32 word \<Rightarrow> string" where
  "policy_string policy =
     (if policy = SCHED_OTHER then ''OTHER''
      else if policy = SCHED_BATCH then ''BATCH''
      else if policy = SCHED_IDLE then ''IDLE''
      else if policy = SCHED_FIFO then ''FIFO''
      else if policy = SCHED_RR then ''RR''
      else if policy = SCHED_DEADLINE then ''DEADLINE''
      else ''???'')"

subsection \<open>Text helpers\<close>

definition newline :: char where "newline = CHR 0x0A"
definition tab :: char where "tab = CHR 0x09"
definition NUL :: char where "NUL = CHR 0x00"

text \<open>A C string ends at its first NUL.\<close>

definition c_string :: "string \<Rightarrow> string" where
  "c_string buffer = takeWhile (\<lambda>c. c \<noteq> NUL) buffer"

definition is_blank :: "char \<Rightarrow> bool" where
  "is_blank c = (c = CHR '' '' \<or> c = tab \<or> c = newline)"

text \<open>
  \<^verbatim>\<open>strip\<close> works on a \<^verbatim>\<open>std::string_view\<close>. \<^verbatim>\<open>front()\<close> and \<^verbatim>\<open>back()\<close>
  of an empty view are accesses out of bounds: the model returns \<open>None\<close> there.
\<close>

fun strip_left :: "string \<Rightarrow> string option" where
  "strip_left [] = None"
| "strip_left (c # str) = (if is_blank c then strip_left str else Some (c # str))"

function strip_right :: "string \<Rightarrow> string option" where
  "strip_right str =
     (if str = [] then None
      else if is_blank (last str) then strip_right (butlast str)
      else Some str)"
  by pat_completeness auto
termination
  by (relation "measure length") auto

declare strip_right.simps [simp del]

definition strip :: "string \<Rightarrow> string option" where
  "strip str = (case strip_left str of None \<Rightarrow> None | Some str' \<Rightarrow> strip_right str')"

text \<open>
  \<^verbatim>\<open>std::stoi\<close> (base 10), as the C++ standard describes it through
  \<^verbatim>\<open>strtol\<close>: leading white space is skipped, a sign is optional, the digits
  that follow are the value and anything after them is ignored. With no digit it throws
  \<^verbatim>\<open>std::invalid_argument\<close>, with a value outside \<^verbatim>\<open>int\<close> it throws
  \<^verbatim>\<open>std::out_of_range\<close>: \<open>None\<close> in both cases.
\<close>

definition isspace :: "char \<Rightarrow> bool" where
  "isspace c = (c \<in> set [CHR '' '', CHR 0x09, CHR 0x0A, CHR 0x0B, CHR 0x0C, CHR 0x0D])"

definition isdigit :: "char \<Rightarrow> bool" where
  "isdigit c = (c \<in> set ''0123456789'')"

fun digits_value :: "string \<Rightarrow> int \<Rightarrow> int" where
  "digits_value [] acc = acc"
| "digits_value (c # cs) acc = digits_value cs (10 * acc + (of_char c - 48))"

definition stoi :: "string \<Rightarrow> int option" where
  "stoi str =
     (let s1 = dropWhile isspace str;
          negative = (s1 \<noteq> [] \<and> hd s1 = CHR ''-'');
          s2 = (if s1 \<noteq> [] \<and> (hd s1 = CHR ''-'' \<or> hd s1 = CHR ''+'') then tl s1 else s1);
          ds = takeWhile isdigit s2;
          v = (if negative then - digits_value ds 0 else digits_value ds 0)
      in if ds = [] then None
         else if - (2 ^ 31) \<le> v \<and> v < 2 ^ 31 then Some v
         else None)"

text \<open>\<^verbatim>\<open>std::printf\<close> with the two conversions the program uses.\<close>

datatype arg = S string | D int

definition digit_char :: "nat \<Rightarrow> char" where
  "digit_char d = ''0123456789'' ! d"

fun dec_nat :: "nat \<Rightarrow> string" where
  "dec_nat n = (if n < 10 then [digit_char n] else dec_nat (n div 10) @ [digit_char (n mod 10)])"

declare dec_nat.simps [simp del]

definition dec :: "int \<Rightarrow> string" where
  "dec n = (if n < 0 then CHR ''-'' # dec_nat (nat (- n)) else dec_nat (nat n))"

fun printf :: "string \<Rightarrow> arg list \<Rightarrow> string" where
  "printf (p # k # fmt) (a # args) =
     (if p = CHR ''%'' \<and> k = CHR ''s'' then
        (case a of S str \<Rightarrow> c_string str @ printf fmt args | D n \<Rightarrow> [])
      else if p = CHR ''%'' \<and> k = CHR ''d'' then
        (case a of D n \<Rightarrow> dec n @ printf fmt args | S str \<Rightarrow> [])
      else p # printf (k # fmt) (a # args))"
| "printf (p # fmt) args = p # printf fmt args"
| "printf [] args = []"

subsection \<open>The kernel interfaces\<close>

text \<open>
  A system call answers with its return value and, when it fails, the value it stores in
  \<open>errno\<close> (\<open>None\<close>: \<open>errno\<close> is left as it was), followed by what it wrote into the
  caller's buffer.

  An open stream is the text still to be read, what happens when the reader gets to the end
  of it (\<open>None\<close>: end of file; \<open>Some e\<close>: a read error, \<^verbatim>\<open>ferror\<close> set and
  \<open>errno = e\<close>), and the return value of \<^verbatim>\<open>fclose\<close>.
\<close>

datatype 'a fopen_result = Null "int option" | Stream 'a

record proc_file =
  contents :: string
  read_error :: "int option"
  fclose_result :: int

record pid_max_file =
  fscanf_count :: int
  fscanf_value :: int
  pid_max_fclose :: int

record sched_param =
  sched_priority :: int

text \<open>
  Modelled from the spec: \<^verbatim>\<open>cpu_set_t\<close> and the macros \<^verbatim>\<open>CPU_ZERO\<close>,
  \<^verbatim>\<open>CPU_SET\<close> and \<^verbatim>\<open>CPU_EQUAL\<close> come from \<^verbatim>\<open>sched.h\<close>, which is not
  part of the repository. The spec's data model has the type as a set of CPU indices.
\<close>

type_synonym cpu_set_t = "nat set"

definition CPU_ZERO :: cpu_set_t where
  "CPU_ZERO = {}"

definition CPU_SET :: "int \<Rightarrow> cpu_set_t \<Rightarrow> cpu_set_t" where
  "CPU_SET cpu r = insert (nat cpu) r"

definition CPU_EQUAL :: "cpu_set_t \<Rightarrow> cpu_set_t \<Rightarrow> bool" where
  "CPU_EQUAL a b = (a = b)"

record os =
  fopen_pid_max :: "pid_max_file fopen_result"
  sysconf_nprocessors_conf :: int
  sched_getaffinity :: "int \<Rightarrow> int \<times> int option \<times> cpu_set_t"
  sched_getparam :: "int \<Rightarrow> int \<times> int option \<times> sched_param"
  sched_getscheduler :: "int \<Rightarrow> int \<times> int option"
  readlink_exe :: "int \<Rightarrow> int \<times> int option \<times> string"
  getpriority :: "int \<Rightarrow> int \<times> int option"
  fopen_stat :: "int \<Rightarrow> proc_file fopen_result"
  fopen_status :: "int \<Rightarrow> proc_file fopen_result"

text \<open>
  \<^verbatim>\<open>fgets(buffer, n, stream)\<close> on a stream that still has text: at most \<open>n - 1\<close>
  characters, ending after the first newline. The result is what the buffer holds and what
  is left in the stream.
\<close>

definition fgets :: "nat \<Rightarrow> string \<Rightarrow> string \<times> string" where
  "fgets n input =
     (let line = takeWhile (\<lambda>c. c \<noteq> newline) input;
          upto = (if length line < length input then line @ [newline] else line);
          chunk = take (n - 1) upto
      in (chunk, drop (length chunk) input))"

subsection \<open>System limits\<close>

definition find_pid_max :: "os \<Rightarrow> int prog" where
  "find_pid_max os =
     (case fopen_pid_max os of
        Null e \<Rightarrow> PLOG_FATAL
      | Stream pid_max_file \<Rightarrow>
          seq (CHECK_EQ 1 (fscanf_count pid_max_file)) (\<lambda>_.
          seq (PCHECK (pid_max_fclose pid_max_file)) (\<lambda>_.
          ok (fscanf_value pid_max_file))))"

text \<open>
  \<^verbatim>\<open>int16_t nproc = sysconf(...)\<close> converts a \<^verbatim>\<open>long\<close> to 16 bits. The loop
  index is an \<^verbatim>\<open>int16_t\<close> too; it stays below \<open>nproc\<close>, so \<^verbatim>\<open>++i\<close> never wraps.
\<close>

definition int16_t :: "int \<Rightarrow> int" where
  "int16_t n = sint (word_of_int n :: 16 word)"

function find_all_cpus_loop :: "int \<Rightarrow> int \<Rightarrow> cpu_set_t \<Rightarrow> cpu_set_t" where
  "find_all_cpus_loop i nproc r =
     (if i < nproc then find_all_cpus_loop (i + 1) nproc (CPU_SET i r) else r)"
  by pat_completeness auto
termination
  by (relation "measure (\<lambda>(i, nproc, r). nat (nproc - i))") auto

declare find_all_cpus_loop.simps [simp del]

definition find_all_cpus :: "os \<Rightarrow> cpu_set_t prog" where
  "find_all_cpus os =
     (let nproc = int16_t (sysconf_nprocessors_conf os) in
      if nproc = - 1 then PLOG_FATAL
      else ok (find_all_cpus_loop 0 nproc CPU_ZERO))"

subsection \<open>The readers\<close>

definition find_cpu_mask :: "os \<Rightarrow> int \<Rightarrow> cpu_set_t prog" where
  "find_cpu_mask os process =
     seq (enter Find_cpu_mask process) (\<lambda>_.
     case sched_getaffinity os process of (result, e, r) \<Rightarrow>
       seq (set_errno e) (\<lambda>_.
       seq get_errno (\<lambda>err.
       if result = - 1 \<and> err = ESRCH then seq (set_not_there True) (\<lambda>_. ok CPU_ZERO)
       else if result \<noteq> 0 then PLOG_FATAL
       else ok r)))"

definition find_sched_param :: "os \<Rightarrow> int \<Rightarrow> sched_param prog" where
  "find_sched_param os process =
     seq (enter Find_sched_param process) (\<lambda>_.
     case sched_getparam os process of (result, e, r) \<Rightarrow>
       seq (set_errno e) (\<lambda>_.
       seq get_errno (\<lambda>err.
       if result = - 1 \<and> err = ESRCH then
         seq (set_not_there True) (\<lambda>_. ok \<lparr>sched_priority = 0\<rparr>)
       else if result \<noteq> 0 then PLOG_FATAL
       else ok r)))"

definition find_scheduler :: "os \<Rightarrow> int \<Rightarrow> int prog" where
  "find_scheduler os process =
     seq (enter Find_scheduler process) (\<lambda>_.
     case sched_getscheduler os process of (scheduler, e) \<Rightarrow>
       seq (set_errno e) (\<lambda>_.
       seq get_errno (\<lambda>err.
       if scheduler = - 1 \<and> err = ESRCH then seq (set_not_there True) (\<lambda>_. ok 0)
       else if scheduler = - 1 then PLOG_FATAL
       else ok scheduler)))"

text \<open>
  \<^verbatim>\<open>std::string(exe_buffer, exe_size)\<close> with a negative \<open>exe_size\<close> asks for more
  than \<^verbatim>\<open>max_size()\<close> characters and throws \<^verbatim>\<open>std::length_error\<close>.
\<close>

definition find_exe :: "os \<Rightarrow> int \<Rightarrow> string prog" where
  "find_exe os process =
     seq (enter Find_exe process) (\<lambda>_.
     case readlink_exe os process of (exe_size, e, exe_buffer) \<Rightarrow>
       seq (set_errno e) (\<lambda>_.
       seq get_errno (\<lambda>err.
       if exe_size = - 1 then
         (if err = ENOENT then ok ''ENOENT''
          else if err = ESRCH then seq (set_not_there True) (\<lambda>_. ok '''')
          else PLOG_FATAL)
       else if exe_size < 0 then abort Uncaught_exception
       else ok (take (nat exe_size) exe_buffer))))"

definition find_nice_value :: "os \<Rightarrow> int \<Rightarrow> int prog" where
  "find_nice_value os process =
     seq (enter Find_nice_value process) (\<lambda>_.
     seq (set_errno (Some 0)) (\<lambda>_.
     case getpriority os process of (nice_value, e) \<Rightarrow>
       seq (set_errno e) (\<lambda>_.
       seq get_errno (\<lambda>err.
       if err = ESRCH then seq (set_not_there True) (\<lambda>_. ok 0)
       else if err \<noteq> 0 then PLOG_FATAL
       else ok nice_value))))"

text \<open>
  The loop of \<^verbatim>\<open>read_stat\<close> over the characters of the line. \<open>buffer\<close> is the whole
  line, the second argument the characters from index \<open>i\<close> on.
\<close>

record stat_vars =
  stat_pid :: int
  stat_ppid :: int
  stat_sid :: int
  field :: int
  field_start :: nat
  parens :: int

definition stat_field :: "string \<Rightarrow> stat_vars \<Rightarrow> failure + stat_vars" where
  "stat_field field_string v =
     (if field v = 0 then
        (case stoi field_string of None \<Rightarrow> Inl Uncaught_exception
         | Some n \<Rightarrow> Inr (v\<lparr>stat_pid := n\<rparr>))
      else if field v = 3 then
        (case stoi field_string of None \<Rightarrow> Inl Uncaught_exception
         | Some n \<Rightarrow> Inr (v\<lparr>stat_ppid := n\<rparr>))
      else if field v = 4 then
        (case stoi field_string of None \<Rightarrow> Inl Uncaught_exception
         | Some n \<Rightarrow> Inr (v\<lparr>stat_sid := n\<rparr>))
      else Inr v)"

fun stat_loop :: "string \<Rightarrow> string \<Rightarrow> nat \<Rightarrow> stat_vars \<Rightarrow> failure + stat_vars" where
  "stat_loop buffer [] i v = Inr v"
| "stat_loop buffer (c # cs) i v =
     (let v1 = (if c = CHR ''('' then v\<lparr>parens := parens v + 1\<rparr> else v) in
      if parens v1 > 0 then
        stat_loop buffer cs (i + 1) (if c = CHR '')'' then v1\<lparr>parens := parens v1 - 1\<rparr> else v1)
      else if c = CHR '' '' then
        (case stat_field (take (i - field_start v1) (drop (field_start v1) buffer)) v1 of
           Inl e \<Rightarrow> Inl e
         | Inr v2 \<Rightarrow>
             stat_loop buffer cs (i + 1) (v2\<lparr>field := field v2 + 1, field_start := i + 1\<rparr>))
      else stat_loop buffer cs (i + 1) v1)"

definition parse_stat :: "int \<times> int \<Rightarrow> string \<Rightarrow> failure + stat_vars" where
  "parse_stat ppid_sid buffer =
     stat_loop buffer buffer 0
       \<lparr>stat_pid = 0, stat_ppid = fst ppid_sid, stat_sid = snd ppid_sid,
        field = 0, field_start = 0, parens = 0\<rparr>"

text \<open>
  \<open>ppid\<close> and \<open>sid\<close> are variables of \<^verbatim>\<open>main\<close> passed by pointer: the reader takes
  their values and returns the new ones. When \<^verbatim>\<open>fgets\<close> finds the stream at its end
  without an error, the loop would read a buffer that nothing has written.
\<close>

definition read_stat :: "os \<Rightarrow> int \<Rightarrow> int \<times> int \<Rightarrow> (int \<times> int) prog" where
  "read_stat os process ppid_sid =
     seq (enter Read_stat process) (\<lambda>_.
     case fopen_stat os process of
       Null e \<Rightarrow>
         seq (set_errno e) (\<lambda>_.
         seq get_errno (\<lambda>err.
         if err = ENOENT then seq (set_not_there True) (\<lambda>_. ok ppid_sid)
         else PLOG_FATAL))
     | Stream stat \<Rightarrow>
         if contents stat = [] then
           (case read_error stat of
              Some e \<Rightarrow>
                seq (set_errno (Some e)) (\<lambda>_.
                seq get_errno (\<lambda>err.
                if err = ESRCH then seq (set_not_there True) (\<lambda>_. ok ppid_sid)
                else PLOG_FATAL))
            | None \<Rightarrow> abort Undefined_behaviour)
         else
           (case parse_stat ppid_sid (c_string (fst (fgets 2048 (contents stat)))) of
              Inl e \<Rightarrow> abort e
            | Inr v \<Rightarrow>
                seq (PCHECK (fclose_result stat)) (\<lambda>_.
                seq (if field v < 4 then LOG_FATAL else ok ()) (\<lambda>_.
                seq (CHECK_EQ (stat_pid v) process) (\<lambda>_.
                ok (stat_ppid v, stat_sid v))))))"

text \<open>
  One line of the status record. \<^verbatim>\<open>sizeof("Name:")\<close> counts the final NUL of the
  literal, so \<^verbatim>\<open>remove_prefix\<close> drops the label and one more character; on a view
  shorter than that it is undefined.
\<close>

record status_vars =
  status_name :: string
  status_pid :: int
  status_ppid :: int
  status_pgrp :: int

definition starts_with :: "string \<Rightarrow> string \<Rightarrow> bool" where
  "starts_with line label = (take (length label) line = label)"

definition remove_prefix :: "nat \<Rightarrow> string \<Rightarrow> string option" where
  "remove_prefix n line = (if n \<le> length line then Some (drop n line) else None)"

definition stripped :: "nat \<Rightarrow> string \<Rightarrow> failure + string" where
  "stripped n line =
     (case remove_prefix n line of
        None \<Rightarrow> Inl Undefined_behaviour
      | Some rest \<Rightarrow> (case strip rest of None \<Rightarrow> Inl Undefined_behaviour | Some str \<Rightarrow> Inr str))"

definition stripped_int :: "nat \<Rightarrow> string \<Rightarrow> failure + int" where
  "stripped_int n line =
     (case stripped n line of
        Inl e \<Rightarrow> Inl e
      | Inr str \<Rightarrow> (case stoi str of None \<Rightarrow> Inl Uncaught_exception | Some k \<Rightarrow> Inr k))"

definition status_line :: "string \<Rightarrow> status_vars \<Rightarrow> failure + status_vars" where
  "status_line line v =
     (if starts_with line ''Name:'' then
        (case stripped 6 line of Inl e \<Rightarrow> Inl e | Inr str \<Rightarrow> Inr (v\<lparr>status_name := str\<rparr>))
      else if starts_with line ''Pid:'' then
        (case stripped_int 5 line of Inl e \<Rightarrow> Inl e | Inr k \<Rightarrow> Inr (v\<lparr>status_pid := k\<rparr>))
      else if starts_with line ''PPid:'' then
        (case stripped_int 6 line of Inl e \<Rightarrow> Inl e | Inr k \<Rightarrow> Inr (v\<lparr>status_ppid := k\<rparr>))
      else if starts_with line ''Tgid:'' then
        (case stripped_int 6 line of Inl e \<Rightarrow> Inl e | Inr k \<Rightarrow> Inr (v\<lparr>status_pgrp := k\<rparr>))
      else Inr v)"

lemma fgets_shorter: "input \<noteq> [] \<Longrightarrow> length (snd (fgets 1024 input)) < length input"
  by (cases "takeWhile (\<lambda>c. c \<noteq> newline) input") (auto simp: fgets_def Let_def)

text \<open>
  The \<^verbatim>\<open>while (true)\<close> loop of \<^verbatim>\<open>read_status\<close>: \<open>input\<close> is what is left of the
  stream. A read error ends the program, whatever \<open>errno\<close> says.
\<close>

function read_status_loop :: "proc_file \<Rightarrow> string \<Rightarrow> status_vars \<Rightarrow> failure + status_vars" where
  "read_status_loop status input v =
     (if input = [] then
        (case read_error status of Some e \<Rightarrow> Inl Exit_fatal | None \<Rightarrow> Inr v)
      else
        (case status_line (c_string (fst (fgets 1024 input))) v of
           Inl e \<Rightarrow> Inl e
         | Inr v' \<Rightarrow> read_status_loop status (snd (fgets 1024 input)) v'))"
  by pat_completeness auto
termination
  by (relation "measure (\<lambda>(status, input, v). length input)") (auto simp: fgets_shorter)

declare read_status_loop.simps [simp del]

definition parse_status :: "int \<times> string \<Rightarrow> proc_file \<Rightarrow> failure + status_vars" where
  "parse_status pgrp_name status =
     read_status_loop status (contents status)
       \<lparr>status_name = snd pgrp_name, status_pid = 0, status_ppid = 0,
        status_pgrp = fst pgrp_name\<rparr>"

definition read_status :: "os \<Rightarrow> int \<Rightarrow> int \<Rightarrow> int \<times> string \<Rightarrow> (int \<times> string) prog" where
  "read_status os process ppid pgrp_name =
     seq (enter Read_status process) (\<lambda>_.
     case fopen_status os process of
       Null e \<Rightarrow>
         seq (set_errno e) (\<lambda>_.
         seq get_errno (\<lambda>err.
         if err = ENOENT then seq (set_not_there True) (\<lambda>_. ok pgrp_name)
         else PLOG_FATAL))
     | Stream status \<Rightarrow>
         (case parse_status pgrp_name status of
            Inl e \<Rightarrow> abort e
          | Inr v \<Rightarrow>
              seq (PCHECK (fclose_result status)) (\<lambda>_.
              seq (CHECK_EQ (status_pid v) process) (\<lambda>_.
              seq (CHECK_EQ (status_ppid v) ppid) (\<lambda>_.
              ok (status_pgrp v, status_name v))))))"

subsection \<open>The scan\<close>

definition header :: string where
  "header = ''exe,name,cpumask,policy,nice,priority,tid,pid,ppid,sid,cpu'' @ [newline]"

definition row_format :: string where
  "row_format = ''%s,%s,%s,%s,%d,%d,%d,%d,%d,%d'' @ [newline]"

definition cpu_mask_string :: "cpu_set_t \<Rightarrow> cpu_set_t \<Rightarrow> string" where
  "cpu_mask_string cpu_mask all_cpus = (if CPU_EQUAL cpu_mask all_cpus then ''all'' else ''???'')"

text \<open>The body of the \<^verbatim>\<open>for\<close> loop of \<^verbatim>\<open>main\<close>, for the identifier \<open>i\<close>.\<close>

definition main_loop_body :: "os \<Rightarrow> cpu_set_t \<Rightarrow> int \<Rightarrow> unit prog" where
  "main_loop_body os all_cpus i =
     seq (set_not_there False) (\<lambda>_.
     seq (find_cpu_mask os i) (\<lambda>cpu_mask.
     seq (find_sched_param os i) (\<lambda>param.
     seq (find_scheduler os i) (\<lambda>scheduler.
     seq (find_exe os i) (\<lambda>exe.
     seq (find_nice_value os i) (\<lambda>nice_value.
     seq (read_stat os i (0, 0)) (\<lambda>(ppid, sid).
     seq (read_status os i ppid (0, [])) (\<lambda>(pgrp, name).
     seq get_not_there (\<lambda>gone.
     if gone then ok ()
     else
       put (printf row_format
              [S exe, S name, S (cpu_mask_string cpu_mask all_cpus),
               S (policy_string (word_of_int scheduler)),
               D nice_value, D (sched_priority param), D i, D pgrp, D ppid, D sid]))))))))))"

function main_loop :: "os \<Rightarrow> cpu_set_t \<Rightarrow> int \<Rightarrow> int \<Rightarrow> unit prog" where
  "main_loop os all_cpus i pid_max s =
     (if i < pid_max then
        (case main_loop_body os all_cpus i s of
           (Inl e, s') \<Rightarrow> (Inl e, s')
         | (Inr u, s') \<Rightarrow> main_loop os all_cpus (i + 1) pid_max s')
      else (Inr (), s))"
  by pat_completeness auto
termination
  by (relation "measure (\<lambda>(os, all_cpus, i, pid_max, s). nat (pid_max - i))") auto

declare main_loop.simps [simp del]

definition main :: "os \<Rightarrow> unit prog" where
  "main os =
     seq (put (printf header [])) (\<lambda>_.
     seq (find_pid_max os) (\<lambda>pid_max.
     seq (find_all_cpus os) (\<lambda>all_cpus.
     main_loop os all_cpus 0 pid_max)))"

definition initial :: state where
  "initial = \<lparr>errno = 0, not_there = False, stdout = [], trace = []\<rparr>"

section \<open>Notions used to state the properties\<close>

subsection \<open>Readers, calls and successful answers\<close>

text \<open>
  \<open>calls rds i\<close> is what the trace gains when the readers \<open>rds\<close> are entered, in this
  order, for the identifier \<open>i\<close>. The predicates \<open>affinity_ok\<close> to \<open>status_ok\<close> say that
  the kernel's answer for \<open>i\<close> is one on which the reader neither ends the program nor sets
  the flag, and name the value the reader returns. \<open>step\<close> and \<open>body_ok\<close> describe one
  reader and the rest of the loop body after it; they only serve the proofs.
\<close>

definition all_readers :: "reader list" where
  "all_readers =
     [Find_cpu_mask, Find_sched_param, Find_scheduler, Find_exe, Find_nice_value,
      Read_stat, Read_status]"

definition calls :: "reader list \<Rightarrow> int \<Rightarrow> (reader \<times> int) list" where
  "calls rds i = map (\<lambda>rd. (rd, i)) rds"

definition affinity_ok :: "os \<Rightarrow> int \<Rightarrow> cpu_set_t \<Rightarrow> bool" where
  "affinity_ok os i cpu_mask = (\<exists>e. sched_getaffinity os i = (0, e, cpu_mask))"

definition param_ok :: "os \<Rightarrow> int \<Rightarrow> sched_param \<Rightarrow> bool" where
  "param_ok os i param = (\<exists>e. sched_getparam os i = (0, e, param))"

definition scheduler_ok :: "os \<Rightarrow> int \<Rightarrow> int \<Rightarrow> bool" where
  "scheduler_ok os i scheduler = (scheduler \<noteq> - 1 \<and> (\<exists>e. sched_getscheduler os i = (scheduler, e)))"

definition exe_ok :: "os \<Rightarrow> int \<Rightarrow> string \<Rightarrow> bool" where
  "exe_ok os i exe =
     (\<exists>exe_size e exe_buffer. readlink_exe os i = (exe_size, e, exe_buffer) \<and>
        (if exe_size = - 1 then (e = None \<or> e = Some ENOENT) \<and> exe = ''ENOENT''
         else 0 \<le> exe_size \<and> exe = take (nat exe_size) exe_buffer))"

definition nice_ok :: "os \<Rightarrow> int \<Rightarrow> int \<Rightarrow> bool" where
  "nice_ok os i nice_value =
     (\<exists>e. getpriority os i = (nice_value, e) \<and> (e = None \<or> e = Some 0))"

definition stat_ok :: "os \<Rightarrow> int \<Rightarrow> stat_vars \<Rightarrow> bool" where
  "stat_ok os i v =
     (\<exists>stat. fopen_stat os i = Stream stat \<and> contents stat \<noteq> []
        \<and> parse_stat (0, 0) (c_string (fst (fgets 2048 (contents stat)))) = Inr v
        \<and> fclose_result stat = 0 \<and> 4 \<le> field v \<and> stat_pid v = i)"

definition status_ok :: "os \<Rightarrow> int \<Rightarrow> int \<Rightarrow> status_vars \<Rightarrow> bool" where
  "status_ok os i ppid v =
     (\<exists>status. fopen_status os i = Stream status
        \<and> parse_status (0, []) status = Inr v
        \<and> fclose_result status = 0 \<and> status_pid v = i \<and> status_ppid v = ppid)"

definition step :: "reader \<Rightarrow> int \<Rightarrow> ('a \<Rightarrow> bool) \<Rightarrow> 'a prog \<Rightarrow> bool" where
  "step rd i good m =
     (\<forall>s. case m s of (r, s') \<Rightarrow>
        stdout s' = stdout s \<and> trace s' = trace s @ [(rd, i)]
        \<and> (case r of Inl e \<Rightarrow> True
            | Inr a \<Rightarrow> (not_there s \<longrightarrow> not_there s') \<and> (\<not> not_there s' \<longrightarrow> good a)))"

definition body_ok :: "int \<Rightarrow> reader list \<Rightarrow> (string \<Rightarrow> bool) \<Rightarrow> unit prog \<Rightarrow> bool" where
  "body_ok i rds row m =
     (\<forall>s. case m s of (r, s') \<Rightarrow>
        (case r of
           Inl e \<Rightarrow>
             stdout s' = stdout s
             \<and> (\<exists>k<length rds. trace s' = trace s @ calls (take (Suc k) rds) i)
         | Inr u \<Rightarrow>
             trace s' = trace s @ calls rds i
             \<and> (stdout s' = stdout s
                \<or> (\<not> not_there s \<and> (\<exists>l. row l \<and> stdout s' = stdout s @ [l])))))"

definition row_line ::
  "string \<Rightarrow> string \<Rightarrow> string \<Rightarrow> string \<Rightarrow> int \<Rightarrow> int \<Rightarrow> int \<Rightarrow> int \<Rightarrow> int \<Rightarrow> int \<Rightarrow> string"
  where
  "row_line exe name label policy nice_value priority tid pid ppid sid =
     printf row_format
       [S exe, S name, S label, S policy, D nice_value, D priority, D tid, D pid, D ppid, D sid]"

text \<open>
  \<open>live_row os all_cpus i l\<close>: every reader got an answer for \<open>i\<close> on which it neither
  ends the program nor sets the flag, and \<open>l\<close> is the line that \<^verbatim>\<open>main\<close> prints from
  what the readers return.
\<close>

definition live_row :: "os \<Rightarrow> cpu_set_t \<Rightarrow> int \<Rightarrow> string \<Rightarrow> bool" where
  "live_row os all_cpus i l =
     (\<exists>cpu_mask param scheduler exe nice_value sv tv.
        affinity_ok os i cpu_mask \<and> param_ok os i param \<and> scheduler_ok os i scheduler
        \<and> exe_ok os i exe \<and> nice_ok os i nice_value \<and> stat_ok os i sv
        \<and> status_ok os i (stat_ppid sv) tv
        \<and> l = row_line exe (status_name tv) (cpu_mask_string cpu_mask all_cpus)
                (policy_string (word_of_int scheduler)) nice_value (sched_priority param)
                i (status_pgrp tv) (stat_ppid sv) (stat_sid sv))"

subsection \<open>Lines of comma-separated values\<close>

text \<open>
  \<open>join_commas\<close> writes values one after the other with a comma between them, and
  \<open>comma_fields\<close> cuts a text at every comma it has, so that a text without a comma is one
  field. The \<open>columns\<close> of a line are the fields of the line without its final
  character, the newline. These are not taken from the program: they say what a line of
  comma-separated values is, and the properties compare what the program writes with them.
\<close>

fun join_commas :: "string list \<Rightarrow> string" where
  "join_commas [] = []"
| "join_commas [v] = v"
| "join_commas (v # w # vs) = v @ '','' @ join_commas (w # vs)"

fun comma_fields :: "string \<Rightarrow> string list" where
  "comma_fields [] = [[]]"
| "comma_fields (c # cs) =
     (if c = CHR '','' then [] # comma_fields cs
      else (case comma_fields cs of [] \<Rightarrow> [[c]] | v # vs \<Rightarrow> (c # v) # vs))"

definition columns :: "string \<Rightarrow> string list" where
  "columns l = comma_fields (butlast l)"

subsection \<open>The status record, line by line\<close>

text \<open>
  \<open>status_lines\<close> are the pieces in which \<^verbatim>\<open>fgets\<close> hands the status record to the
  loop of \<^verbatim>\<open>read_status\<close>: its lines, a line of 1024 characters or more in several
  pieces. \<open>labelled_value label absent lines\<close> is the number on the last of the lines that
  begin with \<open>label\<close>, read the way the program reads it (the label and one more
  character dropped, the rest stripped and given to \<^verbatim>\<open>std::stoi\<close>; 0 where that
  gives no number), and \<open>absent\<close> when no line begins with the label.
\<close>

function status_lines :: "string \<Rightarrow> string list" where
  "status_lines input =
     (if input = [] then []
      else c_string (fst (fgets 1024 input)) # status_lines (snd (fgets 1024 input)))"
  by pat_completeness auto
termination
  by (relation "measure length") (auto simp: fgets_shorter)

declare status_lines.simps [simp del]

definition labelled_value :: "string \<Rightarrow> int \<Rightarrow> string list \<Rightarrow> int" where
  "labelled_value label absent lines =
     (case filter (\<lambda>line. starts_with line label) lines of
        [] \<Rightarrow> absent
      | line # others \<Rightarrow>
          (case stripped_int (length label + 1) (last (line # others)) of
             Inr k \<Rightarrow> k
           | Inl e \<Rightarrow> 0))"

subsection \<open>Answers that report a vanished identifier\<close>

text \<open>
  \<open>reports_gone os i\<close>: some kernel answer for \<open>i\<close> is one that a reader takes as
  ``no such process'' (\<^verbatim>\<open>ESRCH\<close> from a system call or from reading the stat record,
  \<^verbatim>\<open>ENOENT\<close> from opening a record). \<open>stays_gone os i\<close>: the five readers after
  \<^verbatim>\<open>find_sched_param\<close> all find the identifier gone.
\<close>

definition reports_gone :: "os \<Rightarrow> int \<Rightarrow> bool" where
  "reports_gone os i =
     ((fst (sched_getaffinity os i) = - 1 \<and> fst (snd (sched_getaffinity os i)) = Some ESRCH)
      \<or> (fst (sched_getparam os i) = - 1 \<and> fst (snd (sched_getparam os i)) = Some ESRCH)
      \<or> sched_getscheduler os i = (- 1, Some ESRCH)
      \<or> (fst (readlink_exe os i) = - 1 \<and> fst (snd (readlink_exe os i)) = Some ESRCH)
      \<or> snd (getpriority os i) = Some ESRCH
      \<or> (case fopen_stat os i of
            Null e \<Rightarrow> e = Some ENOENT
          | Stream stat \<Rightarrow> contents stat = [] \<and> read_error stat = Some ESRCH)
      \<or> fopen_status os i = Null (Some ENOENT))"


subsection \<open>Failures that end the program\<close>

text \<open>
  \<open>fatal\<close>: the failures that are a termination of the program. \<open>yields m Q\<close>: the
  computation \<open>m\<close> either ends the program fatally or returns a value with \<open>Q\<close>.
\<close>

definition fatal :: "failure \<Rightarrow> bool" where
  "fatal e = (e = Exit_fatal \<or> e = Uncaught_exception)"

definition yields :: "'a prog \<Rightarrow> ('a \<Rightarrow> bool) \<Rightarrow> bool" where
  "yields m Q = (\<forall>s. case fst (m s) of Inl e \<Rightarrow> fatal e | Inr a \<Rightarrow> Q a)"

subsection \<open>Fields of the statistics record\<close>

text \<open>
  \<open>skip d xs\<close> follows the parenthesis counter of the loop of \<^verbatim>\<open>read_stat\<close> over
  the characters \<open>xs\<close>, starting from the depth \<open>d\<close>: \<open>None\<close> when the loop would end a
  field inside \<open>xs\<close> (a space at depth zero), else the depth after \<open>xs\<close>. A \<open>token\<close> is
  a text over which the depth goes from zero back to zero without ending a field: what the
  loop takes as one field when a space follows.
\<close>

fun skip :: "int \<Rightarrow> string \<Rightarrow> int option" where
  "skip d [] = Some d"
| "skip d (c # cs) =
     (let d1 = (if c = CHR ''('' then d + 1 else d) in
      if d1 > 0 then skip (if c = CHR '')'' then d1 - 1 else d1) cs
      else if c = CHR '' '' then None
      else skip d1 cs)"

definition token :: "string \<Rightarrow> bool" where
  "token f = (skip 0 f = Some 0)"

subsection \<open>Example systems\<close>

text \<open>
  \<open>os_init\<close> is the scenario of the specification with a maximum of 2: identifier 1 is
  \<^verbatim>\<open>init\<close>, nothing else exists. The others change single answers of it, but for
  \<open>os_top\<close>: a scan up to 8 in which identifier 7 is a thread of process 6 that runs under
  the policy \<^verbatim>\<open>FIFO\<close> on two of the four processors; every value of its line differs
  from the one of \<^verbatim>\<open>init\<close>.
\<close>

definition stat_init :: proc_file where
  "stat_init = \<lparr>contents = ''1 (init) S 0 1 1 0 -1 4194560 '' @ [newline],
                 read_error = None, fclose_result = 0\<rparr>"

definition status_init :: proc_file where
  "status_init =
     \<lparr>contents = ''Name:'' @ [tab] @ ''init'' @ [newline]
               @ ''State:'' @ [tab] @ ''S (sleeping)'' @ [newline]
               @ ''Tgid:'' @ [tab] @ ''1'' @ [newline]
               @ ''Pid:'' @ [tab] @ ''1'' @ [newline]
               @ ''PPid:'' @ [tab] @ ''0'' @ [newline],
      read_error = None, fclose_result = 0\<rparr>"

definition os_init :: os where
  "os_init =
     \<lparr>fopen_pid_max = Stream \<lparr>fscanf_count = 1, fscanf_value = 2, pid_max_fclose = 0\<rparr>,
      sysconf_nprocessors_conf = 4,
      sched_getaffinity = (\<lambda>i. (0, None, {0, 1, 2, 3})),
      sched_getparam = (\<lambda>i. (0, None, \<lparr>sched_priority = 0\<rparr>)),
      sched_getscheduler = (\<lambda>i. (0, None)),
      readlink_exe = (\<lambda>i. if i = 1 then (9, None, ''/bin/init'') else (- 1, Some ENOENT, [])),
      getpriority = (\<lambda>i. (0, None)),
      fopen_stat = (\<lambda>i. if i = 1 then Stream stat_init else Null (Some ENOENT)),
      fopen_status = (\<lambda>i. if i = 1 then Stream status_init else Null (Some ENOENT))\<rparr>"

definition status_reused :: proc_file where
  "status_reused =
     \<lparr>contents = ''Name:'' @ [tab] @ ''sh'' @ [newline]
               @ ''Tgid:'' @ [tab] @ ''1'' @ [newline]
               @ ''Pid:'' @ [tab] @ ''1'' @ [newline]
               @ ''PPid:'' @ [tab] @ ''5'' @ [newline],
      read_error = None, fclose_result = 0\<rparr>"

definition os_exits :: os where
  "os_exits =
     os_init\<lparr>sched_getparam := (\<lambda>i. (- 1, Some ESRCH, \<lparr>sched_priority = 0\<rparr>)),
       sched_getscheduler := (\<lambda>i. (- 1, Some ESRCH)),
       readlink_exe := (\<lambda>i. (- 1, Some ENOENT, [])),
       getpriority := (\<lambda>i. (- 1, Some ESRCH)),
       fopen_stat := (\<lambda>i. Null (Some ENOENT)),
       fopen_status := (\<lambda>i. Null (Some ENOENT))\<rparr>"

definition os_exits_then_denied :: os where
  "os_exits_then_denied =
     os_init\<lparr>sched_getparam := (\<lambda>i. (- 1, Some ESRCH, \<lparr>sched_priority = 0\<rparr>)),
       readlink_exe := (\<lambda>i. (- 1, Some 13, []))\<rparr>"

definition os_reused :: os where
  "os_reused =
     os_init\<lparr>fopen_stat := (\<lambda>i. Null (Some ENOENT)),
       fopen_status := (\<lambda>i. Stream status_reused)\<rparr>"

definition os_mismatch :: os where
  "os_mismatch = os_init\<lparr>fopen_status := (\<lambda>i. Stream status_reused)\<rparr>"

definition os_stale_stat :: os where
  "os_stale_stat = os_init\<lparr>fopen_stat := (\<lambda>i. Stream stat_init)\<rparr>"

definition os_kthread :: os where
  "os_kthread = os_init\<lparr>readlink_exe := (\<lambda>i. (- 1, Some ENOENT, []))\<rparr>"

definition os_nice :: os where
  "os_nice = os_init\<lparr>getpriority := (\<lambda>i. (- 5, None))\<rparr>"

definition stat_zero :: proc_file where
  "stat_zero = \<lparr>contents = ''0 (idle) S 0 0 0 0 -1 '' @ [newline],
                 read_error = None, fclose_result = 0\<rparr>"

definition status_zero :: proc_file where
  "status_zero =
     \<lparr>contents = ''Name:'' @ [tab] @ ''idle'' @ [newline]
               @ ''Tgid:'' @ [tab] @ ''0'' @ [newline]
               @ ''Pid:'' @ [tab] @ ''0'' @ [newline]
               @ ''PPid:'' @ [tab] @ ''0'' @ [newline],
      read_error = None, fclose_result = 0\<rparr>"

definition os_zero :: os where
  "os_zero =
     os_init\<lparr>fopen_pid_max := Stream \<lparr>fscanf_count = 1, fscanf_value = 1, pid_max_fclose = 0\<rparr>,
       fopen_stat := (\<lambda>i. Stream stat_zero),
       fopen_status := (\<lambda>i. Stream status_zero)\<rparr>"

definition stat_top :: proc_file where
  "stat_top = \<lparr>contents = ''7 (top) R 3 2 2 34816 '' @ [newline],
                read_error = None, fclose_result = 0\<rparr>"

definition status_top :: proc_file where
  "status_top =
     \<lparr>contents = ''Name:'' @ [tab] @ ''top'' @ [newline]
               @ ''State:'' @ [tab] @ ''R (running)'' @ [newline]
               @ ''Tgid:'' @ [tab] @ ''6'' @ [newline]
               @ ''Pid:'' @ [tab] @ ''7'' @ [newline]
               @ ''PPid:'' @ [tab] @ ''3'' @ [newline],
      read_error = None, fclose_result = 0\<rparr>"

definition os_top :: os where
  "os_top =
     \<lparr>fopen_pid_max = Stream \<lparr>fscanf_count = 1, fscanf_value = 8, pid_max_fclose = 0\<rparr>,
      sysconf_nprocessors_conf = 4,
      sched_getaffinity = (\<lambda>i. (0, None, {0, 1})),
      sched_getparam = (\<lambda>i. (0, None, \<lparr>sched_priority = 10\<rparr>)),
      sched_getscheduler = (\<lambda>i. (1, None)),
      readlink_exe =
        (\<lambda>i. if i = 7 then (12, None, ''/usr/bin/top'') else (- 1, Some ENOENT, [])),
      getpriority = (\<lambda>i. (- 5, None)),
      fopen_stat = (\<lambda>i. if i = 7 then Stream stat_top else Null (Some ENOENT)),
      fopen_status = (\<lambda>i. if i = 7 then Stream status_top else Null (Some ENOENT))\<rparr>"

definition status_twice :: proc_file where
  "status_twice =
     \<lparr>contents = ''Name:'' @ [tab] @ ''init'' @ [newline]
               @ ''Pid:'' @ [tab] @ ''9'' @ [newline]
               @ ''Tgid:'' @ [tab] @ ''1'' @ [newline]
               @ ''Pid:'' @ [tab] @ ''1'' @ [newline]
               @ ''PPid:'' @ [tab] @ ''0'' @ [newline],
      read_error = None, fclose_result = 0\<rparr>"

definition os_twice :: os where
  "os_twice = os_init\<lparr>fopen_status := (\<lambda>i. Stream status_twice)\<rparr>"

definition os_wrap :: os where
  "os_wrap = os_init\<lparr>sysconf_nprocessors_conf := 65540\<rparr>"

definition os_comma :: os where
  "os_comma =
     os_init\<lparr>readlink_exe :=
       (\<lambda>i. if i = 1 then (8, None, ''/opt/a,b'') else (- 1, Some ENOENT, []))\<rparr>"

definition os_short_stat :: os where
  "os_short_stat =
     os_init\<lparr>fopen_stat := (\<lambda>i. Stream \<lparr>contents = ''7 (sh) S 1 '' @ [newline],
                                        read_error = None, fclose_result = 0\<rparr>)\<rparr>"

subsection \<open>A scan in which one identifier is alive\<close>

text \<open>
  \<open>quiet_gone os i\<close>: the system calls succeed for \<open>i\<close> (as they do for the identifier
  0, which they take to mean the caller) but there is no link and no record under that
  identifier. \<open>os_hundred\<close> is \<open>os_init\<close> with a maximum of 100.
\<close>

definition quiet_gone :: "os \<Rightarrow> int \<Rightarrow> bool" where
  "quiet_gone os i =
     (fst (sched_getaffinity os i) = 0 \<and> fst (sched_getparam os i) = 0
      \<and> fst (sched_getscheduler os i) = 0
      \<and> fst (readlink_exe os i) = - 1 \<and> fst (snd (readlink_exe os i)) = Some ENOENT
      \<and> snd (getpriority os i) = None
      \<and> fopen_stat os i = Null (Some ENOENT)
      \<and> fopen_status os i = Null (Some ENOENT))"

definition os_hundred :: os where
  "os_hundred =
     os_init\<lparr>fopen_pid_max := Stream \<lparr>fscanf_count = 1, fscanf_value = 100, pid_max_fclose = 0\<rparr>\<rparr>"

section \<open>Properties\<close>

subsection \<open>The whitespace-stripping helper\<close>

lemma strip_left_eq:
  "strip_left str = (if \<forall>c\<in>set str. is_blank c then None else Some (dropWhile is_blank str))"
  by (induction str) auto

lemma strip_right_snoc:
  "strip_right (str @ [c]) = (if is_blank c then strip_right str else Some (str @ [c]))"
  by (subst strip_right.simps) simp

lemma strip_right_Nil: "strip_right [] = None"
  by (subst strip_right.simps) simp

lemma strip_right_eq:
  "strip_right str =
     (if \<forall>c\<in>set str. is_blank c then None else Some (rev (dropWhile is_blank (rev str))))"
  by (induction str rule: rev_induct) (auto simp: strip_right_snoc strip_right_Nil)

lemma strip_eq:
  "strip str =
     (if \<forall>c\<in>set str. is_blank c then None
      else Some (rev (dropWhile is_blank (rev (dropWhile is_blank str)))))"
proof (cases "\<forall>c\<in>set str. is_blank c")
  case True
  then show ?thesis by (simp add: strip_def strip_left_eq)
next
  case False
  then have ne: "dropWhile is_blank str \<noteq> []"
    by (simp add: dropWhile_eq_Nil_conv)
  then have "\<not> is_blank (hd (dropWhile is_blank str))"
    by (rule hd_dropWhile)
  with hd_in_set [OF ne] have "\<not> (\<forall>c\<in>set (dropWhile is_blank str). is_blank c)"
    by blast
  with False show ?thesis
    by (simp add: strip_def strip_left_eq strip_right_eq)
qed

text \<open>
  C10. \<^verbatim>\<open>strip\<close> is only well defined on a string that has a character other than
  space, tab and newline. On such a string it returns (without reading out of bounds) the
  part between the leading and the trailing run of such characters: the string is
  \<open>l @ r @ t\<close> with \<open>l\<close> and \<open>t\<close> all blank and \<open>r\<close>, the result, starting and
  ending with a character that is not blank. On an empty or all-blank string the first
  loop runs off the end of the view: the precondition is violated.
\<close>

theorem strip_needs_visible_char:
  "((\<exists>c\<in>set str. \<not> is_blank c) \<longrightarrow>
      (\<exists>l r t. strip str = Some r \<and> str = l @ r @ t
         \<and> (\<forall>c\<in>set l. is_blank c) \<and> (\<forall>c\<in>set t. is_blank c)
         \<and> r \<noteq> [] \<and> \<not> is_blank (hd r) \<and> \<not> is_blank (last r)))
   \<and> ((\<forall>c\<in>set str. is_blank c) \<longrightarrow> strip str = None)"
proof (intro conjI impI)
  assume vis: "\<exists>c\<in>set str. \<not> is_blank c"
  define l where "l = takeWhile is_blank str"
  define m where "m = dropWhile is_blank str"
  define r where "r = rev (dropWhile is_blank (rev m))"
  define t where "t = rev (takeWhile is_blank (rev m))"
  from vis have m_ne: "m \<noteq> []"
    by (auto simp: m_def dropWhile_eq_Nil_conv)
  then have hd_m: "\<not> is_blank (hd m)"
    unfolding m_def by (rule hd_dropWhile)
  have "rev (r @ t) = rev m"
    by (simp add: r_def t_def)
  then have m_split: "m = r @ t"
    by (simp only: rev_is_rev_conv)
  from m_ne hd_m have "hd m \<in> set (rev m)" "\<not> is_blank (hd m)"
    by simp_all
  then have d_ne: "dropWhile is_blank (rev m) \<noteq> []"
    by (auto simp: dropWhile_eq_Nil_conv)
  then have r_ne: "r \<noteq> []"
    by (simp add: r_def)
  have last_r: "\<not> is_blank (last r)"
    using d_ne hd_dropWhile [of is_blank "rev m"] by (simp add: r_def last_rev)
  have hd_r: "\<not> is_blank (hd r)"
    using hd_m r_ne m_split by simp
  have "strip str = Some r"
    using vis by (simp add: strip_eq r_def m_def)
  moreover have "str = l @ r @ t"
  proof -
    have "str = l @ m"
      by (simp add: l_def m_def)
    then show ?thesis
      by (simp add: m_split)
  qed
  moreover have "\<forall>c\<in>set l. is_blank c"
    by (auto simp: l_def dest: set_takeWhileD)
  moreover have "\<forall>c\<in>set t. is_blank c"
    by (auto simp: t_def dest: set_takeWhileD)
  ultimately show "\<exists>l r t. strip str = Some r \<and> str = l @ r @ t
         \<and> (\<forall>c\<in>set l. is_blank c) \<and> (\<forall>c\<in>set t. is_blank c)
         \<and> r \<noteq> [] \<and> \<not> is_blank (hd r) \<and> \<not> is_blank (last r)"
    using r_ne hd_r last_r by blast
next
  assume "\<forall>c\<in>set str. is_blank c"
  then show "strip str = None"
    by (simp add: strip_eq)
qed

theorem strip_needs_visible_char_witness:
  "(\<exists>c\<in>set (''init'' @ [newline]). \<not> is_blank c) \<and> strip (''init'' @ [newline]) = Some ''init''
   \<and> is_blank tab \<and> is_blank newline \<and> strip [tab, newline] = None"
proof -
  have vis: "\<exists>c\<in>set (''init'' @ [newline]). \<not> is_blank c"
    by (simp add: is_blank_def tab_def newline_def)
  have b1: "is_blank tab" and b2: "is_blank newline"
    by (simp_all add: is_blank_def)
  have some: "strip (''init'' @ [newline]) = Some ''init''"
    by code_simp
  have "\<forall>c\<in>set [tab, newline]. is_blank c"
    using b1 b2 by simp
  with strip_needs_visible_char [of "[tab, newline]"] have none: "strip [tab, newline] = None"
    by blast
  from vis some b1 b2 none show ?thesis
    by (intro conjI)
qed

lemmas prog_defs =
  seq_def ok_def abort_def set_errno_def get_errno_def set_not_there_def get_not_there_def
  enter_def put_def CHECK_EQ_def PCHECK_def LOG_FATAL_def PLOG_FATAL_def

subsection \<open>Lines and their columns\<close>

lemma printf_header: "printf header [] = header"
  by (simp add: header_def)

lemma c_string_cpu_mask_string: "c_string (cpu_mask_string a b) = cpu_mask_string a b"
  by (simp add: c_string_def cpu_mask_string_def NUL_def)

lemma c_string_policy_string: "c_string (policy_string p) = policy_string p"
  by (simp add: c_string_def policy_string_def NUL_def)

lemma fields_nonempty: "comma_fields v \<noteq> []"
  by (cases v) (auto split: list.splits)

lemma fields_no_comma: "CHR '','' \<notin> set v \<Longrightarrow> comma_fields v = [v]"
  by (induction v) auto

lemma fields_append_comma: "comma_fields (v @ CHR '','' # w) = comma_fields v @ comma_fields w"
  by (induction v) (auto simp: fields_nonempty split: list.splits)

lemma length_fields: "length (comma_fields v) = Suc (count_list v (CHR '',''))"
  by (induction v) (auto simp: fields_nonempty split: list.splits)

lemma columns_row:
  "columns (join_commas [a, b, c, d, e, f, g, h, i, j] @ [newline]) =
     comma_fields a @ comma_fields b @ comma_fields c @ comma_fields d @ comma_fields e
       @ comma_fields f @ comma_fields g @ comma_fields h @ comma_fields i @ comma_fields j"
  by (simp only: columns_def butlast_snoc) (simp add: fields_append_comma)

lemma dec_nat_nonempty: "dec_nat n \<noteq> []"
  by (subst dec_nat.simps) simp

lemma last_dec_nat: "last (dec_nat n) = digit_char (n mod 10)"
  by (subst dec_nat.simps) simp

lemma digit_char_digit: "d < 10 \<Longrightarrow> digit_char d \<in> set ''0123456789''"
  unfolding digit_char_def by (rule nth_mem) simp

lemma last_dec: "dec n \<noteq> [] \<and> last (dec n) \<in> set ''0123456789''"
  using digit_char_digit [of "nat (- n) mod 10"] digit_char_digit [of "nat n mod 10"]
  by (simp add: dec_def dec_nat_nonempty last_dec_nat)

lemma dec_nat_digits: "set (dec_nat n) \<subseteq> set ''0123456789''"
proof (induction n rule: dec_nat.induct)
  case (1 n)
  show ?case
  proof (cases "n < 10")
    case True
    with digit_char_digit [of n] show ?thesis
      by (subst dec_nat.simps) simp
  next
    case False
    with "1.IH" digit_char_digit [of "n mod 10"] show ?thesis
      by (subst dec_nat.simps) simp
  qed
qed

lemma dec_no_comma: "CHR '','' \<notin> set (dec n)"
  using dec_nat_digits [of "nat n"] dec_nat_digits [of "nat (- n)"]
  by (auto simp: dec_def)

lemma fields_dec: "comma_fields (dec n) = [dec n]"
  by (rule fields_no_comma) (rule dec_no_comma)

lemma fields_cpu_mask_string: "comma_fields (cpu_mask_string a b) = [cpu_mask_string a b]"
  by (rule fields_no_comma) (simp add: cpu_mask_string_def)

lemma fields_policy_string: "comma_fields (policy_string p) = [policy_string p]"
  by (rule fields_no_comma) (simp add: policy_string_def)

lemma columns_header:
  "columns header =
     [''exe'', ''name'', ''cpumask'', ''policy'', ''nice'', ''priority'', ''tid'', ''pid'',
      ''ppid'', ''sid'', ''cpu'']"
  by (simp add: header_def columns_def)

lemma join_row_not_header:
  "join_commas [a, b, c, d, e, f, g, h, i, dec sid] @ [newline] \<noteq> header"
proof
  assume eq: "join_commas [a, b, c, d, e, f, g, h, i, dec sid] @ [newline] = header"
  define front where "front = join_commas [a, b, c, d, e, f, g, h, i] @ '',''"
  have "join_commas [a, b, c, d, e, f, g, h, i, dec sid] @ [newline]
          = (front @ dec sid) @ [newline]"
    by (simp add: front_def)
  with eq have "last (butlast ((front @ dec sid) @ [newline])) = last (butlast header)"
    by simp
  moreover have "last (butlast ((front @ dec sid) @ [newline])) = last (dec sid)"
  proof -
    have "dec sid \<noteq> []"
      using last_dec [of sid] by simp
    then have "last (front @ dec sid) = last (dec sid)"
      by (rule last_appendR)
    then show ?thesis
      by (simp only: butlast_snoc)
  qed
  moreover have "last (butlast header) = CHR ''u''"
    by (simp add: header_def)
  ultimately have "CHR ''u'' \<in> set ''0123456789''"
    using last_dec [of sid] by simp
  then show False
    by simp
qed

subsection \<open>The status record, label by label\<close>

lemma starts_with_nth: "starts_with line label \<Longrightarrow> n < length label \<Longrightarrow> line ! n = label ! n"
  unfolding starts_with_def by (metis nth_take)

lemma starts_with_Pid:
  assumes "starts_with line ''Pid:''"
  shows "\<not> starts_with line ''Name:''" and "\<not> starts_with line ''PPid:''"
    and "\<not> starts_with line ''Tgid:''"
  using starts_with_nth [OF assms, of 0] starts_with_nth [OF assms, of 1]
    starts_with_nth [of line "''Name:''" 0] starts_with_nth [of line "''PPid:''" 1]
    starts_with_nth [of line "''Tgid:''" 0]
  by auto

lemma starts_with_PPid:
  assumes "starts_with line ''PPid:''"
  shows "\<not> starts_with line ''Name:''" and "\<not> starts_with line ''Pid:''"
    and "\<not> starts_with line ''Tgid:''"
  using starts_with_nth [OF assms, of 0] starts_with_nth [OF assms, of 1]
    starts_with_nth [of line "''Name:''" 0] starts_with_nth [of line "''Pid:''" 1]
    starts_with_nth [of line "''Tgid:''" 0]
  by auto

lemma starts_with_Tgid:
  assumes "starts_with line ''Tgid:''"
  shows "\<not> starts_with line ''Name:''" and "\<not> starts_with line ''Pid:''"
    and "\<not> starts_with line ''PPid:''"
  using starts_with_nth [OF assms, of 0]
    starts_with_nth [of line "''Name:''" 0] starts_with_nth [of line "''Pid:''" 0]
    starts_with_nth [of line "''PPid:''" 0]
  by auto

lemma status_line_pid:
  assumes "status_line line v = Inr v'"
  shows "if starts_with line ''Pid:'' then stripped_int 5 line = Inr (status_pid v')
         else status_pid v' = status_pid v"
  using assms starts_with_Pid [of line]
  by (auto simp: status_line_def split: if_splits sum.splits)

lemma status_line_ppid:
  assumes "status_line line v = Inr v'"
  shows "if starts_with line ''PPid:'' then stripped_int 6 line = Inr (status_ppid v')
         else status_ppid v' = status_ppid v"
  using assms starts_with_PPid [of line]
  by (auto simp: status_line_def split: if_splits sum.splits)

lemma status_line_pgrp:
  assumes "status_line line v = Inr v'"
  shows "if starts_with line ''Tgid:'' then stripped_int 6 line = Inr (status_pgrp v')
         else status_pgrp v' = status_pgrp v"
  using assms starts_with_Tgid [of line]
  by (auto simp: status_line_def split: if_splits sum.splits)

lemma labelled_value_Nil: "labelled_value label absent [] = absent"
  by (simp add: labelled_value_def)

lemma labelled_value_Cons:
  "labelled_value label absent (line # lines) =
     labelled_value label
       (if starts_with line label then
          (case stripped_int (length label + 1) line of Inr k \<Rightarrow> k | Inl e \<Rightarrow> 0)
        else absent) lines"
  by (simp add: labelled_value_def split: list.splits)

lemma read_status_loop_value:
  assumes line: "\<And>line v v'. status_line line v = Inr v' \<Longrightarrow>
      (if starts_with line label then stripped_int n line = Inr (g v')
       else g v' = g v)"
    and n: "n = length label + 1"
    and loop: "read_status_loop status input v = Inr tv"
  shows "g tv = labelled_value label (g v) (status_lines input)"
  using loop
proof (induction status input v rule: read_status_loop.induct)
  case (1 status input v)
  show ?case
  proof (cases "input = []")
    case True
    with "1.prems" have "tv = v"
      by (simp add: read_status_loop.simps split: option.splits)
    with True show ?thesis
      by (simp add: status_lines.simps labelled_value_Nil)
  next
    case False
    from "1.prems" False obtain v' where
      v': "status_line (c_string (fst (fgets 1024 input))) v = Inr v'"
      and rest: "read_status_loop status (snd (fgets 1024 input)) v' = Inr tv"
      by (simp add: read_status_loop.simps [of status input] split: sum.splits)
    from "1.IH" [OF False v' rest]
    have "g tv = labelled_value label (g v') (status_lines (snd (fgets 1024 input)))" .
    moreover have "status_lines input =
        c_string (fst (fgets 1024 input)) # status_lines (snd (fgets 1024 input))"
      using False by (simp add: status_lines.simps [of input])
    ultimately show ?thesis
      using line [OF v'] n by (simp add: labelled_value_Cons split: if_splits)
  qed
qed

lemma parse_status_values:
  assumes "parse_status (pgrp, name) status = Inr tv"
  shows "status_pid tv = labelled_value ''Pid:'' 0 (status_lines (contents status))"
    and "status_ppid tv = labelled_value ''PPid:'' 0 (status_lines (contents status))"
    and "status_pgrp tv = labelled_value ''Tgid:'' pgrp (status_lines (contents status))"
  using read_status_loop_value [where g = status_pid and label = "''Pid:''" and n = 5,
      OF status_line_pid _ assms [unfolded parse_status_def]]
    read_status_loop_value [where g = status_ppid and label = "''PPid:''" and n = 6,
      OF status_line_ppid _ assms [unfolded parse_status_def]]
    read_status_loop_value [where g = status_pgrp and label = "''Tgid:''" and n = 6,
      OF status_line_pgrp _ assms [unfolded parse_status_def]]
  by simp_all

subsection \<open>One pass of the loop body\<close>

lemma step_find_cpu_mask: "step Find_cpu_mask i (affinity_ok os i) (find_cpu_mask os i)"
  by (auto simp: step_def find_cpu_mask_def affinity_ok_def prog_defs
      split: prod.splits option.splits sum.splits if_splits)

lemma step_find_sched_param: "step Find_sched_param i (param_ok os i) (find_sched_param os i)"
  by (auto simp: step_def find_sched_param_def param_ok_def prog_defs
      split: prod.splits option.splits sum.splits if_splits)

lemma step_find_scheduler: "step Find_scheduler i (scheduler_ok os i) (find_scheduler os i)"
  by (auto simp: step_def find_scheduler_def scheduler_ok_def prog_defs
      split: prod.splits option.splits sum.splits if_splits)

lemma step_find_exe: "step Find_exe i (exe_ok os i) (find_exe os i)"
  by (auto simp: step_def find_exe_def exe_ok_def prog_defs
      split: prod.splits option.splits sum.splits if_splits)

lemma step_find_nice_value: "step Find_nice_value i (nice_ok os i) (find_nice_value os i)"
  by (auto simp: step_def find_nice_value_def nice_ok_def prog_defs ESRCH_def
      split: prod.splits option.splits sum.splits if_splits)

lemma step_read_stat:
  "step Read_stat i (\<lambda>a. \<exists>v. stat_ok os i v \<and> a = (stat_ppid v, stat_sid v))
     (read_stat os i (0, 0))"
  by (auto simp: step_def read_stat_def stat_ok_def prog_defs
      split: prod.splits option.splits sum.splits if_splits fopen_result.splits)

lemma step_read_status:
  "step Read_status i (\<lambda>a. \<exists>v. status_ok os i ppid v \<and> a = (status_pgrp v, status_name v))
     (read_status os i ppid (0, []))"
  by (auto simp: step_def read_status_def status_ok_def prog_defs
      split: prod.splits option.splits sum.splits if_splits fopen_result.splits)

lemma body_ok_seq:
  assumes m: "step rd i good m"
    and f: "\<And>a. body_ok i rds (row a) (f a)"
  shows "body_ok i (rd # rds) (\<lambda>l. \<exists>a. good a \<and> row a l) (seq m f)"
  unfolding body_ok_def
proof (intro allI)
  fix s
  obtain r1 s1 where ms: "m s = (r1, s1)"
    by (cases "m s")
  note m_s = spec [OF m [unfolded step_def], of s]
  from m_s ms have out1: "stdout s1 = stdout s" and tr1: "trace s1 = trace s @ [(rd, i)]"
    by simp_all
  show "case seq m f s of (r, s') \<Rightarrow>
          (case r of
             Inl e \<Rightarrow> stdout s' = stdout s
               \<and> (\<exists>k<length (rd # rds). trace s' = trace s @ calls (take (Suc k) (rd # rds)) i)
           | Inr u \<Rightarrow> trace s' = trace s @ calls (rd # rds) i
               \<and> (stdout s' = stdout s
                  \<or> (\<not> not_there s \<and> (\<exists>l. (\<exists>a. good a \<and> row a l) \<and> stdout s' = stdout s @ [l]))))"
  proof (cases r1)
    case (Inl e)
    with ms out1 tr1 show ?thesis
      by (auto simp: seq_def calls_def)
  next
    case (Inr a)
    from m_s ms Inr have mono: "not_there s \<longrightarrow> not_there s1"
      and good: "\<not> not_there s1 \<longrightarrow> good a"
      by simp_all
    obtain r s' where fs: "f a s1 = (r, s')"
      by (cases "f a s1")
    have seq: "seq m f s = (r, s')"
      using ms Inr fs by (simp add: seq_def)
    show ?thesis
    proof (cases r)
      case (Inl e)
      with spec [OF f [of a, unfolded body_ok_def], of s1] fs
      obtain k where "k < length rds" "stdout s' = stdout s1"
        "trace s' = trace s1 @ calls (take (Suc k) rds) i"
        by auto
      then have "Suc k < length (rd # rds)"
        "trace s' = trace s @ calls (take (Suc (Suc k)) (rd # rds)) i" "stdout s' = stdout s"
        using out1 tr1 by (simp_all add: calls_def)
      then show ?thesis
        using seq Inl by auto
    next
      case (Inr u)
      with spec [OF f [of a, unfolded body_ok_def], of s1] fs
      have tr: "trace s' = trace s1 @ calls rds i"
        and out: "stdout s' = stdout s1
                  \<or> (\<not> not_there s1 \<and> (\<exists>l. row a l \<and> stdout s' = stdout s1 @ [l]))"
        by simp_all
      from tr tr1 have "trace s' = trace s @ calls (rd # rds) i"
        by (simp add: calls_def)
      moreover from out out1 mono good
      have "stdout s' = stdout s
            \<or> (\<not> not_there s \<and> (\<exists>l. (\<exists>a. good a \<and> row a l) \<and> stdout s' = stdout s @ [l]))"
        by auto
      ultimately show ?thesis
        using seq Inr by simp
    qed
  qed
qed

lemma body_ok_print:
  "body_ok i [] (\<lambda>l. l = str)
     (seq get_not_there (\<lambda>gone. if gone then ok () else put str))"
  by (simp add: body_ok_def prog_defs calls_def)

lemma body_ok_weaken:
  assumes "body_ok i rds row m" and "\<And>l. row l \<Longrightarrow> row' l"
  shows "body_ok i rds row' m"
  unfolding body_ok_def
proof
  fix s
  from spec [OF assms(1) [unfolded body_ok_def], of s] assms(2)
  show "case m s of (r, s') \<Rightarrow>
          (case r of
             Inl e \<Rightarrow> stdout s' = stdout s
               \<and> (\<exists>k<length rds. trace s' = trace s @ calls (take (Suc k) rds) i)
           | Inr u \<Rightarrow> trace s' = trace s @ calls rds i
               \<and> (stdout s' = stdout s
                  \<or> (\<not> not_there s \<and> (\<exists>l. row' l \<and> stdout s' = stdout s @ [l]))))"
    by (auto split: prod.splits sum.splits)
qed

lemma reset_then:
  assumes "body_ok i rds row (f ())"
    and "seq (set_not_there False) f s = (r, s')"
  shows "case r of
           Inl e \<Rightarrow> stdout s' = stdout s
             \<and> (\<exists>k<length rds. trace s' = trace s @ calls (take (Suc k) rds) i)
         | Inr u \<Rightarrow> trace s' = trace s @ calls rds i
             \<and> (stdout s' = stdout s \<or> (\<exists>l. row l \<and> stdout s' = stdout s @ [l]))"
  using spec [OF assms(1) [unfolded body_ok_def], of "s\<lparr>not_there := False\<rparr>"] assms(2)
  by (auto simp: seq_def set_not_there_def split: sum.splits)

lemma main_loop_body_outcome:
  assumes "main_loop_body os all_cpus i s = (r, s')"
  shows "case r of
           Inl e \<Rightarrow> stdout s' = stdout s
             \<and> (\<exists>k<length all_readers. trace s' = trace s @ calls (take (Suc k) all_readers) i)
         | Inr u \<Rightarrow> trace s' = trace s @ calls all_readers i
             \<and> (stdout s' = stdout s
                \<or> (\<exists>l. live_row os all_cpus i l \<and> stdout s' = stdout s @ [l]))"
proof (rule reset_then
    [OF _ assms [unfolded main_loop_body_def split_def, folded row_line_def]])
  show "body_ok i all_readers (live_row os all_cpus i)
     (seq (find_cpu_mask os i) (\<lambda>cpu_mask.
      seq (find_sched_param os i) (\<lambda>param.
      seq (find_scheduler os i) (\<lambda>scheduler.
      seq (find_exe os i) (\<lambda>exe.
      seq (find_nice_value os i) (\<lambda>nice_value.
      seq (read_stat os i (0, 0)) (\<lambda>p.
      seq (read_status os i (fst p) (0, [])) (\<lambda>q.
      seq get_not_there (\<lambda>gone.
      if gone then ok ()
      else put (row_line exe (snd q) (cpu_mask_string cpu_mask all_cpus)
                  (policy_string (word_of_int scheduler)) nice_value (sched_priority param)
                  i (fst q) (fst p) (snd p)))))))))))"
    unfolding all_readers_def
    apply (rule body_ok_weaken)
     apply (rule body_ok_seq [OF step_find_cpu_mask])
     apply (rule body_ok_seq [OF step_find_sched_param])
     apply (rule body_ok_seq [OF step_find_scheduler])
     apply (rule body_ok_seq [OF step_find_exe])
     apply (rule body_ok_seq [OF step_find_nice_value])
     apply (rule body_ok_seq [OF step_read_stat])
     apply (rule body_ok_seq [OF step_read_status])
     apply (rule body_ok_print)
    apply (clarsimp simp: live_row_def)
    apply (intro exI conjI; (assumption | rule refl))
    done
qed

lemma main_loop_body_live:
  assumes "affinity_ok os i cpu_mask" and "param_ok os i param"
    and "scheduler_ok os i scheduler"
    and "readlink_exe os i = (exe_size, e, exe_buffer)"
    and "if exe_size = - 1 then e = Some ENOENT \<and> exe = ''ENOENT''
         else 0 \<le> exe_size \<and> exe = take (nat exe_size) exe_buffer"
    and "nice_ok os i nice_value" and "stat_ok os i sv"
    and "status_ok os i (stat_ppid sv) tv"
  shows "main_loop_body os all_cpus i s =
     (Inr (),
      s\<lparr>errno := 0, not_there := False,
        stdout := stdout s @
          [row_line exe (status_name tv) (cpu_mask_string cpu_mask all_cpus)
             (policy_string (word_of_int scheduler)) nice_value (sched_priority param)
             i (status_pgrp tv) (stat_ppid sv) (stat_sid sv)],
        trace := trace s @ calls all_readers i\<rparr>)"
  using assms
  unfolding affinity_ok_def param_ok_def scheduler_ok_def nice_ok_def stat_ok_def status_ok_def
  by (auto simp: main_loop_body_def find_cpu_mask_def find_sched_param_def find_scheduler_def
      find_exe_def find_nice_value_def read_stat_def read_status_def prog_defs calls_def
      all_readers_def ESRCH_def ENOENT_def row_line_def split del: if_split split: if_split_asm)

subsection \<open>The whole scan\<close>

lemma upto_rec_last: "i < n \<Longrightarrow> [i..n - 1] = i # [i + 1..n - 1]"
  by (simp add: upto_rec1)

lemma main_loop_outcome:
  assumes "main_loop os all_cpus i pid_max s = (r, s')"
  shows "\<exists>js ls. stdout s' = stdout s @ ls \<and> list_all2 (live_row os all_cpus) js ls
           \<and> sorted_wrt (<) js \<and> (\<forall>j\<in>set js. i \<le> j \<and> j < pid_max)
           \<and> (r = Inr () \<longrightarrow>
                trace s' = trace s @ concat (map (calls all_readers) [i..pid_max - 1]))"
  using assms
proof (induction os all_cpus i pid_max s rule: main_loop.induct)
  case (1 os all_cpus i pid_max s)
  show ?case
  proof (cases "i < pid_max")
    case False
    with "1.prems" have "r = Inr ()" "s' = s"
      by (simp_all add: main_loop.simps)
    with False show ?thesis
      by simp
  next
    case True
    obtain r1 s1 where body: "main_loop_body os all_cpus i s = (r1, s1)"
      by (cases "main_loop_body os all_cpus i s")
    note out = main_loop_body_outcome [OF body]
    show ?thesis
    proof (cases r1)
      case (Inl e)
      with True body "1.prems" have "r = Inl e" "s' = s1"
        by (simp_all add: main_loop.simps)
      moreover from out Inl have "stdout s1 = stdout s"
        by simp
      ultimately show ?thesis
        by auto
    next
      case (Inr u)
      with True body "1.prems" have rest: "main_loop os all_cpus (i + 1) pid_max s1 = (r, s')"
        by (simp add: main_loop.simps)
      from "1.IH" [OF True body [symmetric] Inr rest]
      obtain js ls where ih: "stdout s' = stdout s1 @ ls" "list_all2 (live_row os all_cpus) js ls"
        "sorted_wrt (<) js" "\<forall>j\<in>set js. i + 1 \<le> j \<and> j < pid_max"
        "r = Inr () \<longrightarrow>
           trace s' = trace s1 @ concat (map (calls all_readers) [i + 1..pid_max - 1])"
        by blast
      from out Inr have tr1: "trace s1 = trace s @ calls all_readers i"
        and out1: "stdout s1 = stdout s
                   \<or> (\<exists>l. live_row os all_cpus i l \<and> stdout s1 = stdout s @ [l])"
        by simp_all
      from tr1 ih(5) True
      have tr: "r = Inr () \<longrightarrow>
                  trace s' = trace s @ concat (map (calls all_readers) [i..pid_max - 1])"
        by (simp add: upto_rec_last)
      from out1 show ?thesis
      proof
        assume "stdout s1 = stdout s"
        with ih tr have "stdout s' = stdout s @ ls \<and> list_all2 (live_row os all_cpus) js ls
           \<and> sorted_wrt (<) js \<and> (\<forall>j\<in>set js. i \<le> j \<and> j < pid_max)
           \<and> (r = Inr () \<longrightarrow>
                trace s' = trace s @ concat (map (calls all_readers) [i..pid_max - 1]))"
          by auto
        then show ?thesis
          by blast
      next
        assume "\<exists>l. live_row os all_cpus i l \<and> stdout s1 = stdout s @ [l]"
        then obtain l where l: "live_row os all_cpus i l" "stdout s1 = stdout s @ [l]"
          by blast
        with ih tr True have "stdout s' = stdout s @ (l # ls)
           \<and> list_all2 (live_row os all_cpus) (i # js) (l # ls)
           \<and> sorted_wrt (<) (i # js) \<and> (\<forall>j\<in>set (i # js). i \<le> j \<and> j < pid_max)
           \<and> (r = Inr () \<longrightarrow>
                trace s' = trace s @ concat (map (calls all_readers) [i..pid_max - 1]))"
          by auto
        then show ?thesis
          by blast
      qed
    qed
  qed
qed

lemma find_pid_max_quiet:
  assumes "find_pid_max os s = (r, s')"
  shows "s' = s \<and> (\<forall>pid_max. r = Inr pid_max \<longrightarrow>
           (\<exists>f. fopen_pid_max os = Stream f \<and> fscanf_count f = 1 \<and> pid_max = fscanf_value f))"
  using assms
  by (auto simp: find_pid_max_def prog_defs split: fopen_result.splits if_splits)

lemma find_all_cpus_loop_eq:
  "0 \<le> i \<Longrightarrow> find_all_cpus_loop i nproc r = r \<union> {nat i..<nat nproc}"
proof (induction i nproc r rule: find_all_cpus_loop.induct)
  case (1 i nproc r)
  show ?case
  proof (cases "i < nproc")
    case True
    with "1.prems" have "{nat i..<nat nproc} = insert (nat i) {nat (i + 1)..<nat nproc}"
      by (auto simp: nat_add_distrib)
    with True "1.IH" "1.prems" show ?thesis
      by (subst find_all_cpus_loop.simps) (simp add: CPU_SET_def)
  next
    case False
    then show ?thesis
      by (subst find_all_cpus_loop.simps) simp
  qed
qed

lemma int16_t_id: "- (2 ^ 15) \<le> n \<Longrightarrow> n < 2 ^ 15 \<Longrightarrow> int16_t n = n"
  by (simp add: int16_t_def sint_sbintrunc' signed_take_bit_int_eq_self)

lemma find_all_cpus_quiet:
  assumes "find_all_cpus os s = (r, s')"
  shows "s' = s"
  using assms by (auto simp: find_all_cpus_def Let_def prog_defs split: if_splits)

lemma find_all_cpus_range:
  assumes "find_all_cpus os s = (Inr all_cpus, s')"
    and "- (2 ^ 15) \<le> sysconf_nprocessors_conf os" and "sysconf_nprocessors_conf os < 2 ^ 15"
  shows "all_cpus = {0..<nat (sysconf_nprocessors_conf os)}"
  using assms
  by (auto simp: find_all_cpus_def Let_def prog_defs int16_t_id find_all_cpus_loop_eq CPU_ZERO_def
      split: if_splits)

lemma main_outcome:
  assumes "main os initial = (r, s')"
  shows "\<exists>ls. stdout s' = printf header [] # ls \<and>
     (ls = [] \<and> (\<exists>e. r = Inl e) \<and> trace s' = []
      \<or> (\<exists>f all_cpus js. fopen_pid_max os = Stream f \<and> fscanf_count f = 1
            \<and> find_all_cpus os initial = (Inr all_cpus, initial)
            \<and> list_all2 (live_row os all_cpus) js ls
            \<and> sorted_wrt (<) js \<and> (\<forall>j\<in>set js. 0 \<le> j \<and> j < fscanf_value f)
            \<and> (r = Inr () \<longrightarrow>
                 trace s' = concat (map (calls all_readers) [0..fscanf_value f - 1]))))"
proof -
  define s0 where "s0 = initial\<lparr>stdout := [printf header []]\<rparr>"
  have s0: "stdout s0 = [printf header []]" "trace s0 = []"
    by (simp_all add: s0_def initial_def)
  obtain r1 s1 where pm: "find_pid_max os s0 = (r1, s1)"
    by (cases "find_pid_max os s0")
  note pmq = find_pid_max_quiet [OF pm]
  show ?thesis
  proof (cases r1)
    case (Inl e)
    with assms pm pmq have "r = Inl e" "s' = s0"
      by (simp_all add: main_def seq_def put_def s0_def initial_def)
    with s0 show ?thesis
      by simp
  next
    case (Inr pid_max)
    with pmq obtain f where f: "fopen_pid_max os = Stream f" "fscanf_count f = 1"
      "pid_max = fscanf_value f" and s1: "s1 = s0"
      by blast
    obtain r2 s2 where ac: "find_all_cpus os s0 = (r2, s2)"
      by (cases "find_all_cpus os s0")
    then have s2: "s2 = s0"
      by (rule find_all_cpus_quiet)
    show ?thesis
    proof (cases r2)
      case (Inl e)
      with assms pm Inr s1 ac s2 have "r = Inl e" "s' = s0"
        by (simp_all add: main_def seq_def put_def s0_def initial_def)
      with s0 show ?thesis
        by simp
    next
      case inr: (Inr all_cpus)
      with assms pm Inr s1 ac s2 have loop: "main_loop os all_cpus 0 pid_max s0 = (r, s')"
        by (simp add: main_def seq_def put_def s0_def initial_def)
      from ac inr s2 have "find_all_cpus os initial = (Inr all_cpus, initial)"
        by (auto simp: find_all_cpus_def Let_def prog_defs split: if_splits)
      with main_loop_outcome [OF loop] s0 f show ?thesis
        by auto
    qed
  qed
qed

lemma find_all_cpus_set:
  assumes "find_all_cpus os s = (Inr all_cpus, s')"
  shows "all_cpus = {0..<nat (int16_t (sysconf_nprocessors_conf os))}"
  using assms
  by (auto simp: find_all_cpus_def Let_def prog_defs find_all_cpus_loop_eq CPU_ZERO_def
      split: if_splits)

lemma main_loop_fatal:
  assumes "main_loop os all_cpus i pid_max s = (Inl e, s')"
  shows "\<exists>k m. i \<le> k \<and> k < pid_max \<and> m < length all_readers
           \<and> trace s' = trace s @ concat (map (calls all_readers) [i..k - 1])
                          @ calls (take (Suc m) all_readers) k"
  using assms
proof (induction os all_cpus i pid_max s rule: main_loop.induct)
  case (1 os all_cpus i pid_max s)
  from "1.prems" have True: "i < pid_max"
    by (auto simp: main_loop.simps [of os all_cpus i] split: if_splits)
  obtain r1 s1 where body: "main_loop_body os all_cpus i s = (r1, s1)"
    by (cases "main_loop_body os all_cpus i s")
  note out = main_loop_body_outcome [OF body]
  show ?case
  proof (cases r1)
    case (Inl e1)
    with True body "1.prems" have "s' = s1"
      by (simp add: main_loop.simps [of os all_cpus i])
    with out Inl obtain m where "m < length all_readers"
      "trace s' = trace s @ calls (take (Suc m) all_readers) i"
      by auto
    with True have "i \<le> i \<and> i < pid_max \<and> m < length all_readers
           \<and> trace s' = trace s @ concat (map (calls all_readers) [i..i - 1])
                          @ calls (take (Suc m) all_readers) i"
      by simp
    then show ?thesis
      by blast
  next
    case (Inr u)
    with True body "1.prems" have rest: "main_loop os all_cpus (i + 1) pid_max s1 = (Inl e, s')"
      by (simp add: main_loop.simps [of os all_cpus i])
    from "1.IH" [OF True body [symmetric] Inr rest]
    obtain k m where k: "i + 1 \<le> k" "k < pid_max" "m < length all_readers"
      "trace s' = trace s1 @ concat (map (calls all_readers) [i + 1..k - 1])
                    @ calls (take (Suc m) all_readers) k"
      by blast
    from out Inr have "trace s1 = trace s @ calls all_readers i"
      by simp
    with k have "i \<le> k \<and> k < pid_max \<and> m < length all_readers
           \<and> trace s' = trace s @ concat (map (calls all_readers) [i..k - 1])
                          @ calls (take (Suc m) all_readers) k"
      by (simp add: upto_rec_last [of i k])
    then show ?thesis
      by blast
  qed
qed

lemma main_fatal:
  assumes "main os initial = (Inl e, s')"
  shows "trace s' = []
     \<or> (\<exists>f k m. fopen_pid_max os = Stream f \<and> 0 \<le> k \<and> k < fscanf_value f
           \<and> m < length all_readers
           \<and> trace s' = concat (map (calls all_readers) [0..k - 1])
                          @ calls (take (Suc m) all_readers) k)"
proof -
  define s0 where "s0 = initial\<lparr>stdout := [printf header []]\<rparr>"
  have s0: "trace s0 = []"
    by (simp add: s0_def initial_def)
  obtain r1 s1 where pm: "find_pid_max os s0 = (r1, s1)"
    by (cases "find_pid_max os s0")
  note pmq = find_pid_max_quiet [OF pm]
  show ?thesis
  proof (cases r1)
    case (Inl e1)
    with assms pm pmq have "s' = s0"
      by (simp add: main_def seq_def put_def s0_def initial_def)
    with s0 show ?thesis
      by simp
  next
    case (Inr pid_max)
    with pmq obtain f where f: "fopen_pid_max os = Stream f" "pid_max = fscanf_value f"
      and s1: "s1 = s0"
      by blast
    obtain r2 s2 where ac: "find_all_cpus os s0 = (r2, s2)"
      by (cases "find_all_cpus os s0")
    then have s2: "s2 = s0"
      by (rule find_all_cpus_quiet)
    show ?thesis
    proof (cases r2)
      case (Inl e2)
      with assms pm Inr s1 ac s2 have "s' = s0"
        by (simp add: main_def seq_def put_def s0_def initial_def)
      with s0 show ?thesis
        by simp
    next
      case inr: (Inr all_cpus)
      with assms pm Inr s1 ac s2 have loop: "main_loop os all_cpus 0 pid_max s0 = (Inl e, s')"
        by (simp add: main_def seq_def put_def s0_def initial_def)
      from main_loop_fatal [OF loop] s0 f show ?thesis
        by auto
    qed
  qed
qed

subsection \<open>Vanished identifiers\<close>

lemma live_row_not_gone:
  assumes "live_row os all_cpus i l"
  shows "\<not> reports_gone os i"
proof -
  from assms obtain cpu_mask param scheduler exe nice_value sv tv where
    a: "affinity_ok os i cpu_mask" and p: "param_ok os i param"
    and sc: "scheduler_ok os i scheduler" and ex: "exe_ok os i exe"
    and n: "nice_ok os i nice_value" and st: "stat_ok os i sv"
    and stu: "status_ok os i (stat_ppid sv) tv"
    unfolding live_row_def by blast
  from a have 1: "fst (sched_getaffinity os i) = 0"
    by (auto simp: affinity_ok_def)
  from p have 2: "fst (sched_getparam os i) = 0"
    by (auto simp: param_ok_def)
  from sc have 3: "fst (sched_getscheduler os i) \<noteq> - 1"
    by (auto simp: scheduler_ok_def)
  from ex have 4: "fst (readlink_exe os i) \<noteq> - 1 \<or> fst (snd (readlink_exe os i)) \<noteq> Some ESRCH"
    by (auto simp: exe_ok_def ESRCH_def ENOENT_def split: if_splits)
  from n have 5: "snd (getpriority os i) \<noteq> Some ESRCH"
    by (auto simp: nice_ok_def ESRCH_def)
  from st obtain stat where 6: "fopen_stat os i = Stream stat" "contents stat \<noteq> []"
    by (auto simp: stat_ok_def)
  from stu obtain status where 7: "fopen_status os i = Stream status"
    by (auto simp: status_ok_def)
  from 1 2 3 4 5 6 7 show ?thesis
    by (auto simp: reports_gone_def)
qed



text \<open>
  C2, as amended. A pass over an identifier that is not ended by a fatal termination enters
  all seven readers, once each and in the order of the source, whatever the flag says; a pass
  that is ended by one has entered the readers up to the one that ended it. Once an answer
  has reported the identifier gone, no line is printed, whatever the other readers return.
\<close>

theorem readers_always_invoked:
  assumes "main_loop_body os all_cpus i s = (r, s')"
  shows "(case r of
            Inr u \<Rightarrow> trace s' = trace s @ calls all_readers i
          | Inl e \<Rightarrow>
              (\<exists>k<length all_readers. trace s' = trace s @ calls (take (Suc k) all_readers) i))
     \<and> (reports_gone os i \<longrightarrow> stdout s' = stdout s)"
proof (cases r)
  case (Inl e)
  with main_loop_body_outcome [OF assms] show ?thesis
    by simp
next
  case (Inr u)
  with main_loop_body_outcome [OF assms] live_row_not_gone [of os all_cpus i] show ?thesis
    by auto
qed

text \<open>
  C6. \<^verbatim>\<open>find_nice_value\<close> sets \<open>errno\<close> to 0 right before \<^verbatim>\<open>getpriority\<close> and reads
  it right after, so the indicator it looks at is what the call stored, or 0 when the call
  stored nothing, whatever \<open>errno\<close> was before. With \<^verbatim>\<open>ESRCH\<close> the flag is set (and 0
  returned), with any other value that is not 0 the program ends, and with 0 the number
  that \<^verbatim>\<open>getpriority\<close> returned is the niceness, negative or not, and the flag is left
  as it was.
\<close>

theorem find_nice_value_errno:
  assumes "getpriority os process = (nice_value, e)"
    and "find_nice_value os process s = (r, s')"
    and "indicator = (case e of None \<Rightarrow> 0 | Some err \<Rightarrow> err)"
  shows "errno s' = indicator \<and> stdout s' = stdout s
     \<and> (indicator = ESRCH \<longrightarrow> r = Inr 0 \<and> not_there s')
     \<and> (indicator \<noteq> ESRCH \<and> indicator \<noteq> 0 \<longrightarrow> r = Inl Exit_fatal)
     \<and> (indicator = 0 \<longrightarrow> r = Inr nice_value \<and> not_there s' = not_there s)"
  using assms
  by (auto simp: find_nice_value_def prog_defs ESRCH_def split: option.splits if_splits)

subsection \<open>Cross-checks between the records\<close>

lemma yields_seq:
  assumes "yields m Q" and "\<And>a. Q a \<Longrightarrow> yields (f a) R"
  shows "yields (seq m f) R"
  unfolding yields_def
proof
  fix s
  obtain r1 s1 where ms: "m s = (r1, s1)"
    by (cases "m s")
  show "case fst (seq m f s) of Inl e \<Rightarrow> fatal e | Inr a \<Rightarrow> R a"
  proof (cases r1)
    case (Inl e)
    with spec [OF assms(1) [unfolded yields_def], of s] ms show ?thesis
      by (simp add: seq_def)
  next
    case (Inr a)
    with spec [OF assms(1) [unfolded yields_def], of s] ms have "Q a"
      by simp
    from spec [OF assms(2) [OF this, unfolded yields_def], of s1] ms Inr show ?thesis
      by (simp add: seq_def)
  qed
qed

lemma yields_weaken: "yields m Q \<Longrightarrow> (\<And>a. Q a \<Longrightarrow> R a) \<Longrightarrow> yields m R"
  by (auto simp: yields_def split: sum.splits)

lemma yields_find_cpu_mask: "yields (find_cpu_mask os i) (\<lambda>a. True)"
  by (auto simp: yields_def fatal_def find_cpu_mask_def prog_defs split: prod.splits sum.splits)

lemma yields_find_sched_param: "yields (find_sched_param os i) (\<lambda>a. True)"
  by (auto simp: yields_def fatal_def find_sched_param_def prog_defs split: prod.splits sum.splits)

lemma yields_find_scheduler: "yields (find_scheduler os i) (\<lambda>a. True)"
  by (auto simp: yields_def fatal_def find_scheduler_def prog_defs split: prod.splits sum.splits)

lemma yields_find_exe: "yields (find_exe os i) (\<lambda>a. True)"
  by (auto simp: yields_def fatal_def find_exe_def prog_defs split: prod.splits sum.splits)

lemma yields_find_nice_value: "yields (find_nice_value os i) (\<lambda>a. True)"
  by (auto simp: yields_def fatal_def find_nice_value_def prog_defs split: prod.splits sum.splits)

lemma yields_read_stat:
  assumes "fopen_stat os i = Stream stat" and "contents stat \<noteq> []"
    and "parse_stat (0, 0) (c_string (fst (fgets 2048 (contents stat)))) = Inr sv"
  shows "yields (read_stat os i (0, 0)) (\<lambda>a. stat_pid sv = i \<and> a = (stat_ppid sv, stat_sid sv))"
  using assms
  by (auto simp: yields_def fatal_def read_stat_def prog_defs split: sum.splits)

lemma yields_read_status:
  assumes "fopen_status os i = Stream status"
    and "parse_status (0, []) status = Inr tv"
  shows "yields (read_status os i ppid (0, [])) (\<lambda>a. status_pid tv = i \<and> status_ppid tv = ppid)"
  using assms
  by (auto simp: yields_def fatal_def read_status_def prog_defs split: sum.splits)

lemma yields_print:
  "yields (seq get_not_there (\<lambda>gone. if gone then ok () else put str)) (\<lambda>a. True)"
  by (simp add: yields_def prog_defs)

lemma main_loop_body_checks:
  assumes "fopen_stat os i = Stream stat" and "contents stat \<noteq> []"
    and "parse_stat (0, 0) (c_string (fst (fgets 2048 (contents stat)))) = Inr sv"
    and "fopen_status os i = Stream status"
    and "parse_status (0, []) status = Inr tv"
  shows "yields (main_loop_body os all_cpus i)
           (\<lambda>a. stat_pid sv = i \<and> status_pid tv = i \<and> status_ppid tv = stat_ppid sv)"
  unfolding main_loop_body_def split_def
  apply (rule yields_seq [where Q = "\<lambda>a. True"])
   apply (simp add: yields_def set_not_there_def)
  apply (rule yields_seq [OF yields_find_cpu_mask])
  apply (rule yields_seq [OF yields_find_sched_param])
  apply (rule yields_seq [OF yields_find_scheduler])
  apply (rule yields_seq [OF yields_find_exe])
  apply (rule yields_seq [OF yields_find_nice_value])
  apply (rule yields_seq [OF yields_read_stat [OF assms(1,2,3)]])
  apply (rule yields_seq [OF yields_read_status [OF assms(4,5)]])
  apply (rule yields_weaken [OF yields_print])
  apply simp
  done

lemma main_loop_body_stat_check:
  assumes "fopen_stat os i = Stream stat" and "contents stat \<noteq> []"
    and "parse_stat (0, 0) (c_string (fst (fgets 2048 (contents stat)))) = Inr sv"
    and "stat_pid sv \<noteq> i"
  shows "yields (main_loop_body os all_cpus i) (\<lambda>a. False)"
  unfolding main_loop_body_def split_def
  apply (rule yields_seq [where Q = "\<lambda>a. True"])
   apply (simp add: yields_def set_not_there_def)
  apply (rule yields_seq [OF yields_find_cpu_mask])
  apply (rule yields_seq [OF yields_find_sched_param])
  apply (rule yields_seq [OF yields_find_scheduler])
  apply (rule yields_seq [OF yields_find_exe])
  apply (rule yields_seq [OF yields_find_nice_value])
  apply (rule yields_seq [OF yields_read_stat [OF assms(1,2,3)]])
  apply (simp add: assms(4))
  done

text \<open>
  C3. When a line is printed for the identifier \<open>i\<close>, both records were read and parsed,
  the identifier parsed from the stat record and the \<^verbatim>\<open>Pid\<close> of the status record both
  equal \<open>i\<close>, and the \<^verbatim>\<open>PPid\<close> of the status record equals the parent id of the stat
  record. The line is the ten values that the kernel answered for \<open>i\<close>, joined by commas,
  and a newline; cut at its commas, it ends with the mask label, the policy, the niceness,
  the priority, then \<open>i\<close> (the column \<^verbatim>\<open>tid\<close> of the header), the \<^verbatim>\<open>Tgid\<close> of the
  status record (\<^verbatim>\<open>pid\<close>), that parent id (\<^verbatim>\<open>ppid\<close>) and the session id
  (\<^verbatim>\<open>sid\<close>), all numbers in decimal; before these come the columns of the executable
  path and of the name, one each unless the text holds a comma.

  When the stat record is read and parsed and its identifier is not \<open>i\<close>, or both records
  are read and parsed and the \<^verbatim>\<open>Pid\<close> of the status record is not \<open>i\<close> or its
  \<^verbatim>\<open>PPid\<close> is not the parent id of the stat record, the pass ends in a fatal
  termination (an exit or an uncaught exception) and prints nothing: it is not a skipped
  identifier.

  The \<^verbatim>\<open>Pid\<close>, \<^verbatim>\<open>PPid\<close> and \<^verbatim>\<open>Tgid\<close> of a status record that was parsed are
  the numbers on the last line of the record that begins with \<^verbatim>\<open>Pid:\<close>,
  \<^verbatim>\<open>PPid:\<close> and \<^verbatim>\<open>Tgid:\<close>, and 0 for a label with which no line begins.
\<close>

theorem row_ids_consistent:
  assumes "main_loop_body os all_cpus i s = (r, s')"
  shows "(stdout s' \<noteq> stdout s \<longrightarrow>
           (\<exists>stat sv status tv cpu_mask param scheduler exe nice_value.
              fopen_stat os i = Stream stat
              \<and> parse_stat (0, 0) (c_string (fst (fgets 2048 (contents stat)))) = Inr sv
              \<and> fopen_status os i = Stream status
              \<and> parse_status (0, []) status = Inr tv
              \<and> stat_pid sv = i \<and> status_pid tv = i \<and> status_ppid tv = stat_ppid sv
              \<and> affinity_ok os i cpu_mask \<and> param_ok os i param
              \<and> scheduler_ok os i scheduler \<and> exe_ok os i exe
              \<and> nice_ok os i nice_value
              \<and> stdout s' = stdout s @
                   [join_commas
                     [c_string exe, c_string (status_name tv), cpu_mask_string cpu_mask all_cpus,
                        policy_string (word_of_int scheduler), dec nice_value, dec (sched_priority param),
                        dec i, dec (status_pgrp tv), dec (stat_ppid sv), dec (stat_sid sv)] @ [newline]]
              \<and> columns (last (stdout s')) =
                   comma_fields (c_string exe) @ comma_fields (c_string (status_name tv))
                   @ [cpu_mask_string cpu_mask all_cpus, policy_string (word_of_int scheduler),
                      dec nice_value, dec (sched_priority param), dec i, dec (status_pgrp tv),
                      dec (stat_ppid sv), dec (stat_sid sv)]))
     \<and> (\<forall>stat sv.
           fopen_stat os i = Stream stat \<and> contents stat \<noteq> []
           \<and> parse_stat (0, 0) (c_string (fst (fgets 2048 (contents stat)))) = Inr sv
           \<and> stat_pid sv \<noteq> i
           \<longrightarrow> (\<exists>e. r = Inl e \<and> fatal e) \<and> stdout s' = stdout s)
     \<and> (\<forall>stat sv status tv.
           fopen_stat os i = Stream stat \<and> contents stat \<noteq> []
           \<and> parse_stat (0, 0) (c_string (fst (fgets 2048 (contents stat)))) = Inr sv
           \<and> fopen_status os i = Stream status
           \<and> parse_status (0, []) status = Inr tv
           \<and> (status_pid tv \<noteq> i \<or> status_ppid tv \<noteq> stat_ppid sv)
           \<longrightarrow> (\<exists>e. r = Inl e \<and> fatal e) \<and> stdout s' = stdout s)
     \<and> (\<forall>status tv.
           fopen_status os i = Stream status \<and> parse_status (0, []) status = Inr tv
           \<longrightarrow> status_pid tv = labelled_value ''Pid:'' 0 (status_lines (contents status))
               \<and> status_ppid tv = labelled_value ''PPid:'' 0 (status_lines (contents status))
               \<and> status_pgrp tv = labelled_value ''Tgid:'' 0 (status_lines (contents status)))"
proof (intro conjI allI impI)
  assume "stdout s' \<noteq> stdout s"
  with main_loop_body_outcome [OF assms] obtain l where
    l: "live_row os all_cpus i l" "stdout s' = stdout s @ [l]"
    by (cases r) auto
  from l(1)
  obtain cpu_mask and param :: sched_param and scheduler exe nice_value
    and sv :: stat_vars and tv :: status_vars where
    a: "affinity_ok os i cpu_mask"
    and ok: "param_ok os i param" "scheduler_ok os i scheduler" "exe_ok os i exe"
      "nice_ok os i nice_value"
    and st: "stat_ok os i sv" and stu: "status_ok os i (stat_ppid sv) tv"
    and printed: "l = row_line exe (status_name tv) (cpu_mask_string cpu_mask all_cpus)
                (policy_string (word_of_int scheduler)) nice_value (sched_priority param)
                i (status_pgrp tv) (stat_ppid sv) (stat_sid sv)"
    unfolding live_row_def by blast
  have line: "l = join_commas
                [c_string exe, c_string (status_name tv), cpu_mask_string cpu_mask all_cpus,
                   policy_string (word_of_int scheduler), dec nice_value, dec (sched_priority param),
                   dec i, dec (status_pgrp tv), dec (stat_ppid sv), dec (stat_sid sv)] @ [newline]"
    unfolding printed
    by (simp add: row_line_def row_format_def c_string_cpu_mask_string c_string_policy_string)
  have cols: "columns l =
                comma_fields (c_string exe) @ comma_fields (c_string (status_name tv))
                @ [cpu_mask_string cpu_mask all_cpus, policy_string (word_of_int scheduler),
                   dec nice_value, dec (sched_priority param), dec i, dec (status_pgrp tv),
                   dec (stat_ppid sv), dec (stat_sid sv)]"
    unfolding line
    by (simp only: columns_row fields_dec fields_cpu_mask_string fields_policy_string
        append.simps)
  from st obtain stat where stat: "fopen_stat os i = Stream stat"
    "parse_stat (0, 0) (c_string (fst (fgets 2048 (contents stat)))) = Inr sv" "stat_pid sv = i"
    unfolding stat_ok_def by blast
  from stu obtain status where status: "fopen_status os i = Stream status"
    "parse_status (0, []) status = Inr tv" "status_pid tv = i" "status_ppid tv = stat_ppid sv"
    unfolding status_ok_def by blast
  from l(2) have out: "stdout s' = stdout s @
              [join_commas
                [c_string exe, c_string (status_name tv), cpu_mask_string cpu_mask all_cpus,
                   policy_string (word_of_int scheduler), dec nice_value, dec (sched_priority param),
                   dec i, dec (status_pgrp tv), dec (stat_ppid sv), dec (stat_sid sv)] @ [newline]]"
    unfolding line .
  from l(2) have "last (stdout s') = l"
    by simp
  with cols have cols': "columns (last (stdout s')) =
              comma_fields (c_string exe) @ comma_fields (c_string (status_name tv))
              @ [cpu_mask_string cpu_mask all_cpus, policy_string (word_of_int scheduler),
                 dec nice_value, dec (sched_priority param), dec i, dec (status_pgrp tv),
                 dec (stat_ppid sv), dec (stat_sid sv)]"
    by (simp only:)
  from stat status a ok out cols'
  have "fopen_stat os i = Stream stat
        \<and> parse_stat (0, 0) (c_string (fst (fgets 2048 (contents stat)))) = Inr sv
        \<and> fopen_status os i = Stream status
        \<and> parse_status (0, []) status = Inr tv
        \<and> stat_pid sv = i \<and> status_pid tv = i \<and> status_ppid tv = stat_ppid sv
        \<and> affinity_ok os i cpu_mask \<and> param_ok os i param
        \<and> scheduler_ok os i scheduler \<and> exe_ok os i exe
        \<and> nice_ok os i nice_value
        \<and> stdout s' = stdout s @
             [join_commas
               [c_string exe, c_string (status_name tv), cpu_mask_string cpu_mask all_cpus,
                  policy_string (word_of_int scheduler), dec nice_value, dec (sched_priority param),
                  dec i, dec (status_pgrp tv), dec (stat_ppid sv), dec (stat_sid sv)] @ [newline]]
        \<and> columns (last (stdout s')) =
             comma_fields (c_string exe) @ comma_fields (c_string (status_name tv))
             @ [cpu_mask_string cpu_mask all_cpus, policy_string (word_of_int scheduler),
                dec nice_value, dec (sched_priority param), dec i, dec (status_pgrp tv),
                dec (stat_ppid sv), dec (stat_sid sv)]"
    by (intro conjI)
  then show "(\<exists>stat sv status tv cpu_mask param scheduler exe nice_value.
              fopen_stat os i = Stream stat
              \<and> parse_stat (0, 0) (c_string (fst (fgets 2048 (contents stat)))) = Inr sv
              \<and> fopen_status os i = Stream status
              \<and> parse_status (0, []) status = Inr tv
              \<and> stat_pid sv = i \<and> status_pid tv = i \<and> status_ppid tv = stat_ppid sv
              \<and> affinity_ok os i cpu_mask \<and> param_ok os i param
              \<and> scheduler_ok os i scheduler \<and> exe_ok os i exe
              \<and> nice_ok os i nice_value
              \<and> stdout s' = stdout s @
                   [join_commas
                     [c_string exe, c_string (status_name tv), cpu_mask_string cpu_mask all_cpus,
                        policy_string (word_of_int scheduler), dec nice_value, dec (sched_priority param),
                        dec i, dec (status_pgrp tv), dec (stat_ppid sv), dec (stat_sid sv)] @ [newline]]
              \<and> columns (last (stdout s')) =
                   comma_fields (c_string exe) @ comma_fields (c_string (status_name tv))
                   @ [cpu_mask_string cpu_mask all_cpus, policy_string (word_of_int scheduler),
                      dec nice_value, dec (sched_priority param), dec i, dec (status_pgrp tv),
                      dec (stat_ppid sv), dec (stat_sid sv)])"
    by (intro exI)
next
  fix stat sv
  assume "fopen_stat os i = Stream stat \<and> contents stat \<noteq> []
           \<and> parse_stat (0, 0) (c_string (fst (fgets 2048 (contents stat)))) = Inr sv
           \<and> stat_pid sv \<noteq> i"
  then have a1: "fopen_stat os i = Stream stat" and a2: "contents stat \<noteq> []"
    and a3: "parse_stat (0, 0) (c_string (fst (fgets 2048 (contents stat)))) = Inr sv"
    and a4: "stat_pid sv \<noteq> i"
    by blast+
  from spec [OF main_loop_body_stat_check [OF a1 a2 a3 a4, unfolded yields_def], of all_cpus s]
    assms
  have "\<exists>e. r = Inl e \<and> fatal e"
    by (cases r) auto
  moreover with main_loop_body_outcome [OF assms] have "stdout s' = stdout s"
    by auto
  ultimately show "\<exists>e. r = Inl e \<and> fatal e" and "stdout s' = stdout s"
    by simp_all
next
  fix stat sv status tv
  assume "fopen_stat os i = Stream stat \<and> contents stat \<noteq> []
           \<and> parse_stat (0, 0) (c_string (fst (fgets 2048 (contents stat)))) = Inr sv
           \<and> fopen_status os i = Stream status
           \<and> parse_status (0, []) status = Inr tv
           \<and> (status_pid tv \<noteq> i \<or> status_ppid tv \<noteq> stat_ppid sv)"
  then have a1: "fopen_stat os i = Stream stat" and a2: "contents stat \<noteq> []"
    and a3: "parse_stat (0, 0) (c_string (fst (fgets 2048 (contents stat)))) = Inr sv"
    and a4: "fopen_status os i = Stream status"
    and a5: "parse_status (0, []) status = Inr tv"
    and a6: "status_pid tv \<noteq> i \<or> status_ppid tv \<noteq> stat_ppid sv"
    by blast+
  from spec [OF main_loop_body_checks [OF a1 a2 a3 a4 a5, unfolded yields_def], of all_cpus s]
    assms a6
  have "\<exists>e. r = Inl e \<and> fatal e"
    by (cases r) auto
  moreover with main_loop_body_outcome [OF assms] have "stdout s' = stdout s"
    by auto
  ultimately show "\<exists>e. r = Inl e \<and> fatal e" and "stdout s' = stdout s"
    by simp_all
next
  fix status tv
  assume "fopen_status os i = Stream status \<and> parse_status (0, []) status = Inr tv"
  then have parsed: "parse_status (0, []) status = Inr tv"
    by simp
  show "status_pid tv = labelled_value ''Pid:'' 0 (status_lines (contents status))"
    and "status_ppid tv = labelled_value ''PPid:'' 0 (status_lines (contents status))"
    and "status_pgrp tv = labelled_value ''Tgid:'' 0 (status_lines (contents status))"
    by (rule parse_status_values [OF parsed])+
qed

subsection \<open>The executable reader, the CPU mask label, the scan range and the output format\<close>

lemma list_all2_right:
  assumes "list_all2 P xs ys" and "y \<in> set ys"
  shows "\<exists>x\<in>set xs. P x y"
  using assms by (induction rule: list_all2_induct) auto

lemma list_all2_weaken:
  assumes "list_all2 P xs ys" and "\<And>x y. P x y \<Longrightarrow> Q x y"
  shows "list_all2 Q xs ys"
  using assms by (induction rule: list_all2_induct) auto

text \<open>
  C7. When \<^verbatim>\<open>readlink\<close> fails (returns -1 and stores \<open>err\<close> in \<open>errno\<close>),
  \<^verbatim>\<open>find_exe\<close> does one of three things: for \<^verbatim>\<open>ENOENT\<close> it returns the text
  \<^verbatim>\<open>ENOENT\<close> and leaves the flag alone; for \<^verbatim>\<open>ESRCH\<close> it sets the flag and returns
  the empty string; for anything else it ends the program. In the first case, when the
  other six readers succeed, the pass prints a line whose first column is \<^verbatim>\<open>ENOENT\<close>.
\<close>

theorem find_exe_outcomes:
  assumes "readlink_exe os i = (- 1, Some err, exe_buffer)"
  shows "find_exe os i s =
           (if err = ENOENT then
              (Inr ''ENOENT'', s\<lparr>errno := err, trace := trace s @ [(Find_exe, i)]\<rparr>)
            else if err = ESRCH then
              (Inr [], s\<lparr>errno := err, not_there := True, trace := trace s @ [(Find_exe, i)]\<rparr>)
            else (Inl Exit_fatal, s\<lparr>errno := err, trace := trace s @ [(Find_exe, i)]\<rparr>))
     \<and> (err = ENOENT \<and> affinity_ok os i cpu_mask \<and> param_ok os i param
          \<and> scheduler_ok os i scheduler \<and> nice_ok os i nice_value \<and> stat_ok os i sv
          \<and> status_ok os i (stat_ppid sv) tv
        \<longrightarrow> fst (main_loop_body os all_cpus i s) = Inr ()
            \<and> stdout (snd (main_loop_body os all_cpus i s)) =
                stdout s @
                  [row_line ''ENOENT'' (status_name tv) (cpu_mask_string cpu_mask all_cpus)
                     (policy_string (word_of_int scheduler)) nice_value (sched_priority param)
                     i (status_pgrp tv) (stat_ppid sv) (stat_sid sv)])"
proof (rule conjI)
  show "find_exe os i s =
           (if err = ENOENT then
              (Inr ''ENOENT'', s\<lparr>errno := err, trace := trace s @ [(Find_exe, i)]\<rparr>)
            else if err = ESRCH then
              (Inr [], s\<lparr>errno := err, not_there := True, trace := trace s @ [(Find_exe, i)]\<rparr>)
            else (Inl Exit_fatal, s\<lparr>errno := err, trace := trace s @ [(Find_exe, i)]\<rparr>))"
    using assms by (simp add: find_exe_def prog_defs)
next
  show "err = ENOENT \<and> affinity_ok os i cpu_mask \<and> param_ok os i param
          \<and> scheduler_ok os i scheduler \<and> nice_ok os i nice_value \<and> stat_ok os i sv
          \<and> status_ok os i (stat_ppid sv) tv
        \<longrightarrow> fst (main_loop_body os all_cpus i s) = Inr ()
            \<and> stdout (snd (main_loop_body os all_cpus i s)) =
                stdout s @
                  [row_line ''ENOENT'' (status_name tv) (cpu_mask_string cpu_mask all_cpus)
                     (policy_string (word_of_int scheduler)) nice_value (sched_priority param)
                     i (status_pgrp tv) (stat_ppid sv) (stat_sid sv)]"
  proof
    assume a: "err = ENOENT \<and> affinity_ok os i cpu_mask \<and> param_ok os i param
          \<and> scheduler_ok os i scheduler \<and> nice_ok os i nice_value \<and> stat_ok os i sv
          \<and> status_ok os i (stat_ppid sv) tv"
    with assms have "readlink_exe os i = (- 1, Some ENOENT, exe_buffer)"
      by simp
    from main_loop_body_live [OF _ _ _ this, of cpu_mask param scheduler "''ENOENT''"
        nice_value sv tv all_cpus s] a
    show "fst (main_loop_body os all_cpus i s) = Inr ()
            \<and> stdout (snd (main_loop_body os all_cpus i s)) =
                stdout s @
                  [row_line ''ENOENT'' (status_name tv) (cpu_mask_string cpu_mask all_cpus)
                     (policy_string (word_of_int scheduler)) nice_value (sched_priority param)
                     i (status_pgrp tv) (stat_ppid sv) (stat_sid sv)]"
      by simp
  qed
qed

text \<open>
  C8, as amended. \<^verbatim>\<open>find_all_cpus\<close> runs once, before the loop, and stores the
  processor count in an \<^verbatim>\<open>int16_t\<close>. Every line after the header comes from an identifier
  \<open>i\<close> whose affinity query succeeded with some set \<open>cpu_mask\<close>; its column \<^verbatim>\<open>cpumask\<close>
  (the eighth from the end, four before the one that holds \<open>i\<close>) is \<^verbatim>\<open>all\<close> if and only if
  \<open>cpu_mask = {0, ..., n - 1}\<close>, where \<open>n\<close> is the count as the 16 bits hold it (the
  number from \<open>-32768\<close> to \<open>32767\<close> that differs from the count by a multiple of 65536),
  and \<^verbatim>\<open>???\<close> for any other set. For a count from \<open>-32768\<close> to \<open>32767\<close>, \<open>n\<close> is the
  count itself.
\<close>

theorem cpumask_all_iff_full_set:
  assumes "main os initial = (r, s')"
    and "l \<in> set (tl (stdout s'))"
  shows "(\<exists>i e cpu_mask param scheduler exe nice_value sv tv label.
            sched_getaffinity os i = (0, e, cpu_mask)
            \<and> param_ok os i param \<and> scheduler_ok os i scheduler \<and> exe_ok os i exe
            \<and> nice_ok os i nice_value \<and> stat_ok os i sv \<and> status_ok os i (stat_ppid sv) tv
            \<and> l = join_commas
                    [c_string exe, c_string (status_name tv), label,
                     policy_string (word_of_int scheduler), dec nice_value,
                     dec (sched_priority param), dec i, dec (status_pgrp tv),
                     dec (stat_ppid sv), dec (stat_sid sv)] @ [newline]
            \<and> columns l =
                  comma_fields (c_string exe) @ comma_fields (c_string (status_name tv))
                  @ [label, policy_string (word_of_int scheduler), dec nice_value,
                     dec (sched_priority param), dec i, dec (status_pgrp tv),
                     dec (stat_ppid sv), dec (stat_sid sv)]
            \<and> (label = ''all'' \<longleftrightarrow>
                   cpu_mask = {0..<nat ((sysconf_nprocessors_conf os + 2 ^ 15) mod 2 ^ 16 - 2 ^ 15)})
            \<and> (label = ''all'' \<or> label = ''???''))
     \<and> (- (2 ^ 15) \<le> sysconf_nprocessors_conf os \<and> sysconf_nprocessors_conf os < 2 ^ 15
        \<longrightarrow> (sysconf_nprocessors_conf os + 2 ^ 15) mod 2 ^ 16 - 2 ^ 15
              = sysconf_nprocessors_conf os)"
proof (rule conjI)
  from main_outcome [OF assms(1)] assms(2) obtain ls f all_cpus js where
    out: "stdout s' = printf header [] # ls" "l \<in> set ls"
    and cpus: "find_all_cpus os initial = (Inr all_cpus, initial)"
    and rows: "list_all2 (live_row os all_cpus) js ls"
    by auto
  have wrap: "int16_t (sysconf_nprocessors_conf os) =
      (sysconf_nprocessors_conf os + 2 ^ 15) mod 2 ^ 16 - 2 ^ 15"
    by (simp add: int16_t_def sint_sbintrunc' signed_take_bit_eq_take_bit_shift take_bit_eq_mod)
  from find_all_cpus_set [OF cpus]
  have all_cpus:
    "all_cpus = {0..<nat ((sysconf_nprocessors_conf os + 2 ^ 15) mod 2 ^ 16 - 2 ^ 15)}"
    unfolding wrap .
  from list_all2_right [OF rows out(2)] obtain i where "live_row os all_cpus i l"
    by blast
  then
  obtain cpu_mask and param :: sched_param and scheduler exe nice_value
    and sv :: stat_vars and tv :: status_vars where
    a: "affinity_ok os i cpu_mask"
    and ok: "param_ok os i param" "scheduler_ok os i scheduler" "exe_ok os i exe"
      "nice_ok os i nice_value"
    and st: "stat_ok os i sv" and stu: "status_ok os i (stat_ppid sv) tv"
    and printed: "l = row_line exe (status_name tv) (cpu_mask_string cpu_mask all_cpus)
                (policy_string (word_of_int scheduler)) nice_value (sched_priority param)
                i (status_pgrp tv) (stat_ppid sv) (stat_sid sv)"
    unfolding live_row_def by blast
  have line: "l = join_commas
                [c_string exe, c_string (status_name tv), cpu_mask_string cpu_mask all_cpus,
                   policy_string (word_of_int scheduler), dec nice_value, dec (sched_priority param),
                   dec i, dec (status_pgrp tv), dec (stat_ppid sv), dec (stat_sid sv)] @ [newline]"
    unfolding printed
    by (simp add: row_line_def row_format_def c_string_cpu_mask_string c_string_policy_string)
  have cols: "columns l =
                comma_fields (c_string exe) @ comma_fields (c_string (status_name tv))
                @ [cpu_mask_string cpu_mask all_cpus, policy_string (word_of_int scheduler),
                   dec nice_value, dec (sched_priority param), dec i, dec (status_pgrp tv),
                   dec (stat_ppid sv), dec (stat_sid sv)]"
    unfolding line
    by (simp only: columns_row fields_dec fields_cpu_mask_string fields_policy_string
        append.simps)
  from a obtain e where e: "sched_getaffinity os i = (0, e, cpu_mask)"
    unfolding affinity_ok_def by blast
  have "cpu_mask_string cpu_mask all_cpus = ''all'' \<longleftrightarrow>
           cpu_mask = {0..<nat ((sysconf_nprocessors_conf os + 2 ^ 15) mod 2 ^ 16 - 2 ^ 15)}"
    and "cpu_mask_string cpu_mask all_cpus = ''all''
           \<or> cpu_mask_string cpu_mask all_cpus = ''???''"
    unfolding all_cpus [symmetric] by (simp_all add: cpu_mask_string_def CPU_EQUAL_def)
  with e ok st stu line cols
  have "sched_getaffinity os i = (0, e, cpu_mask)
        \<and> param_ok os i param \<and> scheduler_ok os i scheduler \<and> exe_ok os i exe
        \<and> nice_ok os i nice_value \<and> stat_ok os i sv \<and> status_ok os i (stat_ppid sv) tv
        \<and> l = join_commas
                [c_string exe, c_string (status_name tv), cpu_mask_string cpu_mask all_cpus,
                 policy_string (word_of_int scheduler), dec nice_value,
                 dec (sched_priority param), dec i, dec (status_pgrp tv),
                 dec (stat_ppid sv), dec (stat_sid sv)] @ [newline]
        \<and> columns l =
              comma_fields (c_string exe) @ comma_fields (c_string (status_name tv))
              @ [cpu_mask_string cpu_mask all_cpus, policy_string (word_of_int scheduler), dec nice_value,
                 dec (sched_priority param), dec i, dec (status_pgrp tv),
                 dec (stat_ppid sv), dec (stat_sid sv)]
        \<and> (cpu_mask_string cpu_mask all_cpus = ''all'' \<longleftrightarrow>
               cpu_mask = {0..<nat ((sysconf_nprocessors_conf os + 2 ^ 15) mod 2 ^ 16 - 2 ^ 15)})
        \<and> (cpu_mask_string cpu_mask all_cpus = ''all'' \<or> cpu_mask_string cpu_mask all_cpus = ''???'')"
    by (intro conjI)
  then show "(\<exists>i e cpu_mask param scheduler exe nice_value sv tv label.
            sched_getaffinity os i = (0, e, cpu_mask)
            \<and> param_ok os i param \<and> scheduler_ok os i scheduler \<and> exe_ok os i exe
            \<and> nice_ok os i nice_value \<and> stat_ok os i sv \<and> status_ok os i (stat_ppid sv) tv
            \<and> l = join_commas
                    [c_string exe, c_string (status_name tv), label,
                     policy_string (word_of_int scheduler), dec nice_value,
                     dec (sched_priority param), dec i, dec (status_pgrp tv),
                     dec (stat_ppid sv), dec (stat_sid sv)] @ [newline]
            \<and> columns l =
                  comma_fields (c_string exe) @ comma_fields (c_string (status_name tv))
                  @ [label, policy_string (word_of_int scheduler), dec nice_value,
                     dec (sched_priority param), dec i, dec (status_pgrp tv),
                     dec (stat_ppid sv), dec (stat_sid sv)]
            \<and> (label = ''all'' \<longleftrightarrow>
                   cpu_mask = {0..<nat ((sysconf_nprocessors_conf os + 2 ^ 15) mod 2 ^ 16 - 2 ^ 15)})
            \<and> (label = ''all'' \<or> label = ''???''))"
    by (intro exI)
next
  show "- (2 ^ 15) \<le> sysconf_nprocessors_conf os \<and> sysconf_nprocessors_conf os < 2 ^ 15
        \<longrightarrow> (sysconf_nprocessors_conf os + 2 ^ 15) mod 2 ^ 16 - 2 ^ 15
              = sysconf_nprocessors_conf os"
    by simp
qed

text \<open>
  C4, as amended. The loop of \<^verbatim>\<open>main\<close> runs the readers for the identifiers
  \<open>0, 1, ..., pid_max - 1\<close>, once each and in this order: the trace of a scan that ends
  normally is exactly these calls, and the trace of a scan that a fatal termination ends is
  empty (the program ended before the loop) or these calls for \<open>0, ..., k - 1\<close> followed by
  the readers for some \<open>k < pid_max\<close> up to the one that ended the program. The lines after
  the header are the lines of strictly increasing identifiers \<open>j\<close> with \<open>0 \<le> j < pid_max\<close>:
  each is the ten values that the kernel answered for its \<open>j\<close>, joined by commas, and
  has the decimal number of \<open>j\<close> in the column \<^verbatim>\<open>tid\<close>, the fourth from the end.
\<close>

theorem scan_visits_zero_to_pid_max:
  assumes "main os initial = (r, s')"
  shows "(r = Inr () \<longrightarrow>
           (\<exists>f. fopen_pid_max os = Stream f
              \<and> trace s' = concat (map (calls all_readers) [0..fscanf_value f - 1])))
     \<and> (\<forall>e. r = Inl e \<longrightarrow>
           trace s' = []
           \<or> (\<exists>f k m. fopen_pid_max os = Stream f \<and> 0 \<le> k \<and> k < fscanf_value f
                 \<and> m < length all_readers
                 \<and> trace s' = concat (map (calls all_readers) [0..k - 1])
                                @ calls (take (Suc m) all_readers) k))
     \<and> (\<exists>js all_cpus. sorted_wrt (<) js
           \<and> (\<forall>j\<in>set js. \<exists>f. fopen_pid_max os = Stream f \<and> 0 \<le> j \<and> j < fscanf_value f)
           \<and> list_all2
               (\<lambda>j l. \<exists>cpu_mask param scheduler exe nice_value sv tv.
                  affinity_ok os j cpu_mask \<and> param_ok os j param \<and> scheduler_ok os j scheduler
                  \<and> exe_ok os j exe \<and> nice_ok os j nice_value \<and> stat_ok os j sv
                  \<and> status_ok os j (stat_ppid sv) tv
                  \<and> l = join_commas
                          [c_string exe, c_string (status_name tv),
                           cpu_mask_string cpu_mask all_cpus, policy_string (word_of_int scheduler),
                           dec nice_value, dec (sched_priority param), dec j, dec (status_pgrp tv),
                           dec (stat_ppid sv), dec (stat_sid sv)] @ [newline]
                  \<and> columns l =
                        comma_fields (c_string exe) @ comma_fields (c_string (status_name tv))
                        @ [cpu_mask_string cpu_mask all_cpus, policy_string (word_of_int scheduler),
                           dec nice_value, dec (sched_priority param), dec j, dec (status_pgrp tv),
                           dec (stat_ppid sv), dec (stat_sid sv)])
               js (tl (stdout s')))"
proof (intro conjI)
  from main_outcome [OF assms] obtain ls where
    out: "stdout s' = printf header [] # ls"
    and cases: "ls = [] \<and> (\<exists>e. r = Inl e) \<and> trace s' = []
      \<or> (\<exists>f all_cpus js. fopen_pid_max os = Stream f \<and> fscanf_count f = 1
            \<and> find_all_cpus os initial = (Inr all_cpus, initial)
            \<and> list_all2 (live_row os all_cpus) js ls
            \<and> sorted_wrt (<) js \<and> (\<forall>j\<in>set js. 0 \<le> j \<and> j < fscanf_value f)
            \<and> (r = Inr () \<longrightarrow>
                 trace s' = concat (map (calls all_readers) [0..fscanf_value f - 1])))"
    by blast
  from cases show "r = Inr () \<longrightarrow>
           (\<exists>f. fopen_pid_max os = Stream f
              \<and> trace s' = concat (map (calls all_readers) [0..fscanf_value f - 1]))"
    by auto
  show "\<forall>e. r = Inl e \<longrightarrow>
           trace s' = []
           \<or> (\<exists>f k m. fopen_pid_max os = Stream f \<and> 0 \<le> k \<and> k < fscanf_value f
                 \<and> m < length all_readers
                 \<and> trace s' = concat (map (calls all_readers) [0..k - 1])
                                @ calls (take (Suc m) all_readers) k)"
  proof (intro allI impI)
    fix e
    assume "r = Inl e"
    with assms have "main os initial = (Inl e, s')"
      by simp
    then show "trace s' = []
           \<or> (\<exists>f k m. fopen_pid_max os = Stream f \<and> 0 \<le> k \<and> k < fscanf_value f
                 \<and> m < length all_readers
                 \<and> trace s' = concat (map (calls all_readers) [0..k - 1])
                                @ calls (take (Suc m) all_readers) k)"
      by (rule main_fatal)
  qed
  have column: "\<exists>cpu_mask param scheduler exe nice_value sv tv.
                   affinity_ok os j cpu_mask \<and> param_ok os j param \<and> scheduler_ok os j scheduler
                   \<and> exe_ok os j exe \<and> nice_ok os j nice_value \<and> stat_ok os j sv
                   \<and> status_ok os j (stat_ppid sv) tv
                   \<and> l = join_commas
                           [c_string exe, c_string (status_name tv),
                            cpu_mask_string cpu_mask all_cpus, policy_string (word_of_int scheduler),
                            dec nice_value, dec (sched_priority param), dec j, dec (status_pgrp tv),
                            dec (stat_ppid sv), dec (stat_sid sv)] @ [newline]
                   \<and> columns l =
                         comma_fields (c_string exe) @ comma_fields (c_string (status_name tv))
                         @ [cpu_mask_string cpu_mask all_cpus, policy_string (word_of_int scheduler),
                            dec nice_value, dec (sched_priority param), dec j, dec (status_pgrp tv),
                            dec (stat_ppid sv), dec (stat_sid sv)]"
    if "live_row os all_cpus j l" for all_cpus j l
  proof -
    from that
    obtain cpu_mask and param :: sched_param and scheduler exe nice_value
      and sv :: stat_vars and tv :: status_vars where
      a: "affinity_ok os j cpu_mask"
      and ok: "param_ok os j param" "scheduler_ok os j scheduler" "exe_ok os j exe"
        "nice_ok os j nice_value"
      and st: "stat_ok os j sv" and stu: "status_ok os j (stat_ppid sv) tv"
      and printed: "l = row_line exe (status_name tv) (cpu_mask_string cpu_mask all_cpus)
                  (policy_string (word_of_int scheduler)) nice_value (sched_priority param)
                  j (status_pgrp tv) (stat_ppid sv) (stat_sid sv)"
      unfolding live_row_def by blast
    have line: "l = join_commas
                  [c_string exe, c_string (status_name tv), cpu_mask_string cpu_mask all_cpus,
                     policy_string (word_of_int scheduler), dec nice_value, dec (sched_priority param),
                     dec j, dec (status_pgrp tv), dec (stat_ppid sv), dec (stat_sid sv)] @ [newline]"
      unfolding printed
      by (simp add: row_line_def row_format_def c_string_cpu_mask_string c_string_policy_string)
    have cols: "columns l =
                  comma_fields (c_string exe) @ comma_fields (c_string (status_name tv))
                  @ [cpu_mask_string cpu_mask all_cpus, policy_string (word_of_int scheduler),
                     dec nice_value, dec (sched_priority param), dec j, dec (status_pgrp tv),
                     dec (stat_ppid sv), dec (stat_sid sv)]"
      unfolding line
      by (simp only: columns_row fields_dec fields_cpu_mask_string fields_policy_string
          append.simps)
    from a ok st stu line cols
    have "affinity_ok os j cpu_mask \<and> param_ok os j param \<and> scheduler_ok os j scheduler
          \<and> exe_ok os j exe \<and> nice_ok os j nice_value \<and> stat_ok os j sv
          \<and> status_ok os j (stat_ppid sv) tv
          \<and> l = join_commas
                  [c_string exe, c_string (status_name tv),
                   cpu_mask_string cpu_mask all_cpus, policy_string (word_of_int scheduler),
                   dec nice_value, dec (sched_priority param), dec j, dec (status_pgrp tv),
                   dec (stat_ppid sv), dec (stat_sid sv)] @ [newline]
          \<and> columns l =
                comma_fields (c_string exe) @ comma_fields (c_string (status_name tv))
                @ [cpu_mask_string cpu_mask all_cpus, policy_string (word_of_int scheduler),
                   dec nice_value, dec (sched_priority param), dec j, dec (status_pgrp tv),
                   dec (stat_ppid sv), dec (stat_sid sv)]"
      by (intro conjI)
    then show ?thesis
      by (intro exI)
  qed
  from cases show "\<exists>js all_cpus. sorted_wrt (<) js
           \<and> (\<forall>j\<in>set js. \<exists>f. fopen_pid_max os = Stream f \<and> 0 \<le> j \<and> j < fscanf_value f)
           \<and> list_all2
               (\<lambda>j l. \<exists>cpu_mask param scheduler exe nice_value sv tv.
                  affinity_ok os j cpu_mask \<and> param_ok os j param \<and> scheduler_ok os j scheduler
                  \<and> exe_ok os j exe \<and> nice_ok os j nice_value \<and> stat_ok os j sv
                  \<and> status_ok os j (stat_ppid sv) tv
                  \<and> l = join_commas
                          [c_string exe, c_string (status_name tv),
                           cpu_mask_string cpu_mask all_cpus, policy_string (word_of_int scheduler),
                           dec nice_value, dec (sched_priority param), dec j, dec (status_pgrp tv),
                           dec (stat_ppid sv), dec (stat_sid sv)] @ [newline]
                  \<and> columns l =
                        comma_fields (c_string exe) @ comma_fields (c_string (status_name tv))
                        @ [cpu_mask_string cpu_mask all_cpus, policy_string (word_of_int scheduler),
                           dec nice_value, dec (sched_priority param), dec j, dec (status_pgrp tv),
                           dec (stat_ppid sv), dec (stat_sid sv)])
               js (tl (stdout s'))"
  proof
    assume "ls = [] \<and> (\<exists>e. r = Inl e) \<and> trace s' = []"
    with out have "tl (stdout s') = []"
      by simp
    then show ?thesis
      by (intro exI [of _ "[]"]) simp
  next
    assume "\<exists>f all_cpus js. fopen_pid_max os = Stream f \<and> fscanf_count f = 1
            \<and> find_all_cpus os initial = (Inr all_cpus, initial)
            \<and> list_all2 (live_row os all_cpus) js ls
            \<and> sorted_wrt (<) js \<and> (\<forall>j\<in>set js. 0 \<le> j \<and> j < fscanf_value f)
            \<and> (r = Inr () \<longrightarrow>
                 trace s' = concat (map (calls all_readers) [0..fscanf_value f - 1]))"
    then obtain f all_cpus js where f: "fopen_pid_max os = Stream f"
      and rows: "list_all2 (live_row os all_cpus) js ls"
      and js: "sorted_wrt (<) js" "\<forall>j\<in>set js. 0 \<le> j \<and> j < fscanf_value f"
      by blast
    from rows have "list_all2
               (\<lambda>j l. \<exists>cpu_mask param scheduler exe nice_value sv tv.
                  affinity_ok os j cpu_mask \<and> param_ok os j param \<and> scheduler_ok os j scheduler
                  \<and> exe_ok os j exe \<and> nice_ok os j nice_value \<and> stat_ok os j sv
                  \<and> status_ok os j (stat_ppid sv) tv
                  \<and> l = join_commas
                          [c_string exe, c_string (status_name tv),
                           cpu_mask_string cpu_mask all_cpus, policy_string (word_of_int scheduler),
                           dec nice_value, dec (sched_priority param), dec j, dec (status_pgrp tv),
                           dec (stat_ppid sv), dec (stat_sid sv)] @ [newline]
                  \<and> columns l =
                        comma_fields (c_string exe) @ comma_fields (c_string (status_name tv))
                        @ [cpu_mask_string cpu_mask all_cpus, policy_string (word_of_int scheduler),
                           dec nice_value, dec (sched_priority param), dec j, dec (status_pgrp tv),
                           dec (stat_ppid sv), dec (stat_sid sv)])
               js ls"
      by (rule list_all2_weaken) (rule column)
    with out have "list_all2
               (\<lambda>j l. \<exists>cpu_mask param scheduler exe nice_value sv tv.
                  affinity_ok os j cpu_mask \<and> param_ok os j param \<and> scheduler_ok os j scheduler
                  \<and> exe_ok os j exe \<and> nice_ok os j nice_value \<and> stat_ok os j sv
                  \<and> status_ok os j (stat_ppid sv) tv
                  \<and> l = join_commas
                          [c_string exe, c_string (status_name tv),
                           cpu_mask_string cpu_mask all_cpus, policy_string (word_of_int scheduler),
                           dec nice_value, dec (sched_priority param), dec j, dec (status_pgrp tv),
                           dec (stat_ppid sv), dec (stat_sid sv)] @ [newline]
                  \<and> columns l =
                        comma_fields (c_string exe) @ comma_fields (c_string (status_name tv))
                        @ [cpu_mask_string cpu_mask all_cpus, policy_string (word_of_int scheduler),
                           dec nice_value, dec (sched_priority param), dec j, dec (status_pgrp tv),
                           dec (stat_ppid sv), dec (stat_sid sv)])
               js (tl (stdout s'))"
      by simp
    with f js show ?thesis
      by blast
  qed
qed

text \<open>
  C9, as amended. The header is the eleven labels joined by commas, it is the first thing
  written and it is written exactly once. Every line after it is the ten values that the
  kernel answered for some identifier, joined by commas, and a newline: the executable
  path, the name, the mask label, the policy, and the niceness, the priority, the
  identifier, the \<^verbatim>\<open>Tgid\<close>, the parent id and the session id in decimal; nothing is
  written for the column \<^verbatim>\<open>cpu\<close>. The two texts are written as they are: cut at its
  commas, the line has the columns of the path, those of the name and the eight other
  values: ten columns and one more for every comma in the path and in the name, which is
  ten exactly when neither of them holds a comma.
\<close>

theorem header_once_rows_ten_values:
  assumes "main os initial = (r, s')"
  shows "header =
           join_commas
             [''exe'', ''name'', ''cpumask'', ''policy'', ''nice'', ''priority'', ''tid'',
              ''pid'', ''ppid'', ''sid'', ''cpu''] @ [newline]
     \<and> length (columns header) = 11
     \<and> stdout s' \<noteq> [] \<and> hd (stdout s') = header \<and> count_list (stdout s') header = 1
     \<and> (\<forall>l\<in>set (tl (stdout s')).
           (\<exists>i all_cpus cpu_mask param scheduler exe nice_value sv tv.
              find_all_cpus os initial = (Inr all_cpus, initial)
              \<and> affinity_ok os i cpu_mask \<and> param_ok os i param \<and> scheduler_ok os i scheduler
              \<and> exe_ok os i exe \<and> nice_ok os i nice_value \<and> stat_ok os i sv
              \<and> status_ok os i (stat_ppid sv) tv
              \<and> l = join_commas
                      [c_string exe, c_string (status_name tv),
                       cpu_mask_string cpu_mask all_cpus, policy_string (word_of_int scheduler),
                       dec nice_value, dec (sched_priority param), dec i, dec (status_pgrp tv),
                       dec (stat_ppid sv), dec (stat_sid sv)] @ [newline]
              \<and> columns l =
                    comma_fields (c_string exe) @ comma_fields (c_string (status_name tv))
                    @ [cpu_mask_string cpu_mask all_cpus, policy_string (word_of_int scheduler),
                       dec nice_value, dec (sched_priority param), dec i, dec (status_pgrp tv),
                       dec (stat_ppid sv), dec (stat_sid sv)]
              \<and> length (columns l) =
                    10 + count_list (c_string exe) (CHR '','')
                    + count_list (c_string (status_name tv)) (CHR '','')
              \<and> (length (columns l) = 10 \<longleftrightarrow>
                     CHR '','' \<notin> set (c_string exe)
                     \<and> CHR '','' \<notin> set (c_string (status_name tv)))))"
proof -
  from main_outcome [OF assms] obtain ls where
    out: "stdout s' = header # ls"
    and rows: "ls = [] \<or> (\<exists>all_cpus js. find_all_cpus os initial = (Inr all_cpus, initial)
                 \<and> list_all2 (live_row os all_cpus) js ls)"
    by (auto simp: printf_header)
  have row: "(\<exists>i all_cpus cpu_mask param scheduler exe nice_value sv tv.
              find_all_cpus os initial = (Inr all_cpus, initial)
              \<and> affinity_ok os i cpu_mask \<and> param_ok os i param \<and> scheduler_ok os i scheduler
              \<and> exe_ok os i exe \<and> nice_ok os i nice_value \<and> stat_ok os i sv
              \<and> status_ok os i (stat_ppid sv) tv
              \<and> l = join_commas
                      [c_string exe, c_string (status_name tv),
                       cpu_mask_string cpu_mask all_cpus, policy_string (word_of_int scheduler),
                       dec nice_value, dec (sched_priority param), dec i, dec (status_pgrp tv),
                       dec (stat_ppid sv), dec (stat_sid sv)] @ [newline]
              \<and> columns l =
                    comma_fields (c_string exe) @ comma_fields (c_string (status_name tv))
                    @ [cpu_mask_string cpu_mask all_cpus, policy_string (word_of_int scheduler),
                       dec nice_value, dec (sched_priority param), dec i, dec (status_pgrp tv),
                       dec (stat_ppid sv), dec (stat_sid sv)]
              \<and> length (columns l) =
                    10 + count_list (c_string exe) (CHR '','')
                    + count_list (c_string (status_name tv)) (CHR '','')
              \<and> (length (columns l) = 10 \<longleftrightarrow>
                     CHR '','' \<notin> set (c_string exe)
                     \<and> CHR '','' \<notin> set (c_string (status_name tv))))"
    and fresh: "l \<noteq> header"
    if "l \<in> set ls" for l
  proof -
    from rows that obtain all_cpus js where
      cpus: "find_all_cpus os initial = (Inr all_cpus, initial)"
      and all: "list_all2 (live_row os all_cpus) js ls"
      by auto
    from list_all2_right [OF all that] obtain i where "live_row os all_cpus i l"
      by blast
    then
    obtain cpu_mask and param :: sched_param and scheduler exe nice_value
      and sv :: stat_vars and tv :: status_vars where
      a: "affinity_ok os i cpu_mask"
      and ok: "param_ok os i param" "scheduler_ok os i scheduler" "exe_ok os i exe"
        "nice_ok os i nice_value"
      and st: "stat_ok os i sv" and stu: "status_ok os i (stat_ppid sv) tv"
      and printed: "l = row_line exe (status_name tv) (cpu_mask_string cpu_mask all_cpus)
                  (policy_string (word_of_int scheduler)) nice_value (sched_priority param)
                  i (status_pgrp tv) (stat_ppid sv) (stat_sid sv)"
      unfolding live_row_def by blast
    have line: "l = join_commas
                  [c_string exe, c_string (status_name tv), cpu_mask_string cpu_mask all_cpus,
                     policy_string (word_of_int scheduler), dec nice_value, dec (sched_priority param),
                     dec i, dec (status_pgrp tv), dec (stat_ppid sv), dec (stat_sid sv)] @ [newline]"
      unfolding printed
      by (simp add: row_line_def row_format_def c_string_cpu_mask_string c_string_policy_string)
    have cols: "columns l =
                  comma_fields (c_string exe) @ comma_fields (c_string (status_name tv))
                  @ [cpu_mask_string cpu_mask all_cpus, policy_string (word_of_int scheduler),
                     dec nice_value, dec (sched_priority param), dec i, dec (status_pgrp tv),
                     dec (stat_ppid sv), dec (stat_sid sv)]"
      unfolding line
      by (simp only: columns_row fields_dec fields_cpu_mask_string fields_policy_string
          append.simps)
    have count: "length (columns l) =
            10 + count_list (c_string exe) (CHR '','')
            + count_list (c_string (status_name tv)) (CHR '','')"
      unfolding cols by (simp add: length_fields)
    then have "length (columns l) = 10 \<longleftrightarrow>
            CHR '','' \<notin> set (c_string exe) \<and> CHR '','' \<notin> set (c_string (status_name tv))"
      by (simp add: count_list_0_iff)
    with cpus a ok st stu line cols count
    have "find_all_cpus os initial = (Inr all_cpus, initial)
          \<and> affinity_ok os i cpu_mask \<and> param_ok os i param \<and> scheduler_ok os i scheduler
          \<and> exe_ok os i exe \<and> nice_ok os i nice_value \<and> stat_ok os i sv
          \<and> status_ok os i (stat_ppid sv) tv
          \<and> l = join_commas
                  [c_string exe, c_string (status_name tv),
                   cpu_mask_string cpu_mask all_cpus, policy_string (word_of_int scheduler),
                   dec nice_value, dec (sched_priority param), dec i, dec (status_pgrp tv),
                   dec (stat_ppid sv), dec (stat_sid sv)] @ [newline]
          \<and> columns l =
                comma_fields (c_string exe) @ comma_fields (c_string (status_name tv))
                @ [cpu_mask_string cpu_mask all_cpus, policy_string (word_of_int scheduler),
                   dec nice_value, dec (sched_priority param), dec i, dec (status_pgrp tv),
                   dec (stat_ppid sv), dec (stat_sid sv)]
          \<and> length (columns l) =
                10 + count_list (c_string exe) (CHR '','')
                + count_list (c_string (status_name tv)) (CHR '','')
          \<and> (length (columns l) = 10 \<longleftrightarrow>
                 CHR '','' \<notin> set (c_string exe)
                 \<and> CHR '','' \<notin> set (c_string (status_name tv)))"
      by (intro conjI)
    then show "(\<exists>i all_cpus cpu_mask param scheduler exe nice_value sv tv.
              find_all_cpus os initial = (Inr all_cpus, initial)
              \<and> affinity_ok os i cpu_mask \<and> param_ok os i param \<and> scheduler_ok os i scheduler
              \<and> exe_ok os i exe \<and> nice_ok os i nice_value \<and> stat_ok os i sv
              \<and> status_ok os i (stat_ppid sv) tv
              \<and> l = join_commas
                      [c_string exe, c_string (status_name tv),
                       cpu_mask_string cpu_mask all_cpus, policy_string (word_of_int scheduler),
                       dec nice_value, dec (sched_priority param), dec i, dec (status_pgrp tv),
                       dec (stat_ppid sv), dec (stat_sid sv)] @ [newline]
              \<and> columns l =
                    comma_fields (c_string exe) @ comma_fields (c_string (status_name tv))
                    @ [cpu_mask_string cpu_mask all_cpus, policy_string (word_of_int scheduler),
                       dec nice_value, dec (sched_priority param), dec i, dec (status_pgrp tv),
                       dec (stat_ppid sv), dec (stat_sid sv)]
              \<and> length (columns l) =
                    10 + count_list (c_string exe) (CHR '','')
                    + count_list (c_string (status_name tv)) (CHR '','')
              \<and> (length (columns l) = 10 \<longleftrightarrow>
                     CHR '','' \<notin> set (c_string exe)
                     \<and> CHR '','' \<notin> set (c_string (status_name tv))))"
      by (intro exI)
    show "l \<noteq> header"
      unfolding line by (rule join_row_not_header)
  qed
  from fresh have "header \<notin> set ls"
    by blast
  then have "count_list ls header = 0"
    by (simp add: count_list_0_iff)
  moreover have "header =
           join_commas
             [''exe'', ''name'', ''cpumask'', ''policy'', ''nice'', ''priority'', ''tid'',
              ''pid'', ''ppid'', ''sid'', ''cpu''] @ [newline]"
    by (simp add: header_def)
  moreover have "length (columns header) = 11"
    by (simp add: columns_header)
  ultimately show ?thesis
    using out row by simp
qed

subsection \<open>The example systems, evaluated\<close>

lemma parse_stat_init:
  "parse_stat (0, 0) (c_string (fst (fgets 2048 (contents stat_init)))) =
     Inr \<lparr>stat_pid = 1, stat_ppid = 0, stat_sid = 1, field = 9, field_start = 30, parens = 0\<rparr>"
  by code_simp

lemma parse_status_init:
  "parse_status (0, []) status_init =
     Inr \<lparr>status_name = ''init'', status_pid = 1, status_ppid = 0, status_pgrp = 1\<rparr>"
  by code_simp

lemma parse_status_twice:
  "parse_status (0, []) status_twice =
     Inr \<lparr>status_name = ''init'', status_pid = 1, status_ppid = 0, status_pgrp = 1\<rparr>"
  by code_simp

lemma init_columns:
  "columns (''/bin/init,init,all,OTHER,0,0,1,1,0,1'' @ [newline]) =
     [''/bin/init'', ''init'', ''all'', ''OTHER'', ''0'', ''0'', ''1'', ''1'', ''0'', ''1'']"
  by code_simp

lemma top_columns:
  "columns (''/usr/bin/top,top,???,FIFO,-5,10,7,6,3,2'' @ [newline]) =
     [''/usr/bin/top'', ''top'', ''???'', ''FIFO'', ''-5'', ''10'', ''7'', ''6'', ''3'', ''2'']"
  by code_simp

lemma parse_status_reused:
  "parse_status (0, []) status_reused =
     Inr \<lparr>status_name = ''sh'', status_pid = 1, status_ppid = 5, status_pgrp = 1\<rparr>"
  by code_simp



theorem readers_always_invoked_witness:
  "reports_gone os_exits 1
   \<and> trace (snd (main_loop_body os_exits {0, 1, 2, 3} 1 initial)) = calls all_readers 1
   \<and> stdout (snd (main_loop_body os_exits {0, 1, 2, 3} 1 initial)) = []"
proof -
  have g: "reports_gone os_exits 1"
    by (simp add: reports_gone_def os_exits_def os_init_def)
  have r: "fst (main_loop_body os_exits {0, 1, 2, 3} 1 initial) = Inr ()"
    by code_simp
  from readers_always_invoked
      [where os = os_exits and all_cpus = "{0, 1, 2, 3}" and i = 1 and s = initial,
       OF surjective_pairing] g r
  show ?thesis
    by (simp add: initial_def)
qed

text \<open>
  C2 as stated fails: \<^verbatim>\<open>read_stat\<close> finds no stat record and sets the flag; the status
  record is there (the identifier has been taken by a new process, with parent 5).
  \<^verbatim>\<open>read_status\<close> compares its \<^verbatim>\<open>PPid\<close> with the parent id that \<^verbatim>\<open>read_stat\<close>
  left at 0, and \<^verbatim>\<open>CHECK_EQ\<close> throws: a reader that runs after the flag is set still
  ends the program.
\<close>

theorem flag_set_then_fatal_counterexample:
  "fopen_stat os_reused 1 = Null (Some ENOENT)
   \<and> fst (read_stat os_reused 1 (0, 0) initial) = Inr (0, 0)
   \<and> not_there (snd (read_stat os_reused 1 (0, 0) initial))
   \<and> fst (main_loop_body os_reused {0, 1, 2, 3} 1 initial) = Inl Uncaught_exception"
  by (simp add: os_reused_def os_init_def) code_simp

theorem row_ids_consistent_witness:
  "stdout (snd (main_loop_body os_top {0, 1, 2, 3} 7 initial)) \<noteq> stdout initial
   \<and> (\<exists>stat sv status tv cpu_mask param scheduler exe nice_value.
         fopen_stat os_top 7 = Stream stat
         \<and> parse_stat (0, 0) (c_string (fst (fgets 2048 (contents stat)))) = Inr sv
         \<and> fopen_status os_top 7 = Stream status
         \<and> parse_status (0, []) status = Inr tv
         \<and> stat_pid sv = 7 \<and> status_pid tv = 7 \<and> status_ppid tv = stat_ppid sv
         \<and> affinity_ok os_top 7 cpu_mask \<and> param_ok os_top 7 param
         \<and> scheduler_ok os_top 7 scheduler \<and> exe_ok os_top 7 exe
         \<and> nice_ok os_top 7 nice_value
         \<and> stdout (snd (main_loop_body os_top {0, 1, 2, 3} 7 initial)) = stdout initial @
              [join_commas
                [c_string exe, c_string (status_name tv), cpu_mask_string cpu_mask {0, 1, 2, 3},
                   policy_string (word_of_int scheduler), dec nice_value, dec (sched_priority param),
                   dec 7, dec (status_pgrp tv), dec (stat_ppid sv), dec (stat_sid sv)] @ [newline]]
         \<and> columns (last (stdout (snd (main_loop_body os_top {0, 1, 2, 3} 7 initial)))) =
              comma_fields (c_string exe) @ comma_fields (c_string (status_name tv))
              @ [cpu_mask_string cpu_mask {0, 1, 2, 3}, policy_string (word_of_int scheduler),
                 dec nice_value, dec (sched_priority param), dec 7, dec (status_pgrp tv),
                 dec (stat_ppid sv), dec (stat_sid sv)])
   \<and> stdout (snd (main_loop_body os_top {0, 1, 2, 3} 7 initial)) =
       [''/usr/bin/top,top,???,FIFO,-5,10,7,6,3,2'' @ [newline]]
   \<and> columns (''/usr/bin/top,top,???,FIFO,-5,10,7,6,3,2'' @ [newline]) =
       [''/usr/bin/top'', ''top'', ''???'', ''FIFO'', ''-5'', ''10'', ''7'', ''6'', ''3'', ''2'']
   \<and> stdout (snd (main_loop_body os_init {0, 1, 2, 3} 1 initial)) =
       [''/bin/init,init,all,OTHER,0,0,1,1,0,1'' @ [newline]]
   \<and> columns (''/bin/init,init,all,OTHER,0,0,1,1,0,1'' @ [newline]) =
       [''/bin/init'', ''init'', ''all'', ''OTHER'', ''0'', ''0'', ''1'', ''1'', ''0'', ''1'']
   \<and> fopen_stat os_stale_stat 0 = Stream stat_init
   \<and> (\<exists>e. fst (main_loop_body os_stale_stat {0, 1, 2, 3} 0 initial) = Inl e \<and> fatal e)
   \<and> fopen_status os_mismatch 1 = Stream status_reused
   \<and> (\<exists>e. fst (main_loop_body os_mismatch {0, 1, 2, 3} 1 initial) = Inl e \<and> fatal e)
   \<and> fopen_status os_twice 1 = Stream status_twice
   \<and> parse_status (0, []) status_twice =
       Inr \<lparr>status_name = ''init'', status_pid = 1, status_ppid = 0, status_pgrp = 1\<rparr>
   \<and> labelled_value ''Pid:'' 0 (status_lines (contents status_twice)) = 1
   \<and> labelled_value ''PPid:'' 0 (status_lines (contents status_twice)) = 0
   \<and> labelled_value ''Tgid:'' 0 (status_lines (contents status_twice)) = 1"
proof -
  have top_text: "stdout (snd (main_loop_body os_top {0, 1, 2, 3} 7 initial)) =
       [''/usr/bin/top,top,???,FIFO,-5,10,7,6,3,2'' @ [newline]]"
    by code_simp
  then have row:
    "stdout (snd (main_loop_body os_top {0, 1, 2, 3} 7 initial)) \<noteq> stdout initial"
    by (simp add: initial_def)
  note live = row_ids_consistent
      [where os = os_top and all_cpus = "{0, 1, 2, 3}" and i = 7 and s = initial,
       OF surjective_pairing, THEN conjunct1, rule_format, OF row]
  have init_text: "stdout (snd (main_loop_body os_init {0, 1, 2, 3} 1 initial)) =
       [''/bin/init,init,all,OTHER,0,0,1,1,0,1'' @ [newline]]"
    by code_simp
  have stale: "fopen_stat os_stale_stat 0 = Stream stat_init" "contents stat_init \<noteq> []"
    "stat_pid \<lparr>stat_pid = 1, stat_ppid = 0, stat_sid = 1, field = 9, field_start = 30,
        parens = 0\<rparr> \<noteq> 0"
    by (simp_all add: os_stale_stat_def os_init_def stat_init_def)
  from row_ids_consistent
      [where os = os_stale_stat and all_cpus = "{0, 1, 2, 3}" and i = 0 and s = initial,
       OF surjective_pairing, THEN conjunct2, THEN conjunct1, rule_format, of stat_init]
    stale parse_stat_init
  have wrong_pid: "\<exists>e. fst (main_loop_body os_stale_stat {0, 1, 2, 3} 0 initial) = Inl e \<and> fatal e"
    by blast
  have stat: "fopen_stat os_mismatch 1 = Stream stat_init"
    and status: "fopen_status os_mismatch 1 = Stream status_reused"
    by (simp_all add: os_mismatch_def os_init_def)
  have differ: "status_ppid \<lparr>status_name = ''sh'', status_pid = 1, status_ppid = 5, status_pgrp = 1\<rparr>
        \<noteq> stat_ppid \<lparr>stat_pid = 1, stat_ppid = 0, stat_sid = 1, field = 9, field_start = 30,
                      parens = 0\<rparr>"
    by simp
  from row_ids_consistent
      [where os = os_mismatch and all_cpus = "{0, 1, 2, 3}" and i = 1 and s = initial,
       OF surjective_pairing, THEN conjunct2, THEN conjunct2, THEN conjunct1, rule_format,
       of stat_init _ status_reused]
    stat stale(2) status parse_stat_init parse_status_reused differ
  have wrong_ppid: "\<exists>e. fst (main_loop_body os_mismatch {0, 1, 2, 3} 1 initial) = Inl e \<and> fatal e"
    by blast
  have twice: "fopen_status os_twice 1 = Stream status_twice"
    by (simp add: os_twice_def os_init_def)
  from row_ids_consistent
      [where os = os_twice and all_cpus = "{0, 1, 2, 3}" and i = 1 and s = initial,
       OF surjective_pairing, THEN conjunct2, THEN conjunct2, THEN conjunct2, rule_format,
       of status_twice] twice parse_status_twice
  have numbers: "labelled_value ''Pid:'' 0 (status_lines (contents status_twice)) = 1"
    "labelled_value ''PPid:'' 0 (status_lines (contents status_twice)) = 0"
    "labelled_value ''Tgid:'' 0 (status_lines (contents status_twice)) = 1"
    by fastforce+
  from row live top_text top_columns init_text init_columns stale(1) wrong_pid status
    wrong_ppid twice parse_status_twice numbers
  show ?thesis
    by (intro conjI)
qed

theorem scan_visits_zero_to_pid_max_witness:
  "fst (main os_top initial) = Inr ()
   \<and> (\<exists>f. fopen_pid_max os_top = Stream f
         \<and> trace (snd (main os_top initial)) =
             concat (map (calls all_readers) [0..fscanf_value f - 1]))
   \<and> trace (snd (main os_top initial)) =
       concat (map (calls all_readers) [0, 1, 2, 3, 4, 5, 6, 7])
   \<and> stdout (snd (main os_top initial)) =
       [header, ''/usr/bin/top,top,???,FIFO,-5,10,7,6,3,2'' @ [newline]]
   \<and> columns (''/usr/bin/top,top,???,FIFO,-5,10,7,6,3,2'' @ [newline]) =
       [''/usr/bin/top'', ''top'', ''???'', ''FIFO'', ''-5'', ''10'', ''7'', ''6'', ''3'', ''2'']
   \<and> stdout (snd (main os_init initial)) =
       [header, ''/bin/init,init,all,OTHER,0,0,1,1,0,1'' @ [newline]]
   \<and> fst (main os_exits_then_denied initial) = Inl Exit_fatal
   \<and> trace (snd (main os_exits_then_denied initial)) = calls (take 4 all_readers) 0
   \<and> (trace (snd (main os_exits_then_denied initial)) = []
       \<or> (\<exists>f k m. fopen_pid_max os_exits_then_denied = Stream f \<and> 0 \<le> k \<and> k < fscanf_value f
             \<and> m < length all_readers
             \<and> trace (snd (main os_exits_then_denied initial)) = concat (map (calls all_readers) [0..k - 1])
                            @ calls (take (Suc m) all_readers) k))"
proof -
  have top: "fst (main os_top initial) = Inr ()"
    "stdout (snd (main os_top initial)) =
       [header, ''/usr/bin/top,top,???,FIFO,-5,10,7,6,3,2'' @ [newline]]"
    "trace (snd (main os_top initial)) =
       concat (map (calls all_readers) [0, 1, 2, 3, 4, 5, 6, 7])"
    by code_simp+
  from scan_visits_zero_to_pid_max [where os = os_top, OF surjective_pairing] top(1)
  have visited: "\<exists>f. fopen_pid_max os_top = Stream f
         \<and> trace (snd (main os_top initial)) =
             concat (map (calls all_readers) [0..fscanf_value f - 1])"
    by blast
  have init_text: "stdout (snd (main os_init initial)) =
       [header, ''/bin/init,init,all,OTHER,0,0,1,1,0,1'' @ [newline]]"
    by code_simp
  have e: "fst (main os_exits_then_denied initial) = Inl Exit_fatal"
    and t: "trace (snd (main os_exits_then_denied initial)) = calls (take 4 all_readers) 0"
    by code_simp+
  from scan_visits_zero_to_pid_max [where os = os_exits_then_denied, OF surjective_pairing] e
  have ended: "trace (snd (main os_exits_then_denied initial)) = []
               \<or> (\<exists>f k m. fopen_pid_max os_exits_then_denied = Stream f \<and> 0 \<le> k \<and> k < fscanf_value f
                     \<and> m < length all_readers
                     \<and> trace (snd (main os_exits_then_denied initial)) = concat (map (calls all_readers) [0..k - 1])
                                    @ calls (take (Suc m) all_readers) k)"
    by blast
  from top(1) visited top(3) top(2) top_columns init_text e t ended show ?thesis
    by (intro conjI)
qed

text \<open>
  C4 as stated fails: with a maximum of 1, the scan calls the readers for the identifier 0
  and for no other; identifier 1, the maximum, is never looked at. On a system that answers
  for identifier 0, the line printed has 0 in the tid column.
\<close>

theorem scan_starts_at_zero_counterexample:
  "fopen_pid_max os_zero = Stream \<lparr>fscanf_count = 1, fscanf_value = 1, pid_max_fclose = 0\<rparr>
   \<and> fst (main os_zero initial) = Inr ()
   \<and> trace (snd (main os_zero initial)) = calls all_readers 0
   \<and> stdout (snd (main os_zero initial)) =
       [header, ''ENOENT,idle,all,OTHER,0,0,0,0,0,0'' @ [newline]]"
  by (simp add: os_zero_def os_init_def) code_simp

text \<open>
  C5, the failing input. The stat record \<^verbatim>\<open>7 (sh) S 1 \<close> has four fields that end in
  a space. The loop counts 4, the check \<^verbatim>\<open>field < 4\<close> lets that pass, and
  \<^verbatim>\<open>read_stat\<close> returns normally, the parent id 1 and the session id still 0: field 4
  was never parsed.
\<close>

theorem read_stat_four_fields_not_fatal:
  "parse_stat (0, 0) (''7 (sh) S 1 '' @ [newline]) =
     Inr \<lparr>stat_pid = 7, stat_ppid = 1, stat_sid = 0, field = 4, field_start = 11, parens = 0\<rparr>
   \<and> fst (read_stat os_short_stat 7 (0, 0) initial) = Inr (1, 0)
   \<and> \<not> not_there (snd (read_stat os_short_stat 7 (0, 0) initial))"
  by code_simp

theorem find_nice_value_errno_witness:
  "getpriority os_nice 1 = (- 5, None)
   \<and> fst (find_nice_value os_nice 1 (initial\<lparr>errno := ESRCH\<rparr>)) = Inr (- 5)
   \<and> errno (snd (find_nice_value os_nice 1 (initial\<lparr>errno := ESRCH\<rparr>))) = 0
   \<and> \<not> not_there (snd (find_nice_value os_nice 1 (initial\<lparr>errno := ESRCH\<rparr>)))"
proof -
  have g: "getpriority os_nice 1 = (- 5, None)"
    by (simp add: os_nice_def os_init_def)
  from find_nice_value_errno
      [where s = "initial\<lparr>errno := ESRCH\<rparr>" and indicator = 0, OF g surjective_pairing] g
  show ?thesis
    by (simp add: ESRCH_def initial_def)
qed

theorem find_exe_outcomes_witness:
  "readlink_exe os_kthread 1 = (- 1, Some ENOENT, [])
   \<and> fst (find_exe os_kthread 1 initial) = Inr ''ENOENT''
   \<and> \<not> not_there (snd (find_exe os_kthread 1 initial))
   \<and> fst (main_loop_body os_kthread {0, 1, 2, 3} 1 initial) = Inr ()
   \<and> stdout (snd (main_loop_body os_kthread {0, 1, 2, 3} 1 initial)) =
       [''ENOENT,init,all,OTHER,0,0,1,1,0,1'' @ [newline]]"
proof -
  have l: "readlink_exe os_kthread 1 = (- 1, Some ENOENT, [])"
    by (simp add: os_kthread_def os_init_def)
  have ok: "affinity_ok os_kthread 1 {0, 1, 2, 3}" "param_ok os_kthread 1 \<lparr>sched_priority = 0\<rparr>"
    "scheduler_ok os_kthread 1 0" "nice_ok os_kthread 1 0"
    by (simp_all add: affinity_ok_def param_ok_def scheduler_ok_def nice_ok_def os_kthread_def
        os_init_def)
  have st: "stat_ok os_kthread 1
      \<lparr>stat_pid = 1, stat_ppid = 0, stat_sid = 1, field = 9, field_start = 30, parens = 0\<rparr>"
    using parse_stat_init
    by (simp add: stat_ok_def os_kthread_def os_init_def) (simp add: stat_init_def)
  have stu: "status_ok os_kthread 1 0
      \<lparr>status_name = ''init'', status_pid = 1, status_ppid = 0, status_pgrp = 1\<rparr>"
    using parse_status_init
    by (simp add: status_ok_def os_kthread_def os_init_def) (simp add: status_init_def)
  have line: "row_line ''ENOENT'' ''init'' (cpu_mask_string {0, 1, 2, 3} {0, 1, 2, 3})
      (policy_string (word_of_int 0)) 0 0 1 1 0 1 = ''ENOENT,init,all,OTHER,0,0,1,1,0,1'' @ [newline]"
    by code_simp
  from find_exe_outcomes
      [where s = initial and all_cpus = "{0, 1, 2, 3}" and cpu_mask = "{0, 1, 2, 3}"
         and param = "\<lparr>sched_priority = 0\<rparr>" and scheduler = 0 and nice_value = 0
         and sv = "\<lparr>stat_pid = 1, stat_ppid = 0, stat_sid = 1, field = 9, field_start = 30,
                    parens = 0\<rparr>"
         and tv = "\<lparr>status_name = ''init'', status_pid = 1, status_ppid = 0, status_pgrp = 1\<rparr>",
       OF l] l ok st stu line
  show ?thesis
    by (simp add: initial_def)
qed

theorem cpumask_all_iff_full_set_witness:
  "''/usr/bin/top,top,???,FIFO,-5,10,7,6,3,2'' @ [newline]
        \<in> set (tl (stdout (snd (main os_top initial))))
   \<and> (\<exists>i e cpu_mask param scheduler exe nice_value sv tv label.
         sched_getaffinity os_top i = (0, e, cpu_mask)
         \<and> param_ok os_top i param \<and> scheduler_ok os_top i scheduler \<and> exe_ok os_top i exe
         \<and> nice_ok os_top i nice_value \<and> stat_ok os_top i sv \<and> status_ok os_top i (stat_ppid sv) tv
         \<and> (''/usr/bin/top,top,???,FIFO,-5,10,7,6,3,2'' @ [newline]) = join_commas
                 [c_string exe, c_string (status_name tv), label,
                  policy_string (word_of_int scheduler), dec nice_value,
                  dec (sched_priority param), dec i, dec (status_pgrp tv),
                  dec (stat_ppid sv), dec (stat_sid sv)] @ [newline]
         \<and> columns (''/usr/bin/top,top,???,FIFO,-5,10,7,6,3,2'' @ [newline]) =
               comma_fields (c_string exe) @ comma_fields (c_string (status_name tv))
               @ [label, policy_string (word_of_int scheduler), dec nice_value,
                  dec (sched_priority param), dec i, dec (status_pgrp tv),
                  dec (stat_ppid sv), dec (stat_sid sv)]
         \<and> (label = ''all'' \<longleftrightarrow>
                cpu_mask = {0..<nat ((sysconf_nprocessors_conf os_top + 2 ^ 15) mod 2 ^ 16 - 2 ^ 15)})
         \<and> (label = ''all'' \<or> label = ''???''))
   \<and> sched_getaffinity os_top 7 = (0, None, {0, 1})
   \<and> stdout (snd (main os_top initial)) =
       [header, ''/usr/bin/top,top,???,FIFO,-5,10,7,6,3,2'' @ [newline]]
   \<and> sched_getaffinity os_init 1 = (0, None, {0, 1, 2, 3})
   \<and> stdout (snd (main os_init initial)) =
       [header, ''/bin/init,init,all,OTHER,0,0,1,1,0,1'' @ [newline]]
   \<and> - (2 ^ 15) \<le> sysconf_nprocessors_conf os_top \<and> sysconf_nprocessors_conf os_top < 2 ^ 15
   \<and> (sysconf_nprocessors_conf os_top + 2 ^ 15) mod 2 ^ 16 - 2 ^ 15
       = sysconf_nprocessors_conf os_top"
proof -
  have n: "- (2 ^ 15) \<le> sysconf_nprocessors_conf os_top"
    "sysconf_nprocessors_conf os_top < 2 ^ 15"
    by (simp_all add: os_top_def)
  have out: "stdout (snd (main os_top initial)) =
       [header, ''/usr/bin/top,top,???,FIFO,-5,10,7,6,3,2'' @ [newline]]"
    by code_simp
  then have l: "''/usr/bin/top,top,???,FIFO,-5,10,7,6,3,2'' @ [newline]
        \<in> set (tl (stdout (snd (main os_top initial))))"
    by simp
  note main_facts = cpumask_all_iff_full_set [where os = os_top, OF surjective_pairing l]
  from main_facts n
  have same: "(sysconf_nprocessors_conf os_top + 2 ^ 15) mod 2 ^ 16 - 2 ^ 15
       = sysconf_nprocessors_conf os_top"
    by blast
  have sets: "sched_getaffinity os_top 7 = (0, None, {0, 1})"
    "sched_getaffinity os_init 1 = (0, None, {0, 1, 2, 3})"
    by (simp_all add: os_top_def os_init_def)
  have init_text: "stdout (snd (main os_init initial)) =
       [header, ''/bin/init,init,all,OTHER,0,0,1,1,0,1'' @ [newline]]"
    by code_simp
  from l main_facts [THEN conjunct1] sets(1) out sets(2) init_text n same
  show ?thesis
    by (intro conjI)
qed

text \<open>
  C8 as stated fails: a system reports 65540 configured processors. The \<^verbatim>\<open>int16_t\<close>
  holds 4, the set computed at startup is \<open>{0, 1, 2, 3}\<close>, and an identifier whose affinity
  set is \<open>{0, 1, 2, 3}\<close>, far from the full configured set \<open>{0, ..., 65539}\<close>, gets the
  label \<^verbatim>\<open>all\<close>.
\<close>

theorem cpumask_all_wraps_counterexample:
  "sysconf_nprocessors_conf os_wrap = 65540
   \<and> sched_getaffinity os_wrap 1 = (0, None, {0, 1, 2, 3})
   \<and> {0, 1, 2, 3} \<noteq> {0..<nat 65540}
   \<and> stdout (snd (main os_wrap initial)) =
       [header, ''/bin/init,init,all,OTHER,0,0,1,1,0,1'' @ [newline]]"
proof -
  have "(4 :: nat) \<in> {0..<nat 65540}" and "(4 :: nat) \<notin> {0, 1, 2, 3}"
    by simp_all
  then have differ: "{0, 1, 2, 3} \<noteq> {0..<nat 65540}"
    by metis
  have out: "stdout (snd (main os_wrap initial)) =
       [header, ''/bin/init,init,all,OTHER,0,0,1,1,0,1'' @ [newline]]"
    by code_simp
  have "sysconf_nprocessors_conf os_wrap = 65540"
    and "sched_getaffinity os_wrap 1 = (0, None, {0, 1, 2, 3})"
    by (simp_all add: os_wrap_def os_init_def)
  with differ out show ?thesis
    by (intro conjI)
qed

theorem header_once_rows_ten_values_witness:
  "stdout (snd (main os_top initial)) =
     [header, ''/usr/bin/top,top,???,FIFO,-5,10,7,6,3,2'' @ [newline]]
   \<and> count_list (stdout (snd (main os_top initial))) header = 1
   \<and> (\<exists>i all_cpus cpu_mask param scheduler exe nice_value sv tv.
         find_all_cpus os_top initial = (Inr all_cpus, initial)
         \<and> affinity_ok os_top i cpu_mask \<and> param_ok os_top i param \<and> scheduler_ok os_top i scheduler
         \<and> exe_ok os_top i exe \<and> nice_ok os_top i nice_value \<and> stat_ok os_top i sv
         \<and> status_ok os_top i (stat_ppid sv) tv
         \<and> (''/usr/bin/top,top,???,FIFO,-5,10,7,6,3,2'' @ [newline]) = join_commas
                 [c_string exe, c_string (status_name tv),
                  cpu_mask_string cpu_mask all_cpus, policy_string (word_of_int scheduler),
                  dec nice_value, dec (sched_priority param), dec i, dec (status_pgrp tv),
                  dec (stat_ppid sv), dec (stat_sid sv)] @ [newline]
         \<and> columns (''/usr/bin/top,top,???,FIFO,-5,10,7,6,3,2'' @ [newline]) =
               comma_fields (c_string exe) @ comma_fields (c_string (status_name tv))
               @ [cpu_mask_string cpu_mask all_cpus, policy_string (word_of_int scheduler),
                  dec nice_value, dec (sched_priority param), dec i, dec (status_pgrp tv),
                  dec (stat_ppid sv), dec (stat_sid sv)]
         \<and> length (columns (''/usr/bin/top,top,???,FIFO,-5,10,7,6,3,2'' @ [newline])) =
               10 + count_list (c_string exe) (CHR '','')
               + count_list (c_string (status_name tv)) (CHR '','')
         \<and> (length (columns (''/usr/bin/top,top,???,FIFO,-5,10,7,6,3,2'' @ [newline])) = 10 \<longleftrightarrow>
                CHR '','' \<notin> set (c_string exe)
                \<and> CHR '','' \<notin> set (c_string (status_name tv))))
   \<and> columns (''/usr/bin/top,top,???,FIFO,-5,10,7,6,3,2'' @ [newline]) =
       [''/usr/bin/top'', ''top'', ''???'', ''FIFO'', ''-5'', ''10'', ''7'', ''6'', ''3'', ''2'']
   \<and> stdout (snd (main os_init initial)) =
       [header, ''/bin/init,init,all,OTHER,0,0,1,1,0,1'' @ [newline]]
   \<and> columns (''/bin/init,init,all,OTHER,0,0,1,1,0,1'' @ [newline]) =
       [''/bin/init'', ''init'', ''all'', ''OTHER'', ''0'', ''0'', ''1'', ''1'', ''0'', ''1'']"
proof -
  have out: "stdout (snd (main os_top initial)) =
     [header, ''/usr/bin/top,top,???,FIFO,-5,10,7,6,3,2'' @ [newline]]"
    by code_simp
  then have l: "''/usr/bin/top,top,???,FIFO,-5,10,7,6,3,2'' @ [newline]
        \<in> set (tl (stdout (snd (main os_top initial))))"
    by simp
  note main_facts = header_once_rows_ten_values [where os = os_top, OF surjective_pairing]
  from main_facts have once: "count_list (stdout (snd (main os_top initial))) header = 1"
    by blast
  from main_facts l have row: "(\<exists>i all_cpus cpu_mask param scheduler exe nice_value sv tv.
         find_all_cpus os_top initial = (Inr all_cpus, initial)
         \<and> affinity_ok os_top i cpu_mask \<and> param_ok os_top i param \<and> scheduler_ok os_top i scheduler
         \<and> exe_ok os_top i exe \<and> nice_ok os_top i nice_value \<and> stat_ok os_top i sv
         \<and> status_ok os_top i (stat_ppid sv) tv
         \<and> (''/usr/bin/top,top,???,FIFO,-5,10,7,6,3,2'' @ [newline]) = join_commas
                 [c_string exe, c_string (status_name tv),
                  cpu_mask_string cpu_mask all_cpus, policy_string (word_of_int scheduler),
                  dec nice_value, dec (sched_priority param), dec i, dec (status_pgrp tv),
                  dec (stat_ppid sv), dec (stat_sid sv)] @ [newline]
         \<and> columns (''/usr/bin/top,top,???,FIFO,-5,10,7,6,3,2'' @ [newline]) =
               comma_fields (c_string exe) @ comma_fields (c_string (status_name tv))
               @ [cpu_mask_string cpu_mask all_cpus, policy_string (word_of_int scheduler),
                  dec nice_value, dec (sched_priority param), dec i, dec (status_pgrp tv),
                  dec (stat_ppid sv), dec (stat_sid sv)]
         \<and> length (columns (''/usr/bin/top,top,???,FIFO,-5,10,7,6,3,2'' @ [newline])) =
               10 + count_list (c_string exe) (CHR '','')
               + count_list (c_string (status_name tv)) (CHR '','')
         \<and> (length (columns (''/usr/bin/top,top,???,FIFO,-5,10,7,6,3,2'' @ [newline])) = 10 \<longleftrightarrow>
                CHR '','' \<notin> set (c_string exe)
                \<and> CHR '','' \<notin> set (c_string (status_name tv))))"
    by blast
  have init_text: "stdout (snd (main os_init initial)) =
       [header, ''/bin/init,init,all,OTHER,0,0,1,1,0,1'' @ [newline]]"
    by code_simp
  from out once row top_columns init_text init_columns show ?thesis
    by (intro conjI)
qed

text \<open>
  C9 as stated fails: the executable of identifier 1 is \<^verbatim>\<open>/opt/a,b\<close>. The path is
  written as it is, and the line has eleven comma-separated values, not ten.
\<close>

theorem row_with_comma_counterexample:
  "readlink_exe os_comma 1 = (8, None, ''/opt/a,b'')
   \<and> stdout (snd (main os_comma initial)) =
       [header, ''/opt/a,b,init,all,OTHER,0,0,1,1,0,1'' @ [newline]]
   \<and> columns (''/opt/a,b,init,all,OTHER,0,0,1,1,0,1'' @ [newline]) =
       [''/opt/a'', ''b'', ''init'', ''all'', ''OTHER'', ''0'', ''0'', ''1'', ''1'', ''0'', ''1'']
   \<and> length (columns (''/opt/a,b,init,all,OTHER,0,0,1,1,0,1'' @ [newline])) = 11"
  by (simp add: os_comma_def os_init_def) code_simp

subsection \<open>The statistics record, field by field\<close>

lemma stat_loop_skip:
  "skip (parens v) xs = Some d \<Longrightarrow>
   stat_loop buffer (xs @ rest) i v = stat_loop buffer rest (i + length xs) (v\<lparr>parens := d\<rparr>)"
proof (induction xs arbitrary: i v)
  case Nil
  then have "v\<lparr>parens := d\<rparr> = v"
    by (cases v) simp
  then show ?case by simp
next
  case (Cons c xs)
  show ?case
  proof (cases "c = CHR ''(''")
    case True
    with Cons.prems have "skip (parens (v\<lparr>parens := parens v + 1\<rparr>)) xs = Some d"
      by (simp add: Let_def split: if_splits)
    from Cons.IH [OF this, of "i + 1"] True Cons.prems show ?thesis
      by (simp add: Let_def split: if_splits)
  next
    case False
    show ?thesis
    proof (cases "parens v > 0")
      case pos: True
      show ?thesis
      proof (cases "c = CHR '')''")
        case True
        with False pos Cons.prems have "skip (parens (v\<lparr>parens := parens v - 1\<rparr>)) xs = Some d"
          by (simp add: Let_def)
        from Cons.IH [OF this, of "i + 1"] True False pos show ?thesis
          by (simp add: Let_def)
      next
        case nc: False
        with False pos Cons.prems have "skip (parens v) xs = Some d"
          by (simp add: Let_def)
        from Cons.IH [OF this, of "i + 1"] nc False pos show ?thesis
          by (simp add: Let_def)
      qed
    next
      case npos: False
      with False Cons.prems have sp: "c \<noteq> CHR '' ''" and "skip (parens v) xs = Some d"
        by (auto simp: Let_def split: if_splits)
      from Cons.IH [OF this(2), of "i + 1"] sp False npos show ?thesis
        by (simp add: Let_def)
    qed
  qed
qed

lemma stat_loop_token:
  assumes "token f" and "parens v = 0" and "buffer = pre @ f @ CHR '' '' # rest"
    and "field_start v = length pre" and "pre' = pre @ f @ [CHR '' '']"
  shows "stat_loop buffer (f @ CHR '' '' # rest) (length pre) v =
     (case stat_field f v of
        Inl e \<Rightarrow> Inl e
      | Inr v2 \<Rightarrow>
          stat_loop buffer rest (length pre')
            (v2\<lparr>field := field v2 + 1, field_start := length pre'\<rparr>))"
proof -
  from assms(1,2) have "skip (parens v) f = Some 0"
    by (simp add: token_def)
  from stat_loop_skip [OF this, of buffer "CHR '' '' # rest" "length pre"]
  have a: "stat_loop buffer (f @ CHR '' '' # rest) (length pre) v =
          stat_loop buffer (CHR '' '' # rest) (length pre + length f) (v\<lparr>parens := 0\<rparr>)" .
  have b: "v\<lparr>parens := 0\<rparr> = v"
    using assms(2) by (cases v) simp
  have c: "take (length pre + length f - field_start v) (drop (field_start v) buffer) = f"
    using assms(3,4) by simp
  have d: "length pre' = length pre + length f + 1"
    using assms(5) by simp
  show ?thesis
    unfolding a b d by (simp add: Let_def c assms(2))
qed

lemma stat_field_parens: "stat_field f v = Inr v2 \<Longrightarrow> parens v2 = parens v"
  by (auto simp: stat_field_def split: if_splits option.splits)

lemma stat_loop_tail:
  "5 \<le> field v \<Longrightarrow>
   \<exists>v'. stat_loop buffer cs i v = Inr v' \<and> stat_pid v' = stat_pid v
     \<and> stat_ppid v' = stat_ppid v \<and> stat_sid v' = stat_sid v \<and> field v \<le> field v'"
proof (induction cs arbitrary: i v)
  case Nil
  then show ?case by simp
next
  case (Cons c cs)
  define v1 where "v1 = (if c = CHR ''('' then v\<lparr>parens := parens v + 1\<rparr> else v)"
  have v1: "stat_pid v1 = stat_pid v" "stat_ppid v1 = stat_ppid v" "stat_sid v1 = stat_sid v"
    "field v1 = field v"
    by (simp_all add: v1_def)
  have unfold: "stat_loop buffer (c # cs) i v =
     (if parens v1 > 0 then
        stat_loop buffer cs (i + 1) (if c = CHR '')'' then v1\<lparr>parens := parens v1 - 1\<rparr> else v1)
      else if c = CHR '' '' then
        (case stat_field (take (i - field_start v1) (drop (field_start v1) buffer)) v1 of
           Inl e \<Rightarrow> Inl e
         | Inr v2 \<Rightarrow>
             stat_loop buffer cs (i + 1) (v2\<lparr>field := field v2 + 1, field_start := i + 1\<rparr>))
      else stat_loop buffer cs (i + 1) v1)"
    by (simp add: v1_def Let_def)
  show ?case
  proof (cases "parens v1 > 0")
    case True
    define v2 where "v2 = (if c = CHR '')'' then v1\<lparr>parens := parens v1 - 1\<rparr> else v1)"
    have "5 \<le> field v2"
      using Cons.prems v1 by (simp add: v2_def)
    from Cons.IH [OF this, of "i + 1"] True v1 show ?thesis
      unfolding unfold by (auto simp: v2_def)
  next
    case False
    show ?thesis
    proof (cases "c = CHR '' ''")
      case True
      have sf: "stat_field (take (i - field_start v1) (drop (field_start v1) buffer)) v1 = Inr v1"
        using Cons.prems v1 by (simp add: stat_field_def)
      have "5 \<le> field (v1\<lparr>field := field v1 + 1, field_start := i + 1\<rparr>)"
        using Cons.prems v1 by simp
      from Cons.IH [OF this, of "i + 1"] False True sf v1 show ?thesis
        unfolding unfold by auto
    next
      case nsp: False
      have "5 \<le> field v1"
        using Cons.prems v1 by simp
      from Cons.IH [OF this, of "i + 1"] False nsp v1 show ?thesis
        unfolding unfold by auto
    qed
  qed
qed

lemma token_plain: "\<forall>c\<in>set f. c \<noteq> CHR '' '' \<and> c \<noteq> CHR ''('' \<Longrightarrow> token f"
  unfolding token_def by (induction f) (simp_all add: Let_def)

lemma skip_inside: "0 < d \<Longrightarrow> \<forall>c\<in>set xs. c \<noteq> CHR ''('' \<and> c \<noteq> CHR '')'' \<Longrightarrow> skip d xs = Some d"
  by (induction xs) (simp_all add: Let_def)

lemma skip_append: "skip d xs = Some d' \<Longrightarrow> skip d (xs @ ys) = skip d' ys"
  by (induction xs arbitrary: d) (auto simp: Let_def split: if_splits)

lemma token_comm:
  assumes "\<forall>c\<in>set comm. c \<noteq> CHR ''('' \<and> c \<noteq> CHR '')''"
  shows "token (CHR ''('' # comm @ [CHR '')''])"
proof -
  from skip_inside [OF _ assms, of 1] have "skip 1 (comm @ [CHR '')'']) = skip 1 [CHR '')'']"
    by (intro skip_append) simp
  then show ?thesis
    by (simp add: token_def Let_def)
qed

text \<open>
  The loop of \<^verbatim>\<open>read_stat\<close> on a record that starts with five tokens, each followed
  by a space: the identifier is read from the first, the parent id from the fourth and the
  session id from the fifth, and at least five fields are counted. A text without a space
  and without an opening parenthesis is a token (\<open>token_plain\<close>), and so is a command name
  in parentheses, spaces and nested parentheses included (\<open>token_comm\<close> and the example).
\<close>

theorem parse_stat_fields:
  assumes "token f0" and "token f1" and "token f2" and "token f3" and "token f4"
    and "stoi f0 = Some pid" and "stoi f3 = Some ppid" and "stoi f4 = Some sid"
  shows "\<exists>v. parse_stat ppid_sid
                (f0 @ CHR '' '' # f1 @ CHR '' '' # f2 @ CHR '' '' # f3 @ CHR '' '' # f4
                   @ CHR '' '' # rest) = Inr v
           \<and> stat_pid v = pid \<and> stat_ppid v = ppid \<and> stat_sid v = sid \<and> 5 \<le> field v"
proof -
  define r4 where "r4 = f4 @ CHR '' '' # rest"
  define r3 where "r3 = f3 @ CHR '' '' # r4"
  define r2 where "r2 = f2 @ CHR '' '' # r3"
  define r1 where "r1 = f1 @ CHR '' '' # r2"
  define buffer where "buffer = f0 @ CHR '' '' # r1"
  define p1 where "p1 = [] @ f0 @ [CHR '' '']"
  define p2 where "p2 = p1 @ f1 @ [CHR '' '']"
  define p3 where "p3 = p2 @ f2 @ [CHR '' '']"
  define p4 where "p4 = p3 @ f3 @ [CHR '' '']"
  define p5 where "p5 = p4 @ f4 @ [CHR '' '']"
  define v0 where "v0 = \<lparr>stat_pid = 0, stat_ppid = fst ppid_sid, stat_sid = snd ppid_sid,
        field = 0, field_start = 0, parens = 0\<rparr>"
  define v1 where "v1 = v0\<lparr>stat_pid := pid, field := 1, field_start := length p1\<rparr>"
  define v2 where "v2 = v1\<lparr>field := 2, field_start := length p2\<rparr>"
  define v3 where "v3 = v2\<lparr>field := 3, field_start := length p3\<rparr>"
  define v4 where "v4 = v3\<lparr>stat_ppid := ppid, field := 4, field_start := length p4\<rparr>"
  define v5 where "v5 = v4\<lparr>stat_sid := sid, field := 5, field_start := length p5\<rparr>"
  note v_defs = v5_def v4_def v3_def v2_def v1_def v0_def
  have b0: "buffer = [] @ f0 @ CHR '' '' # r1"
    by (simp add: buffer_def)
  have b1: "buffer = p1 @ f1 @ CHR '' '' # r2"
    by (simp add: buffer_def p1_def r1_def)
  have b2: "buffer = p2 @ f2 @ CHR '' '' # r3"
    by (simp add: b1 p2_def r2_def)
  have b3: "buffer = p3 @ f3 @ CHR '' '' # r4"
    by (simp add: b2 p3_def r3_def)
  have b4: "buffer = p4 @ f4 @ CHR '' '' # rest"
    by (simp add: b3 p4_def r4_def)
  have "stat_loop buffer (f0 @ CHR '' '' # r1) (length ([] :: string)) v0
          = stat_loop buffer r1 (length p1) v1"
    by (subst stat_loop_token [OF assms(1) _ b0 _ p1_def])
       (simp_all add: v_defs stat_field_def assms(6))
  then have s0: "parse_stat ppid_sid buffer = stat_loop buffer r1 (length p1) v1"
    by (simp add: parse_stat_def v0_def buffer_def [symmetric])
  have s1: "stat_loop buffer r1 (length p1) v1 = stat_loop buffer r2 (length p2) v2"
    unfolding r1_def
    by (subst stat_loop_token [OF assms(2) _ b1 [unfolded r1_def] _ p2_def])
       (simp_all add: v_defs stat_field_def)
  have s2: "stat_loop buffer r2 (length p2) v2 = stat_loop buffer r3 (length p3) v3"
    unfolding r2_def
    by (subst stat_loop_token [OF assms(3) _ b2 [unfolded r2_def] _ p3_def])
       (simp_all add: v_defs stat_field_def)
  have s3: "stat_loop buffer r3 (length p3) v3 = stat_loop buffer r4 (length p4) v4"
    unfolding r3_def
    by (subst stat_loop_token [OF assms(4) _ b3 [unfolded r3_def] _ p4_def])
       (simp_all add: v_defs stat_field_def assms(7))
  have s4: "stat_loop buffer r4 (length p4) v4 = stat_loop buffer rest (length p5) v5"
    unfolding r4_def
    by (subst stat_loop_token [OF assms(5) _ b4 _ p5_def])
       (simp_all add: v_defs stat_field_def assms(8))
  have "5 \<le> field v5"
    by (simp add: v5_def)
  from stat_loop_tail [OF this, of buffer rest "length p5"] obtain v where
    "stat_loop buffer rest (length p5) v5 = Inr v" "stat_pid v = stat_pid v5"
    "stat_ppid v = stat_ppid v5" "stat_sid v = stat_sid v5" "field v5 \<le> field v"
    by blast
  then have "parse_stat ppid_sid buffer = Inr v \<and> stat_pid v = pid \<and> stat_ppid v = ppid
      \<and> stat_sid v = sid \<and> 5 \<le> field v"
    by (simp add: s0 s1 s2 s3 s4) (simp add: v_defs)
  then show ?thesis
    unfolding buffer_def r1_def r2_def r3_def r4_def by blast
qed

theorem parse_stat_fields_witness:
  "token ''1'' \<and> token ''(a (b) c)'' \<and> token ''S'' \<and> token ''0'' \<and> token ''12''
   \<and> stoi ''1'' = Some 1 \<and> stoi ''0'' = Some 0 \<and> stoi ''12'' = Some 12
   \<and> (\<exists>v. parse_stat (0, 0) (''1 (a (b) c) S 0 12 12 0 -1 '' @ [newline]) = Inr v
         \<and> stat_pid v = 1 \<and> stat_ppid v = 0 \<and> stat_sid v = 12 \<and> 5 \<le> field v)"
proof -
  have t: "token ''1''" "token ''(a (b) c)''" "token ''S''" "token ''0''" "token ''12''"
    by (simp_all add: token_def Let_def)
  have n: "stoi ''1'' = Some 1" "stoi ''0'' = Some 0" "stoi ''12'' = Some 12"
    by code_simp+
  from parse_stat_fields [OF t n, of "(0, 0)" "''12 0 -1 '' @ [newline]"]
  have "\<exists>v. parse_stat (0, 0) (''1 (a (b) c) S 0 12 12 0 -1 '' @ [newline]) = Inr v
         \<and> stat_pid v = 1 \<and> stat_ppid v = 0 \<and> stat_sid v = 12 \<and> 5 \<le> field v"
    by simp
  with t n show ?thesis
    by (intro conjI)
qed

subsection \<open>The scenario of the specification\<close>

lemma quiet_gone_pass:
  assumes "quiet_gone os i"
  shows "fst (main_loop_body os all_cpus i s) = Inr ()
     \<and> stdout (snd (main_loop_body os all_cpus i s)) = stdout s"
proof -
  obtain ea m where 1: "sched_getaffinity os i = (0, ea, m)"
    using assms by (cases "sched_getaffinity os i") (auto simp: quiet_gone_def)
  obtain eb p where 2: "sched_getparam os i = (0, eb, p)"
    using assms by (cases "sched_getparam os i") (auto simp: quiet_gone_def)
  obtain ec where 3: "sched_getscheduler os i = (0, ec)"
    using assms by (cases "sched_getscheduler os i") (auto simp: quiet_gone_def)
  obtain b where 4: "readlink_exe os i = (- 1, Some ENOENT, b)"
    using assms by (cases "readlink_exe os i") (auto simp: quiet_gone_def)
  obtain v where 5: "getpriority os i = (v, None)"
    using assms by (cases "getpriority os i") (auto simp: quiet_gone_def)
  from assms have 6: "fopen_stat os i = Null (Some ENOENT)"
    and 7: "fopen_status os i = Null (Some ENOENT)"
    by (simp_all add: quiet_gone_def)
  show ?thesis
    by (simp add: 1 2 3 4 5 6 7 main_loop_body_def find_cpu_mask_def find_sched_param_def
      find_scheduler_def find_exe_def find_nice_value_def read_stat_def read_status_def
      prog_defs ESRCH_def ENOENT_def)
qed

lemma main_loop_quiet:
  assumes "\<forall>j. i \<le> j \<and> j < pid_max \<longrightarrow> quiet_gone os j"
  shows "fst (main_loop os all_cpus i pid_max s) = Inr ()
     \<and> stdout (snd (main_loop os all_cpus i pid_max s)) = stdout s"
  using assms
proof (induction os all_cpus i pid_max s rule: main_loop.induct)
  case (1 os all_cpus i pid_max s)
  show ?case
  proof (cases "i < pid_max")
    case False
    then show ?thesis
      by (simp add: main_loop.simps)
  next
    case True
    with "1.prems" have "quiet_gone os i"
      by simp
    note pass = quiet_gone_pass [OF this, of all_cpus s]
    obtain u s1 where body: "main_loop_body os all_cpus i s = (Inr u, s1)"
      using pass by (cases "main_loop_body os all_cpus i s") auto
    from "1.prems" have "\<forall>j. i + 1 \<le> j \<and> j < pid_max \<longrightarrow> quiet_gone os j"
      by simp
    from "1.IH" [OF True body [symmetric] refl this] pass body True show ?thesis
      by (simp add: main_loop.simps [of os all_cpus i])
  qed
qed

lemma main_loop_step:
  assumes "i < pid_max" and "main_loop_body os all_cpus i s = (Inr u, s1)"
  shows "main_loop os all_cpus i pid_max s = main_loop os all_cpus (i + 1) pid_max s1"
  using assms by (simp add: main_loop.simps [of os all_cpus i])

text \<open>
  The scenario of the specification: the maximum is 100, identifier 1 is \<^verbatim>\<open>init\<close>
  with the full affinity set of four processors, policy \<^verbatim>\<open>OTHER\<close>, niceness 0 and the
  two records shown there, and no other identifier has records. The scan ends normally and
  writes the header and the one line \<^verbatim>\<open>/bin/init,init,all,OTHER,0,0,1,1,0,1\<close>.
\<close>

theorem spec_scenario_row:
  "fopen_pid_max os_hundred = Stream \<lparr>fscanf_count = 1, fscanf_value = 100, pid_max_fclose = 0\<rparr>
   \<and> fst (main os_hundred initial) = Inr ()
   \<and> stdout (snd (main os_hundred initial)) =
       [''exe,name,cpumask,policy,nice,priority,tid,pid,ppid,sid,cpu'' @ [newline],
        ''/bin/init,init,all,OTHER,0,0,1,1,0,1'' @ [newline]]"
proof -
  define s0 where "s0 = initial\<lparr>stdout := stdout initial @ [header]\<rparr>"
  define all_cpus :: cpu_set_t where "all_cpus = {0..<nat 4}"
  have pm: "fopen_pid_max os_hundred
      = Stream \<lparr>fscanf_count = 1, fscanf_value = 100, pid_max_fclose = 0\<rparr>"
    by (simp add: os_hundred_def)
  have n: "sysconf_nprocessors_conf os_hundred = 4"
    by (simp add: os_hundred_def os_init_def)
  obtain r where cpus: "find_all_cpus os_hundred s0 = (r, s0)"
    using find_all_cpus_quiet [of os_hundred s0] by (cases "find_all_cpus os_hundred s0") auto
  then obtain a where r: "r = Inr a"
    by (cases r) (auto simp: find_all_cpus_def n int16_t_def prog_defs)
  from find_all_cpus_range [OF cpus [unfolded r]] have a: "a = all_cpus"
    by (simp add: n all_cpus_def)
  have start: "main os_hundred initial = main_loop os_hundred all_cpus 0 100 s0"
    by (simp add: main_def seq_def put_def printf_header find_pid_max_def pm CHECK_EQ_def
        PCHECK_def ok_def s0_def [symmetric] cpus r a)
  have quiet: "quiet_gone os_hundred j" if "j \<noteq> 1" for j
    using that by (simp add: quiet_gone_def os_hundred_def os_init_def)
  obtain u0 s1 where b0: "main_loop_body os_hundred all_cpus 0 s0 = (Inr u0, s1)"
    and o0: "stdout s1 = stdout s0"
    using quiet_gone_pass [OF quiet [of 0], of all_cpus s0]
    by (cases "main_loop_body os_hundred all_cpus 0 s0") auto
  have ok: "affinity_ok os_hundred 1 {0, 1, 2, 3}" "param_ok os_hundred 1 \<lparr>sched_priority = 0\<rparr>"
    "scheduler_ok os_hundred 1 0" "nice_ok os_hundred 1 0"
    "readlink_exe os_hundred 1 = (9, None, ''/bin/init'')"
    by (simp_all add: affinity_ok_def param_ok_def scheduler_ok_def nice_ok_def os_hundred_def
        os_init_def)
  have st: "stat_ok os_hundred 1
      \<lparr>stat_pid = 1, stat_ppid = 0, stat_sid = 1, field = 9, field_start = 30, parens = 0\<rparr>"
    using parse_stat_init
    by (simp add: stat_ok_def os_hundred_def os_init_def) (simp add: stat_init_def)
  have stu: "status_ok os_hundred 1 0
      \<lparr>status_name = ''init'', status_pid = 1, status_ppid = 0, status_pgrp = 1\<rparr>"
    using parse_status_init
    by (simp add: status_ok_def os_hundred_def os_init_def) (simp add: status_init_def)
  have full: "{0, 1, 2, 3} = all_cpus"
    unfolding all_cpus_def by auto
  have line: "row_line ''/bin/init'' ''init'' (cpu_mask_string {0, 1, 2, 3} all_cpus)
      (policy_string (word_of_int 0)) 0 0 1 1 0 1
        = ''/bin/init,init,all,OTHER,0,0,1,1,0,1'' @ [newline]"
    unfolding full [symmetric] by code_simp
  obtain s2 where b1: "main_loop_body os_hundred all_cpus 1 s1 = (Inr (), s2)"
    and o1: "stdout s2 = stdout s1 @ [''/bin/init,init,all,OTHER,0,0,1,1,0,1'' @ [newline]]"
    using main_loop_body_live [OF ok(1,2,3,5) _ ok(4), of "''/bin/init''"
        "\<lparr>stat_pid = 1, stat_ppid = 0, stat_sid = 1, field = 9, field_start = 30, parens = 0\<rparr>"
        "\<lparr>status_name = ''init'', status_pid = 1, status_ppid = 0, status_pgrp = 1\<rparr>"
        all_cpus s1] st stu line
    by simp
  have rest: "fst (main_loop os_hundred all_cpus 2 100 s2) = Inr ()
     \<and> stdout (snd (main_loop os_hundred all_cpus 2 100 s2)) = stdout s2"
    by (rule main_loop_quiet) (simp add: quiet)
  have "main os_hundred initial = main_loop os_hundred all_cpus 2 100 s2"
    using main_loop_step [OF _ b0, of 100] main_loop_step [OF _ b1, of 100] start
    by simp
  with rest o0 o1 pm show ?thesis
    by (simp add: s0_def header_def initial_def)
qed

subsection \<open>Further properties of single readers\<close>

text \<open>
  A stat record that cannot be opened because it is not there sets the flag; the variables
  of the caller keep their values.
\<close>

theorem read_stat_missing_file:
  assumes "fopen_stat os i = Null (Some ENOENT)"
  shows "read_stat os i ppid_sid s =
           (Inr ppid_sid,
            s\<lparr>errno := ENOENT, not_there := True, trace := trace s @ [(Read_stat, i)]\<rparr>)"
  using assms by (simp add: read_stat_def prog_defs)

theorem read_stat_missing_file_witness:
  "fopen_stat os_init 0 = Null (Some ENOENT)
   \<and> fst (read_stat os_init 0 (0, 0) initial) = Inr (0, 0)
   \<and> not_there (snd (read_stat os_init 0 (0, 0) initial))"
proof -
  have "fopen_stat os_init 0 = Null (Some ENOENT)"
    by (simp add: os_init_def)
  with read_stat_missing_file [of os_init 0 "(0, 0)" initial] show ?thesis
    by simp
qed

text \<open>
  A policy number outside the known ones is printed as \<^verbatim>\<open>???\<close>.
\<close>

theorem policy_string_unknown:
  assumes "policy \<notin> {SCHED_OTHER, SCHED_BATCH, SCHED_IDLE, SCHED_FIFO, SCHED_RR, SCHED_DEADLINE}"
  shows "policy_string policy = ''???''"
  using assms by (simp add: policy_string_def)

theorem policy_string_unknown_witness:
  "(4 :: 32 word) \<notin> {SCHED_OTHER, SCHED_BATCH, SCHED_IDLE, SCHED_FIFO, SCHED_RR, SCHED_DEADLINE}
   \<and> policy_string 4 = ''???''"
proof -
  have "(4 :: 32 word) \<notin> {SCHED_OTHER, SCHED_BATCH, SCHED_IDLE, SCHED_FIFO, SCHED_RR, SCHED_DEADLINE}"
    by (simp add: SCHED_OTHER_def SCHED_BATCH_def SCHED_IDLE_def SCHED_FIFO_def SCHED_RR_def
        SCHED_DEADLINE_def)
  with policy_string_unknown [of 4] show ?thesis
    by simp
qed

end
